(* ===== verification/Prelude.thy ===== *)
theory Prelude
  imports Main "HOL-Library.Word" "HOL-Library.Signed_Division"
begin

text \<open>
  What the components share: the integer types of the contracts with their checked and
  saturating operations written out, results that are either a fault or a value, and
  reachability in a labelled transition system with the rule that lifts a one-step
  invariant to every reachable state.

  The contracts are compiled with overflow checks on (the release profile of Cargo.toml),
  so a plain operator that leaves its range panics. Unsigned integers are natural numbers
  and \<open>i128\<close> is an integer; every place where the code adds, multiplies or casts goes
  through one of the operations below, which write the bound out. The lemmas at the end of
  the first section relate them to 128-bit and 64-bit words.
\<close>

section \<open>Automation\<close>

named_theorems res_simps
  \<open>inversion of a successful result, one rule per shape of handler body\<close>
named_theorems fault_simps
  \<open>inversion of a faulting result\<close>
named_theorems arith_defs
  \<open>the definitions of the bounded operations\<close>

section \<open>Machine integers\<close>

type_synonym u32 = nat
type_synonym u64 = nat
type_synonym i128 = int

abbreviation u32_max :: nat where "u32_max \<equiv> 4294967295"
abbreviation u64_max :: nat where "u64_max \<equiv> 18446744073709551615"
abbreviation i128_max :: int where "i128_max \<equiv> 170141183460469231731687303715884105727"
abbreviation i128_min :: int where "i128_min \<equiv> - 170141183460469231731687303715884105728"

definition in_i128 :: "int \<Rightarrow> bool" where
  "in_i128 x \<longleftrightarrow> i128_min \<le> x \<and> x \<le> i128_max"

definition checked_i128 :: "int \<Rightarrow> i128 option" where
  "checked_i128 x = (if in_i128 x then Some x else None)"

definition sat_i128 :: "int \<Rightarrow> i128" where
  "sat_i128 x = max i128_min (min i128_max x)"

definition checked_add_i128 :: "i128 \<Rightarrow> i128 \<Rightarrow> i128 option" where
  "checked_add_i128 a b = checked_i128 (a + b)"

definition checked_mul_i128 :: "i128 \<Rightarrow> i128 \<Rightarrow> i128 option" where
  "checked_mul_i128 a b = checked_i128 (a * b)"

definition checked_div_i128 :: "i128 \<Rightarrow> i128 \<Rightarrow> i128 option" where
  "checked_div_i128 a b = (if b = 0 then None else checked_i128 (a sdiv b))"

definition sat_add_i128 :: "i128 \<Rightarrow> i128 \<Rightarrow> i128" where
  "sat_add_i128 a b = sat_i128 (a + b)"

definition sat_sub_i128 :: "i128 \<Rightarrow> i128 \<Rightarrow> i128" where
  "sat_sub_i128 a b = sat_i128 (a - b)"

definition checked_add_u32 :: "u32 \<Rightarrow> u32 \<Rightarrow> u32 option" where
  "checked_add_u32 a b = (if a + b \<le> u32_max then Some (a + b) else None)"

definition checked_add_u64 :: "u64 \<Rightarrow> u64 \<Rightarrow> u64 option" where
  "checked_add_u64 a b = (if a + b \<le> u64_max then Some (a + b) else None)"

definition sat_add_u32 :: "u32 \<Rightarrow> u32 \<Rightarrow> u32" where
  "sat_add_u32 a b = min u32_max (a + b)"

definition sat_sub_u32 :: "u32 \<Rightarrow> u32 \<Rightarrow> u32" where
  "sat_sub_u32 a b = a - b"

definition sat_add_u64 :: "u64 \<Rightarrow> u64 \<Rightarrow> u64" where
  "sat_add_u64 a b = min u64_max (a + b)"

lemmas [arith_defs] = in_i128_def checked_i128_def sat_i128_def checked_add_i128_def
  checked_mul_i128_def checked_div_i128_def sat_add_i128_def sat_sub_i128_def
  checked_add_u32_def checked_add_u64_def sat_add_u32_def sat_sub_u32_def sat_add_u64_def

lemma sat_i128_in [simp]: "in_i128 x \<Longrightarrow> sat_i128 x = x"
  by (simp add: arith_defs)

lemma in_sat_i128 [simp]: "in_i128 (sat_i128 x)"
  by (simp add: arith_defs)

lemma in_i128_between: "in_i128 a \<Longrightarrow> in_i128 c \<Longrightarrow> a \<le> x \<Longrightarrow> x \<le> c \<Longrightarrow> in_i128 x"
  by (simp add: in_i128_def)

lemma in_i128_nonneg: "0 \<le> x \<Longrightarrow> x \<le> i128_max \<Longrightarrow> in_i128 x"
  by (simp add: in_i128_def)

lemma checked_add_i128_Some [res_simps]:
  "checked_add_i128 a b = Some c \<longleftrightarrow> in_i128 (a + b) \<and> c = a + b"
  by (auto simp: arith_defs)

lemma checked_add_u32_Some [res_simps]:
  "checked_add_u32 a b = Some c \<longleftrightarrow> a + b \<le> u32_max \<and> c = a + b"
  by (auto simp: arith_defs)

lemma checked_add_u64_Some [res_simps]:
  "checked_add_u64 a b = Some c \<longleftrightarrow> a + b \<le> u64_max \<and> c = a + b"
  by (auto simp: arith_defs)

text \<open>The operations on integers agree with the machine words they stand for.\<close>

lemma in_i128_sint: "in_i128 (sint (a :: 128 word))"
  using sint_range_size [of a] by (simp add: in_i128_def word_size)

lemma sat_add_u64_word:
  "sat_add_u64 (unat a) (unat b) = (if unat a + unat b < 2 ^ 64 then unat (a + b) else u64_max)"
  for a b :: "64 word"
  by (auto simp: sat_add_u64_def unat_word_ariths)

lemma checked_add_u32_word:
  "checked_add_u32 (unat a) (unat b) =
     (if unat a + unat b < 2 ^ 32 then Some (unat (a + b)) else None)"
  for a b :: "32 word"
  by (auto simp: checked_add_u32_def unat_word_ariths)

lemma checked_add_i128_word:
  "checked_add_i128 (sint a) (sint b) = Some c \<Longrightarrow> c = sint (a + b)"
  for a b :: "128 word"
  by (auto simp: res_simps in_i128_def sint_word_ariths signed_take_bit_int_eq_self)

text \<open>Truncated division of nonnegative integers is the mathematical one.\<close>

lemma sdiv_pos: "0 \<le> a \<Longrightarrow> 0 < b \<Longrightarrow> a sdiv b = a div b" for a b :: int
  by (cases "a = 0") (simp_all add: signed_divide_int_def)

section \<open>Results\<close>

text \<open>
  A call fails in one of two ways, and both revert every change it made: it returns
  \<open>Err(e)\<close> with an error \<open>e\<close> of the contract's own enum (\<open>Contract\<close>), or it traps
  (\<open>Panic\<close>): a \<open>panic!\<close>, an \<open>unwrap\<close> of nothing, an overflow, a failed
  \<open>require_auth\<close>, or a trap inside a contract it called.
\<close>

datatype panic =
    Auth_failed
  | Reentrancy_detected
  | Arithmetic_overflow
  | Unwrap_none
  | Token_trap
  | Governance_trap
  | Wasm_missing
  | In_cooldown
  | Rate_limit_exceeded
  | Not_circuit_admin
  | Message string

datatype 'e fault = Contract 'e | Panic panic

type_synonym ('e, 'a) res = "'e fault + 'a"

definition bnd :: "('e, 'a) res \<Rightarrow> ('a \<Rightarrow> ('e, 'b) res) \<Rightarrow> ('e, 'b) res" where
  "bnd m f = (case m of Inl e \<Rightarrow> Inl e | Inr x \<Rightarrow> f x)"

definition ok_or :: "'a option \<Rightarrow> 'e fault \<Rightarrow> ('e, 'a) res" where
  "ok_or x e = (case x of None \<Rightarrow> Inl e | Some v \<Rightarrow> Inr v)"

definition is_ok :: "('e, 'a) res \<Rightarrow> bool" where
  "is_ok r \<longleftrightarrow> (case r of Inl _ \<Rightarrow> False | Inr _ \<Rightarrow> True)"

lemma bnd_simps [simp]: "bnd (Inl e) f = Inl e" "bnd (Inr x) f = f x"
  by (simp_all add: bnd_def)

lemma ok_or_simps [simp]: "ok_or None e = Inl e" "ok_or (Some v) e = Inr v"
  by (simp_all add: ok_or_def)

lemma is_ok_simps [simp]: "\<not> is_ok (Inl e)" "is_ok (Inr x)"
  by (simp_all add: is_ok_def)

lemma bnd_assoc: "bnd (bnd m f) g = bnd m (\<lambda>x. bnd (f x) g)"
  by (cases m) simp_all

lemma bnd_Inr [res_simps]: "bnd m f = Inr y \<longleftrightarrow> (\<exists>x. m = Inr x \<and> f x = Inr y)"
  by (cases m) auto

lemma bnd_Inl [fault_simps]:
  "bnd m f = Inl e \<longleftrightarrow> m = Inl e \<or> (\<exists>x. m = Inr x \<and> f x = Inl e)"
  by (cases m) auto

lemma ok_or_Inr [res_simps]: "ok_or x e = Inr v \<longleftrightarrow> x = Some v"
  by (cases x) auto

lemma ok_or_Inl [fault_simps]: "ok_or x e = Inl f \<longleftrightarrow> x = None \<and> f = e"
  by (cases x) auto

lemma if_Inl_Inr [res_simps]: "(if c then Inl e else r) = Inr y \<longleftrightarrow> \<not> c \<and> r = Inr y"
  by simp

lemma if_Inr_Inl [res_simps]: "(if c then r else Inl e) = Inr y \<longleftrightarrow> c \<and> r = Inr y"
  by simp

lemma case_option_Inr [res_simps]:
  "(case x of None \<Rightarrow> Inl e | Some v \<Rightarrow> f v) = Inr y \<longleftrightarrow> (\<exists>v. x = Some v \<and> f v = Inr y)"
  by (cases x) auto

text \<open>A plain operator of the source, which panics when the result leaves its range.\<close>

definition add_u32 :: "u32 \<Rightarrow> u32 \<Rightarrow> ('e, u32) res" where
  "add_u32 a b = ok_or (checked_add_u32 a b) (Panic Arithmetic_overflow)"

definition add_u64 :: "u64 \<Rightarrow> u64 \<Rightarrow> ('e, u64) res" where
  "add_u64 a b = ok_or (checked_add_u64 a b) (Panic Arithmetic_overflow)"

definition add_i128 :: "i128 \<Rightarrow> i128 \<Rightarrow> ('e, i128) res" where
  "add_i128 a b = ok_or (checked_add_i128 a b) (Panic Arithmetic_overflow)"

definition sub_i128 :: "i128 \<Rightarrow> i128 \<Rightarrow> ('e, i128) res" where
  "sub_i128 a b = ok_or (checked_i128 (a - b)) (Panic Arithmetic_overflow)"

definition mul_i128 :: "i128 \<Rightarrow> i128 \<Rightarrow> ('e, i128) res" where
  "mul_i128 a b = ok_or (checked_mul_i128 a b) (Panic Arithmetic_overflow)"

lemma add_u32_Inr [res_simps]: "add_u32 a b = Inr c \<longleftrightarrow> a + b \<le> u32_max \<and> c = a + b"
  by (auto simp: add_u32_def res_simps)

lemma add_u64_Inr [res_simps]: "add_u64 a b = Inr c \<longleftrightarrow> a + b \<le> u64_max \<and> c = a + b"
  by (auto simp: add_u64_def res_simps)

lemma i128_ops_Inr:
  "add_i128 x y = Inr z \<longleftrightarrow> in_i128 (x + y) \<and> z = x + y"
  "sub_i128 x y = Inr z \<longleftrightarrow> in_i128 (x - y) \<and> z = x - y"
  "mul_i128 x y = Inr z \<longleftrightarrow> in_i128 (x * y) \<and> z = x * y"
  by (auto simp: add_i128_def sub_i128_def mul_i128_def checked_add_i128_def checked_mul_i128_def
      checked_i128_def)

text \<open>A list of inputs fed to a fallible operation, stopping at the first fault.\<close>

primrec fold_res :: "('x \<Rightarrow> 's \<Rightarrow> ('e, 's) res) \<Rightarrow> 'x list \<Rightarrow> 's \<Rightarrow> ('e, 's) res" where
  "fold_res f [] s = Inr s"
| "fold_res f (x # xs) s = bnd (f x s) (fold_res f xs)"

lemma fold_res_Cons_Inr [res_simps]:
  "fold_res f (x # xs) s = Inr s' \<longleftrightarrow> (\<exists>s1. f x s = Inr s1 \<and> fold_res f xs s1 = Inr s')"
  by (auto simp: bnd_Inr)

lemma fold_res_append: "fold_res f (xs @ ys) s = bnd (fold_res f xs s) (fold_res f ys)"
  by (induction xs arbitrary: s) (simp_all add: bnd_assoc [symmetric] bnd_def split: sum.split)

text \<open>A property that every step keeps is kept by the whole list.\<close>

lemma fold_res_preserve:
  assumes "fold_res f xs s = Inr s'" and "P s"
    and "\<And>x s s'. x \<in> set xs \<Longrightarrow> f x s = Inr s' \<Longrightarrow> P s \<Longrightarrow> P s'"
  shows "P s'"
  using assms by (induction xs arbitrary: s) (auto simp: bnd_Inr)

section \<open>Reachability and invariants\<close>

inductive reach :: "('s \<Rightarrow> bool) \<Rightarrow> ('s \<Rightarrow> 'l \<Rightarrow> 's \<Rightarrow> bool) \<Rightarrow> 's \<Rightarrow> bool"
  for init :: "'s \<Rightarrow> bool" and step :: "'s \<Rightarrow> 'l \<Rightarrow> 's \<Rightarrow> bool" where
  reach_init: "init s \<Longrightarrow> reach init step s"
| reach_step: "reach init step s \<Longrightarrow> step s l t \<Longrightarrow> reach init step t"

text \<open>
  The interface of an invariant: a property that holds at the start and that every step
  keeps, possibly with the help of a property already known to hold in reachable states.
\<close>

locale invariant_system =
  fixes init :: "'s \<Rightarrow> bool"
    and step :: "'s \<Rightarrow> 'l \<Rightarrow> 's \<Rightarrow> bool"
    and Inv :: "'s \<Rightarrow> bool"
  assumes inv_init: "init s \<Longrightarrow> Inv s"
    and inv_step: "Inv s \<Longrightarrow> step s l t \<Longrightarrow> Inv t"
begin

lemma reach_inv: "reach init step s \<Longrightarrow> Inv s"
  by (induction rule: reach.induct) (auto intro: inv_init inv_step)

end

locale relative_invariant = base: invariant_system init step Aux
  for init :: "'s \<Rightarrow> bool"
    and step :: "'s \<Rightarrow> 'l \<Rightarrow> 's \<Rightarrow> bool"
    and Aux :: "'s \<Rightarrow> bool" +
  fixes Inv :: "'s \<Rightarrow> bool"
  assumes rel_init: "init s \<Longrightarrow> Inv s"
    and rel_step: "Aux s \<Longrightarrow> Aux t \<Longrightarrow> Inv s \<Longrightarrow> step s l t \<Longrightarrow> Inv t"
begin

sublocale both: invariant_system init step "\<lambda>s. Aux s \<and> Inv s"
  by unfold_locales (auto intro: base.inv_init base.inv_step rel_init rel_step)

lemma reach_rel: "reach init step s \<Longrightarrow> Inv s"
  using both.reach_inv by blast

end

text \<open>A run with its labels.\<close>

inductive path :: "('s \<Rightarrow> 'l \<Rightarrow> 's \<Rightarrow> bool) \<Rightarrow> 's \<Rightarrow> 'l list \<Rightarrow> 's \<Rightarrow> bool"
  for step :: "'s \<Rightarrow> 'l \<Rightarrow> 's \<Rightarrow> bool" where
  path_nil: "path step s [] s"
| path_cons: "step s l t \<Longrightarrow> path step t ls u \<Longrightarrow> path step s (l # ls) u"

lemma path_reach: "path step s ls t \<Longrightarrow> reach init step s \<Longrightarrow> reach init step t"
  by (induction rule: path.induct) (auto intro: reach.reach_step [where step = step])

text \<open>
  The interface of something that can happen once: a label that fires \<open>i\<close> needs \<open>i\<close> unspent
  and spends it, and nothing makes it unspent again.
\<close>

locale once_only = invariant_system init step Inv
  for init :: "'s \<Rightarrow> bool"
    and step :: "'s \<Rightarrow> 'l \<Rightarrow> 's \<Rightarrow> bool"
    and Inv :: "'s \<Rightarrow> bool" +
  fixes fires :: "'l \<Rightarrow> 'i \<Rightarrow> bool"
    and spent :: "'s \<Rightarrow> 'i \<Rightarrow> bool"
  assumes not_before: "Inv s \<Longrightarrow> step s l t \<Longrightarrow> fires l i \<Longrightarrow> \<not> spent s i"
    and spends: "Inv s \<Longrightarrow> step s l t \<Longrightarrow> fires l i \<Longrightarrow> spent t i"
    and stays_spent: "Inv s \<Longrightarrow> step s l t \<Longrightarrow> spent s i \<Longrightarrow> spent t i"
begin

lemma never_after:
  "path step s ls t \<Longrightarrow> Inv s \<Longrightarrow> spent s i \<Longrightarrow> filter (\<lambda>l. fires l i) ls = []"
  by (induction rule: path.induct) (auto intro: inv_step dest: not_before stays_spent)

lemma at_most_once:
  "path step s ls t \<Longrightarrow> Inv s \<Longrightarrow> length (filter (\<lambda>l. fires l i) ls) \<le> 1"
proof (induction rule: path.induct)
  case (path_cons s l t ls u)
  have "Inv t" using inv_step path_cons by blast
  then show ?case
    using path_cons never_after [OF path_cons.hyps(2) \<open>Inv t\<close>] spends by (cases "fires l i") auto
qed simp

lemma reach_at_most_once:
  "reach init step s \<Longrightarrow> path step s ls t \<Longrightarrow> length (filter (\<lambda>l. fires l i) ls) \<le> 1"
  by (rule at_most_once [OF _ reach_inv])

end

section \<open>Lists and maps\<close>

lemma sum_list_upd_notin:
  "k \<notin> set xs \<Longrightarrow> (\<Sum>x\<leftarrow>xs. f (if x = k then v else m x)) = (\<Sum>x\<leftarrow>xs. f (m x))"
  by (rule arg_cong [where f = sum_list], rule map_cong) auto

lemma sum_list_upd:
  fixes f :: "'b \<Rightarrow> int"
  shows "distinct xs \<Longrightarrow> k \<in> set xs \<Longrightarrow>
    (\<Sum>x\<leftarrow>xs. f (if x = k then v else m x)) = (\<Sum>x\<leftarrow>xs. f (m x)) - f (m k) + f v"
  by (induction xs) (auto simp: sum_list_upd_notin)

lemma filter_take_drop_Cons:
  "take n (drop k (x # xs)) = (if k = 0 then take n (x # xs) else take n (drop (k - 1) xs))"
  by (cases k) auto

end
