(* ===== verification/Host.thy ===== *)
theory Host
  imports Prelude
begin

text \<open>
  What a contract sees of its host: the invocation it runs in (ledger time, its own
  address, which addresses authorised the call) and the contracts it calls. Those
  contracts, the token and the governance contract, are addresses configured at run time,
  so their behaviour is a parameter: functions on a world \<open>'w\<close> that holds everything
  outside the contract's own storage. The code relies on what the SEP-41 token interface
  documents, stated here as the predicate \<open>sep41\<close> and used as a hypothesis.

  A callee gets only the world, never the contract's storage: the host of these contracts
  refuses a call back into a contract that is already on the stack.
\<close>

section \<open>The invocation\<close>

type_synonym addr = nat
type_synonym bytes32 = nat
type_synonym symbol = string

text \<open>
  \<open>reauthorized a\<close> says whether a second \<open>require_auth\<close> of the same address in the same
  frame passes; hosts differ in this (the code itself works around a host that refuses it),
  so it is a parameter of its own. A call of another contract that traps is \<open>None\<close>.
\<close>

record 'w env =
  timestamp :: u64
  current_contract_address :: addr
  authorized :: "addr \<Rightarrow> bool"
  reauthorized :: "addr \<Rightarrow> bool"
  wasm_uploaded :: "bytes32 \<Rightarrow> bool"
  tk_transfer :: "addr \<Rightarrow> addr \<Rightarrow> addr \<Rightarrow> i128 \<Rightarrow> 'w \<Rightarrow> 'w option"
  tk_balance :: "addr \<Rightarrow> addr \<Rightarrow> 'w \<Rightarrow> i128 option"
  gv_get_ver :: "addr \<Rightarrow> 'w \<Rightarrow> u32 option"
  gv_get_version_numeric_encoded :: "addr \<Rightarrow> 'w \<Rightarrow> u32 option"
  gv_is_upg_ok :: "addr \<Rightarrow> bytes32 \<Rightarrow> 'w \<Rightarrow> bool option"
  gv_is_vetoed :: "addr \<Rightarrow> u32 \<Rightarrow> 'w \<Rightarrow> bool option"
  gv_execute_proposal :: "addr \<Rightarrow> u32 \<Rightarrow> 'w \<Rightarrow> bool \<times> 'w"

definition require_auth :: "'w env \<Rightarrow> addr \<Rightarrow> ('e, unit) res" where
  "require_auth env a = (if authorized env a then Inr () else Inl (Panic Auth_failed))"

definition require_auth_again :: "'w env \<Rightarrow> addr list \<Rightarrow> addr \<Rightarrow> ('e, unit) res" where
  "require_auth_again env earlier a =
     (if a \<in> set earlier \<and> \<not> reauthorized env a then Inl (Panic Auth_failed)
      else require_auth env a)"

lemma require_auth_Inr [res_simps]: "require_auth env a = Inr u \<longleftrightarrow> authorized env a"
  by (simp add: require_auth_def)

lemma require_auth_again_Inr [res_simps]:
  "require_auth_again env as a = Inr u \<longleftrightarrow>
     authorized env a \<and> (a \<in> set as \<longrightarrow> reauthorized env a)"
  by (auto simp: require_auth_again_def res_simps)

section \<open>What the code relies on of the token\<close>

text \<open>
  A transfer that returns moves exactly \<open>a \<ge> 0\<close> out of a balance that covers it. The
  account need not exist before, and a transfer from an account to itself is neutral.
\<close>

definition balance_of :: "'w env \<Rightarrow> addr \<Rightarrow> addr \<Rightarrow> 'w \<Rightarrow> int" where
  "balance_of env t x w = (case tk_balance env t x w of None \<Rightarrow> 0 | Some b \<Rightarrow> b)"

definition sep41 :: "'w env \<Rightarrow> addr \<Rightarrow> bool" where
  "sep41 env t \<longleftrightarrow>
     (\<forall>from to a w w'. tk_transfer env t from to a w = Some w' \<longrightarrow>
        0 \<le> a \<and> a \<le> balance_of env t from w \<and>
        (\<forall>x. balance_of env t x w' =
           balance_of env t x w - (if x = from then a else 0) + (if x = to then a else 0)))"

text \<open>Executing a governance proposal takes no token from the contract.\<close>

definition gov_harmless :: "'w env \<Rightarrow> addr \<Rightarrow> bool" where
  "gov_harmless env t \<longleftrightarrow>
     (\<forall>g p w. balance_of env t (current_contract_address env) w
        \<le> balance_of env t (current_contract_address env) (snd (gv_execute_proposal env g p w)))"

text \<open>
  What is assumed of the host of a call, relative to a reference \<open>E\<close> that fixes the
  contract's address and the reading of balances: the token keeps to \<open>sep41\<close>, balances are
  not negative, governance execution does not drain the contract, and nobody acts with the
  contract's own authority (the contract never authorises itself as a depositor).
\<close>

definition valid_env :: "'w env \<Rightarrow> 'w env \<Rightarrow> bool" where
  "valid_env E env \<longleftrightarrow>
     current_contract_address env = current_contract_address E \<and>
     tk_balance env = tk_balance E \<and>
     (\<forall>t. sep41 env t \<and> gov_harmless env t) \<and>
     (\<forall>t x w. 0 \<le> balance_of env t x w) \<and>
     \<not> authorized env (current_contract_address env)"

lemma valid_env_balance: "valid_env E env \<Longrightarrow> balance_of env t x w = balance_of E t x w"
  by (simp add: valid_env_def balance_of_def)

lemma sep41_nonneg: "sep41 env t \<Longrightarrow> tk_transfer env t f r a w = Some w' \<Longrightarrow> 0 \<le> a"
  unfolding sep41_def by blast

lemma sep41_balance:
  "sep41 env t \<Longrightarrow> tk_transfer env t f r a w = Some w' \<Longrightarrow>
   balance_of env t x w' =
     balance_of env t x w - (if x = f then a else 0) + (if x = r then a else 0)"
  unfolding sep41_def by blast

lemma sep41_out:
  "sep41 env t \<Longrightarrow> tk_transfer env t me r a w = Some w' \<Longrightarrow>
   balance_of env t me w - a \<le> balance_of env t me w'"
  using sep41_balance sep41_nonneg by fastforce

lemma sep41_in:
  "sep41 env t \<Longrightarrow> tk_transfer env t f me a w = Some w' \<Longrightarrow> f \<noteq> me \<Longrightarrow>
   balance_of env t me w' = balance_of env t me w + a"
  using sep41_balance by fastforce

section \<open>A concrete host\<close>

text \<open>
  A ledger of one token, on which a test of the model runs: the world is the balances, a
  transfer needs a nonnegative amount the sender covers, the governance contract reports
  version 1 and approves nothing. The witnesses evaluate the contracts on it.
\<close>

type_synonym ledger = "addr \<Rightarrow> nat"

definition ledger_transfer :: "addr \<Rightarrow> addr \<Rightarrow> addr \<Rightarrow> i128 \<Rightarrow> ledger \<Rightarrow> ledger option" where
  "ledger_transfer t from to a w =
     (if a < 0 \<or> int (w from) < a then None
      else let w1 = w(from := w from - nat a) in Some (w1(to := w1 to + nat a)))"

definition sample_env :: "u64 \<Rightarrow> addr list \<Rightarrow> ledger env" where
  "sample_env now signers =
     \<lparr>timestamp = now, current_contract_address = 0,
      authorized = (\<lambda>a. a \<in> set signers), reauthorized = (\<lambda>_. False),
      wasm_uploaded = (\<lambda>_. True),
      tk_transfer = ledger_transfer, tk_balance = (\<lambda>t x w. Some (int (w x))),
      gv_get_ver = (\<lambda>_ _. Some 1), gv_get_version_numeric_encoded = (\<lambda>_ _. Some 10000),
      gv_is_upg_ok = (\<lambda>_ _ _. Some False), gv_is_vetoed = (\<lambda>_ _ _. Some False),
      gv_execute_proposal = (\<lambda>_ _ w. (False, w))\<rparr>"

lemma sample_env_simps [simp]:
  "timestamp (sample_env now ss) = now"
  "current_contract_address (sample_env now ss) = 0"
  "authorized (sample_env now ss) a = (a \<in> set ss)"
  "tk_transfer (sample_env now ss) = ledger_transfer"
  "tk_balance (sample_env now ss) t x w = Some (int (w x))"
  "gv_execute_proposal (sample_env now ss) g p w = (False, w)"
  by (simp_all add: sample_env_def)

lemma balance_of_sample [simp]: "balance_of (sample_env now ss) t x w = int (w x)"
  by (simp add: balance_of_def)

lemma sep41_sample [simp]: "sep41 (sample_env now ss) t"
  by (auto simp: sep41_def ledger_transfer_def Let_def split: if_splits)

lemma gov_harmless_sample [simp]: "gov_harmless (sample_env now ss) t"
  by (simp add: gov_harmless_def)

lemma valid_env_sample [simp]: "0 \<notin> set ss \<Longrightarrow> valid_env (sample_env 0 []) (sample_env now ss)"
  by (auto simp: valid_env_def) (auto simp: sample_env_def)

end
