(* ===== verification/BountyTypes.thy ===== *)
theory BountyTypes
  imports Host
begin

text \<open>
  The data model of the bounty escrow contract: the error enum with its codes, the stored
  structs of bounty_escrow/contracts/escrow/src/lib.rs, the events of events.rs and
  analytics.rs with their topics, and the storage as one record. Absent storage keys are
  \<open>None\<close>, so the defaults the code falls back to are in the operations that read them.
  Not modelled of the storage: time to live (\<open>extend_ttl\<close> changes no value that the code
  reads) and the split into instance and persistent storage.
\<close>

section \<open>Errors\<close>

datatype error =
    AlreadyInitialized | NotInitialized | BountyExists | BountyNotFound | FundsNotLocked
  | DeadlineNotPassed | Unauthorized | InvalidFeeRate | FeeRecipientNotSet
  | InvalidBatchSize | BatchSizeMismatch | DuplicateBountyId | InvalidAmount
  | InvalidDeadline | InsufficientFunds | RefundNotApproved | FundsPaused
  | AmountBelowMinimum | AmountAboveMaximum | CircuitBreakerOpen | ClaimExpired
  | GovernanceVersionTooLow | PendingClaimExists | GovernanceProposalNotExecutable
  | ApprovalRequired | UpgradeNotApproved | AnalyticsOverflow
  | InvalidCircuitBreakerConfig | ClaimWindowNotConfigured | InvalidAmountRange

fun error_code :: "error \<Rightarrow> u32" where
  "error_code AlreadyInitialized = 1"
| "error_code NotInitialized = 2"
| "error_code BountyExists = 3"
| "error_code BountyNotFound = 4"
| "error_code FundsNotLocked = 5"
| "error_code DeadlineNotPassed = 6"
| "error_code Unauthorized = 7"
| "error_code InvalidFeeRate = 8"
| "error_code FeeRecipientNotSet = 9"
| "error_code InvalidBatchSize = 10"
| "error_code BatchSizeMismatch = 11"
| "error_code DuplicateBountyId = 12"
| "error_code InvalidAmount = 13"
| "error_code InvalidDeadline = 14"
| "error_code InsufficientFunds = 16"
| "error_code RefundNotApproved = 17"
| "error_code FundsPaused = 18"
| "error_code AmountBelowMinimum = 19"
| "error_code AmountAboveMaximum = 20"
| "error_code CircuitBreakerOpen = 21"
| "error_code ClaimExpired = 22"
| "error_code GovernanceVersionTooLow = 23"
| "error_code PendingClaimExists = 24"
| "error_code GovernanceProposalNotExecutable = 25"
| "error_code ApprovalRequired = 26"
| "error_code UpgradeNotApproved = 26"
| "error_code AnalyticsOverflow = 27"
| "error_code InvalidCircuitBreakerConfig = 30"
| "error_code ClaimWindowNotConfigured = 28"
| "error_code InvalidAmountRange = 29"

type_synonym 'a bres = "(error, 'a) res"

section \<open>Stored structs\<close>

datatype escrow_status = Locked | Released | Refunded | PartiallyRefunded

datatype refund_mode = Full | Partial

record refund_record =
  rr_amount :: i128
  rr_recipient :: addr
  rr_timestamp :: u64
  rr_mode :: refund_mode

record escrow =
  depositor :: addr
  amount :: i128
  remaining_amount :: i128
  status :: escrow_status
  deadline :: u64
  refund_history :: "refund_record list"

record escrow_with_id =
  ewi_bounty_id :: u64
  ewi_escrow :: escrow

record pause_flags =
  global_paused :: bool
  lock_paused :: bool
  release_paused :: bool
  refund_paused :: bool

record aggregate_stats =
  total_locked :: i128
  total_released :: i128
  total_refunded :: i128
  count_locked :: u32
  count_released :: u32
  count_refunded :: u32

record escrow_query_filter =
  has_status_filter :: bool
  f_status :: escrow_status
  has_depositor_filter :: bool
  f_depositor :: addr
  min_amount :: i128
  max_amount :: i128
  min_deadline :: u64
  max_deadline :: u64

record fee_config =
  lock_fee_rate :: i128
  release_fee_rate :: i128
  fee_recipient :: addr
  fee_enabled :: bool

record multisig_config =
  threshold_amount :: i128
  signers :: "addr list"
  required_signatures :: u32

record admin_config_snapshot =
  snap_version :: u32
  snap_admin :: addr
  snap_token :: addr
  snap_fee_config :: fee_config
  snap_pause_flags :: pause_flags
  snap_governance_contract :: "addr option"
  snap_min_governance_version :: u32
  snap_claim_window :: u64
  snap_has_amount_policy :: bool
  snap_min_lock_amount :: i128
  snap_max_lock_amount :: i128

record release_approval =
  ra_bounty_id :: u64
  ra_contributor :: addr
  approvals :: "addr list"

record claim_record =
  cl_bounty_id :: u64
  cl_recipient :: addr
  cl_amount :: i128
  expires_at :: u64
  claimed :: bool

record refund_approval =
  ap_bounty_id :: u64
  ap_amount :: i128
  ap_recipient :: addr
  ap_mode :: refund_mode
  approved_by :: addr
  approved_at :: u64

record lock_funds_item =
  li_bounty_id :: u64
  li_depositor :: addr
  li_amount :: i128
  li_deadline :: u64

record release_funds_item =
  ri_bounty_id :: u64
  ri_contributor :: addr

section \<open>Events\<close>

datatype dispute_outcome = Claimed | Cancelled | Expired

record bounty_analytics =
  total_amount_locked :: i128
  total_amount_released :: i128
  total_amount_refunded :: i128
  an_remaining_amount :: i128
  created_at :: u64
  last_updated :: u64
  partial_releases_count :: u32
  partial_refunds_count :: u32

record contract_analytics =
  active_bounty_count :: u32
  released_bounty_count :: u32
  refunded_bounty_count :: u32
  ca_total_locked :: i128
  ca_total_released :: i128
  ca_total_refunded :: i128
  average_bounty_amount :: i128
  snapshot_timestamp :: u64

text \<open>
  One constructor per event struct, its arguments the fields in the struct's order without
  the constant \<open>version\<close> field, which \<open>event_version\<close> gives.
\<close>

datatype event =
    BountyEscrowInitialized addr addr u64
  | FundsLocked u64 i128 addr u64
  | FundsReleased u64 i128 addr u64
  | FundsRefunded u64 i128 addr u64
  | BountyExpired u64 addr i128 u64 u64
  | UpgradeExecuted bytes32 addr
  | BatchFundsLocked u32 i128 u64
  | FeeConfigUpdated i128 i128 addr bool u64
  | BatchFundsReleased u32 i128 u64
  | ApprovalAdded u64 addr addr u64
  | ClaimCreated u64 addr i128 u64
  | ClaimExecuted u64 addr i128 u64
  | ClaimCancelled u64 addr i128 u64 addr symbol
  | DisputeResolved u64 dispute_outcome addr addr i128 u64
  | PauseStateChanged symbol bool addr
  | BountyStateTransitioned u64 symbol symbol i128 addr u64
  | BountyActivityEvent u64 symbol i128 u64
  | AnalyticsSnapshot contract_analytics
  | CircuitEvent symbol u32 u64

definition EVENT_VERSION_V2 :: u32 where "EVENT_VERSION_V2 = 2"
definition ANALYTICS_VERSION_V1 :: u32 where "ANALYTICS_VERSION_V1 = 1"

fun event_version :: "event \<Rightarrow> u32 option" where
  "event_version (PauseStateChanged _ _ _) = None"
| "event_version (CircuitEvent _ _ _) = None"
| "event_version (BountyStateTransitioned _ _ _ _ _ _) = Some ANALYTICS_VERSION_V1"
| "event_version (BountyActivityEvent _ _ _ _) = Some ANALYTICS_VERSION_V1"
| "event_version (AnalyticsSnapshot _) = Some ANALYTICS_VERSION_V1"
| "event_version _ = Some EVENT_VERSION_V2"

datatype topic = Topic_symbol symbol | Topic_id u64

fun event_topics :: "event \<Rightarrow> topic list" where
  "event_topics (BountyEscrowInitialized _ _ _) = [Topic_symbol ''init'']"
| "event_topics (FundsLocked b _ _ _) = [Topic_symbol ''f_lock'', Topic_id b]"
| "event_topics (FundsReleased b _ _ _) = [Topic_symbol ''f_rel'', Topic_id b]"
| "event_topics (FundsRefunded b _ _ _) = [Topic_symbol ''f_ref'', Topic_id b]"
| "event_topics (BountyExpired b _ _ _ _) = [Topic_symbol ''b_exp'', Topic_id b]"
| "event_topics (UpgradeExecuted _ _) = [Topic_symbol ''upgrade'']"
| "event_topics (BatchFundsLocked _ _ _) = [Topic_symbol ''b_lock'']"
| "event_topics (FeeConfigUpdated _ _ _ _ _) = [Topic_symbol ''fee_cfg'']"
| "event_topics (BatchFundsReleased _ _ _) = [Topic_symbol ''b_rel'']"
| "event_topics (ApprovalAdded b _ _ _) = [Topic_symbol ''approval'', Topic_id b]"
| "event_topics (ClaimCreated _ _ _ _) = [Topic_symbol ''claim'', Topic_symbol ''created'']"
| "event_topics (ClaimExecuted _ _ _ _) = [Topic_symbol ''claim'', Topic_symbol ''done'']"
| "event_topics (ClaimCancelled _ _ _ _ _ _) = [Topic_symbol ''claim'', Topic_symbol ''cancel'']"
| "event_topics (DisputeResolved _ _ _ _ _ _) =
     [Topic_symbol ''dispute'', Topic_symbol ''resolved'']"
| "event_topics (PauseStateChanged op _ _) = [Topic_symbol ''pause'', Topic_symbol op]"
| "event_topics (BountyStateTransitioned _ _ _ _ _ _) =
     [Topic_symbol ''analytics'', Topic_symbol ''state_tx'']"
| "event_topics (BountyActivityEvent _ _ _ _) =
     [Topic_symbol ''analytics'', Topic_symbol ''activity'']"
| "event_topics (AnalyticsSnapshot _) = [Topic_symbol ''analytics'', Topic_symbol ''snap'']"
| "event_topics (CircuitEvent kind _ _) = [Topic_symbol ''circuit'', Topic_symbol kind]"

section \<open>Constants\<close>

definition BASIS_POINTS :: i128 where "BASIS_POINTS = 10000"
definition MAX_FEE_RATE :: i128 where "MAX_FEE_RATE = 5000"
definition MAX_BATCH_SIZE :: u32 where "MAX_BATCH_SIZE = 20"
definition MAX_QUERY_LIMIT :: u32 where "MAX_QUERY_LIMIT = 100"

end
