(* ===== verification/CircuitBreaker.thy ===== *)
theory CircuitBreaker
  imports BountyTypes
begin

text \<open>
  The circuit breaker of bounty_escrow/contracts/escrow/src/error_recovery.rs: its storage
  keys as one record, the operations that record outcomes, the admin reset and the bounded
  retry helper. The events of \<open>emit_circuit_event\<close> are kept in \<open>cb_events\<close>, in order.
  The interface its clients rely on (a streak of failures trips it, and a tripped breaker
  stays tripped) is the locale \<open>failure_counter\<close>, interpreted on \<open>record_failure\<close>.
\<close>

section \<open>State\<close>

datatype circuit_state = Closed | Open | HalfOpen

record circuit_breaker_config =
  failure_threshold :: u32
  success_threshold :: u32
  max_error_log :: u32

definition default_config :: circuit_breaker_config where
  "default_config = \<lparr>failure_threshold = 3, success_threshold = 1, max_error_log = 10\<rparr>"

record error_entry =
  operation :: symbol
  ee_bounty_id :: u64
  ee_error_code :: u32
  ee_timestamp :: u64
  failure_count_at_time :: u32

record breaker =
  cb_state :: "circuit_state option"
  cb_failure_count :: "u32 option"
  cb_last_failure_timestamp :: "u64 option"
  cb_opened_at :: "u64 option"
  cb_success_count :: "u32 option"
  cb_admin :: "addr option"
  cb_config :: "circuit_breaker_config option"
  cb_error_log :: "error_entry list option"
  cb_events :: "event list"

definition empty_breaker :: breaker where
  "empty_breaker = \<lparr>cb_state = None, cb_failure_count = None, cb_last_failure_timestamp = None,
     cb_opened_at = None, cb_success_count = None, cb_admin = None, cb_config = None,
     cb_error_log = None, cb_events = []\<rparr>"

record circuit_breaker_status =
  bs_state :: circuit_state
  bs_failure_count :: u32
  bs_success_count :: u32
  bs_last_failure_timestamp :: u64
  bs_opened_at :: u64
  bs_failure_threshold :: u32
  bs_success_threshold :: u32

definition ERR_CIRCUIT_OPEN :: u32 where "ERR_CIRCUIT_OPEN = 1001"
definition ERR_TRANSFER_FAILED :: u32 where "ERR_TRANSFER_FAILED = 1002"
definition ERR_INSUFFICIENT_BALANCE :: u32 where "ERR_INSUFFICIENT_BALANCE = 1003"
definition ERR_RETRIES_EXHAUSTED :: u32 where "ERR_RETRIES_EXHAUSTED = 1004"
definition ERR_NONE :: u32 where "ERR_NONE = 0"

section \<open>Reading\<close>

definition get_config :: "breaker \<Rightarrow> circuit_breaker_config" where
  "get_config b = (case cb_config b of None \<Rightarrow> default_config | Some c \<Rightarrow> c)"

definition set_config :: "breaker \<Rightarrow> circuit_breaker_config \<Rightarrow> breaker" where
  "set_config b c = b\<lparr>cb_config := Some c\<rparr>"

definition get_state :: "breaker \<Rightarrow> circuit_state" where
  "get_state b = (case cb_state b of None \<Rightarrow> Closed | Some s \<Rightarrow> s)"

definition get_failure_count :: "breaker \<Rightarrow> u32" where
  "get_failure_count b = (case cb_failure_count b of None \<Rightarrow> 0 | Some n \<Rightarrow> n)"

definition get_success_count :: "breaker \<Rightarrow> u32" where
  "get_success_count b = (case cb_success_count b of None \<Rightarrow> 0 | Some n \<Rightarrow> n)"

definition get_status :: "breaker \<Rightarrow> circuit_breaker_status" where
  "get_status b =
     \<lparr>bs_state = get_state b,
      bs_failure_count = get_failure_count b,
      bs_success_count = get_success_count b,
      bs_last_failure_timestamp =
        (case cb_last_failure_timestamp b of None \<Rightarrow> 0 | Some t \<Rightarrow> t),
      bs_opened_at = (case cb_opened_at b of None \<Rightarrow> 0 | Some t \<Rightarrow> t),
      bs_failure_threshold = failure_threshold (get_config b),
      bs_success_threshold = success_threshold (get_config b)\<rparr>"

definition get_error_log :: "breaker \<Rightarrow> error_entry list" where
  "get_error_log b = (case cb_error_log b of None \<Rightarrow> [] | Some l \<Rightarrow> l)"

definition get_circuit_admin :: "breaker \<Rightarrow> addr option" where
  "get_circuit_admin b = cb_admin b"

section \<open>Transitions\<close>

definition emit_circuit_event :: "u64 \<Rightarrow> symbol \<Rightarrow> u32 \<Rightarrow> breaker \<Rightarrow> breaker" where
  "emit_circuit_event now kind v b = b\<lparr>cb_events := cb_events b @ [CircuitEvent kind v now]\<rparr>"

definition open_circuit :: "u64 \<Rightarrow> breaker \<Rightarrow> breaker" where
  "open_circuit now b =
     (let b1 = b\<lparr>cb_state := Some Open, cb_opened_at := Some now, cb_success_count := Some 0\<rparr>
      in emit_circuit_event now ''cb_open'' (get_failure_count b1) b1)"

definition half_open_circuit :: "u64 \<Rightarrow> breaker \<Rightarrow> breaker" where
  "half_open_circuit now b =
     (let b1 = b\<lparr>cb_state := Some HalfOpen, cb_success_count := Some 0\<rparr>
      in emit_circuit_event now ''cb_half'' (get_failure_count b1) b1)"

definition close_circuit :: "u64 \<Rightarrow> breaker \<Rightarrow> breaker" where
  "close_circuit now b =
     emit_circuit_event now ''cb_close'' 0
       (b\<lparr>cb_state := Some Closed, cb_failure_count := Some 0, cb_success_count := Some 0,
          cb_opened_at := Some 0\<rparr>)"

definition check_and_allow :: "u64 \<Rightarrow> breaker \<Rightarrow> (u32 + unit) \<times> breaker" where
  "check_and_allow now b =
     (case get_state b of
        Open \<Rightarrow> (Inl ERR_CIRCUIT_OPEN,
                 emit_circuit_event now ''cb_reject'' (get_failure_count b) b)
      | Closed \<Rightarrow> (Inr (), b)
      | HalfOpen \<Rightarrow> (Inr (), b))"

definition record_success :: "u64 \<Rightarrow> breaker \<Rightarrow> breaker bres" where
  "record_success now b =
     (case get_state b of
        Closed \<Rightarrow> Inr (b\<lparr>cb_failure_count := Some 0, cb_success_count := Some 0\<rparr>)
      | HalfOpen \<Rightarrow>
          bnd (ok_or (checked_add_u32 (get_success_count b) 1) (Panic Arithmetic_overflow))
            (\<lambda>successes.
               let b1 = b\<lparr>cb_success_count := Some successes\<rparr>
               in if success_threshold (get_config b) \<le> successes
                  then Inr (close_circuit now b1) else Inr b1)
      | Open \<Rightarrow> Inr b)"

text \<open>The loop \<open>while log.len() > max \{ log.remove(0) \}\<close>.\<close>

function trim_log :: "u32 \<Rightarrow> 'a list \<Rightarrow> 'a list" where
  "trim_log m l = (if m < length l then trim_log m (tl l) else l)"
  by pat_completeness auto
termination
  by (relation "measure (\<lambda>(m, l). length l)") auto

declare trim_log.simps [simp del]

definition record_failure ::
    "u64 \<Rightarrow> u64 \<Rightarrow> symbol \<Rightarrow> u32 \<Rightarrow> breaker \<Rightarrow> breaker bres" where
  "record_failure now bounty_id op code b =
     bnd (ok_or (checked_add_u32 (get_failure_count b) 1) (Panic Arithmetic_overflow))
       (\<lambda>failures.
          let config = get_config b;
              entry = \<lparr>operation = op, ee_bounty_id = bounty_id, ee_error_code = code,
                       ee_timestamp = now, failure_count_at_time = failures\<rparr>;
              log = trim_log (max_error_log config) (get_error_log b @ [entry]);
              b1 = b\<lparr>cb_failure_count := Some failures, cb_last_failure_timestamp := Some now,
                     cb_error_log := Some log\<rparr>;
              b2 = emit_circuit_event now ''cb_fail'' failures b1
          in if failure_threshold config \<le> failures then Inr (open_circuit now b2)
             else Inr b2)"

definition reset_circuit_breaker :: "'w env \<Rightarrow> addr \<Rightarrow> breaker \<Rightarrow> breaker bres" where
  "reset_circuit_breaker env admin b =
     (if cb_admin b = Some admin then
        bnd (require_auth env admin)
          (\<lambda>_. case get_state b of
             Open \<Rightarrow> Inr (half_open_circuit (timestamp env) b)
           | HalfOpen \<Rightarrow> Inr (close_circuit (timestamp env) b)
           | Closed \<Rightarrow> Inr (close_circuit (timestamp env) b))
      else Inl (Panic Not_circuit_admin))"

text \<open>\<open>earlier\<close> lists the addresses the caller's frame has already authorised.\<close>

definition set_circuit_admin ::
    "'w env \<Rightarrow> addr list \<Rightarrow> addr \<Rightarrow> addr option \<Rightarrow> breaker \<Rightarrow> breaker bres" where
  "set_circuit_admin env earlier new_admin caller b =
     (case cb_admin b of
        None \<Rightarrow> Inr (b\<lparr>cb_admin := Some new_admin\<rparr>)
      | Some current \<Rightarrow>
          if caller = Some current then
            bnd (require_auth_again env earlier current)
              (\<lambda>_. Inr (b\<lparr>cb_admin := Some new_admin\<rparr>))
          else Inl (Panic Not_circuit_admin))"

section \<open>Retry\<close>

definition DEFAULT_MAX_RETRY_ATTEMPTS :: u32 where "DEFAULT_MAX_RETRY_ATTEMPTS = 3"

record retry_result =
  succeeded :: bool
  attempts :: u32
  final_error :: u32

text \<open>
  The closure \<open>op\<close> is a function on a state \<open>'s\<close> of its own; \<open>left\<close> counts the
  iterations the \<open>for\<close> loop has left, \<open>n\<close> the attempts made.
\<close>

primrec retry_loop ::
    "u32 \<Rightarrow> u64 \<Rightarrow> u64 \<Rightarrow> symbol \<Rightarrow> ('s \<Rightarrow> (u32 + unit) \<times> 's) \<Rightarrow> u32 \<Rightarrow> 's \<Rightarrow> breaker
      \<Rightarrow> (retry_result \<times> 's \<times> breaker) bres" where
  "retry_loop 0 now bounty_id opn op n s b =
     Inr (\<lparr>succeeded = False, attempts = n, final_error = ERR_RETRIES_EXHAUSTED\<rparr>, s, b)"
| "retry_loop (Suc left) now bounty_id opn op n s b =
     (case check_and_allow now b of
        (Inl e, b1) \<Rightarrow>
          Inr (\<lparr>succeeded = False, attempts = n, final_error = e\<rparr>, s, b1)
      | (Inr _, b1) \<Rightarrow>
          (case op s of
             (Inr _, s1) \<Rightarrow>
               bnd (record_success now b1)
                 (\<lambda>b2. Inr (\<lparr>succeeded = True, attempts = n + 1, final_error = ERR_NONE\<rparr>, s1, b2))
           | (Inl code, s1) \<Rightarrow>
               bnd (record_failure now bounty_id opn code b1)
                 (\<lambda>b2. retry_loop left now bounty_id opn op (n + 1) s1 b2)))"

definition execute_with_retry ::
    "u64 \<Rightarrow> u32 \<Rightarrow> u64 \<Rightarrow> symbol \<Rightarrow> ('s \<Rightarrow> (u32 + unit) \<times> 's) \<Rightarrow> 's \<Rightarrow> breaker
      \<Rightarrow> (retry_result \<times> 's \<times> breaker) bres" where
  "execute_with_retry now max_attempts bounty_id opn op s b =
     retry_loop max_attempts now bounty_id opn op 0 s b"

section \<open>The interface of a failure counter\<close>

text \<open>
  What a client of the breaker relies on: every recorded failure lengthens the streak, a
  streak that reaches the limit shuts the gate, and a failure never opens the gate again.
\<close>

locale failure_counter =
  fixes fail :: "'i \<Rightarrow> 'b \<Rightarrow> ('e, 'b) res"
    and allowed :: "'b \<Rightarrow> bool"
    and streak :: "'b \<Rightarrow> nat"
    and limit :: "'b \<Rightarrow> nat"
  assumes fail_total: "streak b < u32_max \<Longrightarrow> \<exists>b'. fail i b = Inr b'"
    and fail_streak: "fail i b = Inr b' \<Longrightarrow> streak b' = streak b + 1"
    and fail_limit: "fail i b = Inr b' \<Longrightarrow> limit b' = limit b"
    and fail_trips: "fail i b = Inr b' \<Longrightarrow> allowed b' \<longleftrightarrow> allowed b \<and> streak b' < limit b"
begin

lemma fails_streak:
  "fold_res fail is b = Inr b' \<Longrightarrow> streak b' = streak b + length is \<and> limit b' = limit b"
  by (induction "is" arbitrary: b) (auto simp: res_simps dest: fail_streak fail_limit simp del: fold_res.simps(2))

lemma fails_total: "streak b + length is \<le> u32_max \<Longrightarrow> \<exists>b'. fold_res fail is b = Inr b'"
proof (induction "is" arbitrary: b)
  case (Cons i "is")
  then obtain b1 where b1: "fail i b = Inr b1" using fail_total [of b i] by auto
  moreover have "streak b1 + length is \<le> u32_max"
    using Cons.prems fail_streak [OF b1] by simp
  ultimately show ?case using Cons.IH [of b1] by auto
qed simp

lemma fails_trip:
  "fold_res fail is b = Inr b' \<Longrightarrow> is \<noteq> [] \<Longrightarrow>
   allowed b' \<longleftrightarrow> allowed b \<and> streak b + length is < limit b"
proof (induction "is" arbitrary: b)
  case (Cons i "is")
  then obtain b1 where b1: "fail i b = Inr b1" and rest: "fold_res fail is b1 = Inr b'"
    by (auto simp: bnd_Inr)
  note one = fail_streak [OF b1] fail_limit [OF b1] fail_trips [OF b1]
  show ?case
  proof (cases "is = []")
    case True
    then show ?thesis using rest one by simp
  next
    case False
    then show ?thesis using Cons.IH [OF rest] one by auto
  qed
qed simp

end

lemma get_state_upd [simp]:
  "get_state (b\<lparr>cb_state := Some st\<rparr>) = st"
  "get_state (b\<lparr>cb_failure_count := x1\<rparr>) = get_state b"
  "get_state (b\<lparr>cb_last_failure_timestamp := x2\<rparr>) = get_state b"
  "get_state (b\<lparr>cb_opened_at := x3\<rparr>) = get_state b"
  "get_state (b\<lparr>cb_success_count := x4\<rparr>) = get_state b"
  "get_state (b\<lparr>cb_error_log := x5\<rparr>) = get_state b"
  "get_state (b\<lparr>cb_config := x6\<rparr>) = get_state b"
  "get_state (b\<lparr>cb_admin := x7\<rparr>) = get_state b"
  "get_state (b\<lparr>cb_events := x8\<rparr>) = get_state b"
  by (simp_all add: get_state_def)

lemmas circuit_defs = open_circuit_def half_open_circuit_def close_circuit_def
  emit_circuit_event_def get_failure_count_def get_success_count_def get_config_def Let_def

text \<open>The arguments of one \<open>record_failure\<close>: time, bounty, operation and error code.\<close>

type_synonym failure = "u64 \<times> u64 \<times> symbol \<times> u32"

definition fail_with :: "failure \<Rightarrow> breaker \<Rightarrow> breaker bres" where
  "fail_with = (\<lambda>(now, bounty_id, opn, code). record_failure now bounty_id opn code)"

definition gate_open :: "breaker \<Rightarrow> bool" where
  "gate_open b \<longleftrightarrow> get_state b \<noteq> Open"

abbreviation threshold_of :: "breaker \<Rightarrow> nat" where
  "threshold_of b \<equiv> failure_threshold (get_config b)"

lemma gate_check: "gate_open b \<longleftrightarrow> fst (check_and_allow now b) = Inr ()"
  by (simp add: gate_open_def check_and_allow_def split: circuit_state.split)

lemma record_failure_frame:
  assumes "record_failure now bid opn code b = Inr b'"
  shows "get_failure_count b' = get_failure_count b + 1" and "cb_config b' = cb_config b"
    and "cb_admin b' = cb_admin b"
    and "get_state b' =
      (if threshold_of b \<le> get_failure_count b + 1 then Open else get_state b)"
    and "get_error_log b' = trim_log (max_error_log (get_config b)) (get_error_log b @
      [\<lparr>operation = opn, ee_bounty_id = bid, ee_error_code = code, ee_timestamp = now,
        failure_count_at_time = get_failure_count b + 1\<rparr>])"
  using assms
  by (auto simp: record_failure_def res_simps circuit_defs get_error_log_def split: if_splits)

interpretation breaker_fc: failure_counter fail_with gate_open get_failure_count threshold_of
proof unfold_locales
  fix b b' :: breaker and i :: failure
  obtain now bid opn code where i: "i = (now, bid, opn, code)" by (cases i)
  show "\<exists>b'. fail_with i b = Inr b'" if "get_failure_count b < u32_max"
    using that by (simp add: i fail_with_def record_failure_def checked_add_u32_def Let_def)
  assume "fail_with i b = Inr b'"
  then have "record_failure now bid opn code b = Inr b'" by (simp add: i fail_with_def)
  note frame = record_failure_frame [OF this]
  show "get_failure_count b' = get_failure_count b + 1" by (rule frame)
  show "threshold_of b' = threshold_of b" using frame(2) by (simp add: get_config_def)
  show "gate_open b' \<longleftrightarrow> gate_open b \<and> get_failure_count b' < threshold_of b"
    using frame(1,4) by (auto simp: gate_open_def)
qed

section \<open>Log, recovery and retries\<close>

lemma trim_log_drop: "trim_log m l = drop (length l - m) l"
proof (induction m l rule: trim_log.induct)
  case (1 m l)
  show ?case
  proof (cases "m < length l")
    case True
    then have "trim_log m l = drop (length (tl l) - m) (tl l)"
      using 1 by (simp add: trim_log.simps [of m l])
    also have "\<dots> = drop (Suc (length l - 1 - m)) l" by (simp add: drop_Suc)
    finally show ?thesis using True by (simp add: Suc_diff_Suc)
  next
    case False
    then show ?thesis by (simp add: trim_log.simps)
  qed
qed

lemma drop_trim: "drop (length (xs @ [y]) - m) (xs @ [y]) =
    drop (length (drop (length xs - m) xs @ [y]) - m) (drop (length xs - m) xs @ [y])"
  by (cases "length xs \<le> m") (simp_all add: Suc_diff_le)

lemma drop_trim_map:
  "map f (trim_log m (l @ [e])) = drop (length (map f l @ [f e]) - m) (map f l @ [f e])"
  by (simp add: trim_log_drop drop_map [symmetric] del: drop_append)

definition last_entries :: "nat \<Rightarrow> 'a list \<Rightarrow> 'a list" where
  "last_entries m l = drop (length l - m) l"

lemma last_entries_snoc: "last_entries m (last_entries m l @ [x]) = last_entries m (l @ [x])"
  using drop_trim [of l x m] by (simp add: last_entries_def)

lemma last_entries_append:
  "xs \<noteq> [] \<or> length l \<le> m \<Longrightarrow> last_entries m (last_entries m l @ xs) = last_entries m (l @ xs)"
proof (induction xs rule: rev_induct)
  case (snoc x xs)
  have "last_entries m (last_entries m l @ xs @ [x]) =
      last_entries m (last_entries m (last_entries m l @ xs) @ [x])"
    by (simp add: last_entries_snoc)
  also have "\<dots> = last_entries m (last_entries m (l @ xs) @ [x])"
  proof (cases "xs = []")
    case True
    then show ?thesis by (simp add: last_entries_snoc)
  next
    case False
    then show ?thesis using snoc.IH by simp
  qed
  finally show ?case by (simp add: last_entries_snoc)
qed (simp add: last_entries_def)

lemma fails_log:
  "fold_res fail_with is b = Inr b' \<Longrightarrow> is \<noteq> [] \<Longrightarrow>
   map ee_error_code (get_error_log b') =
     last_entries (max_error_log (get_config b))
       (map ee_error_code (get_error_log b) @ map (\<lambda>(now, bid, opn, code). code) is)"
proof (induction "is" arbitrary: b)
  case (Cons i "is")
  obtain now bid opn code where i: "i = (now, bid, opn, code)" by (cases i)
  obtain b1 where b1: "record_failure now bid opn code b = Inr b1"
    and rest: "fold_res fail_with is b1 = Inr b'"
    using Cons.prems(1) by (auto simp: bnd_Inr i fail_with_def)
  note frame = record_failure_frame [OF b1]
  have log: "map ee_error_code (get_error_log b1) =
      last_entries (max_error_log (get_config b)) (map ee_error_code (get_error_log b) @ [code])"
    by (simp only: frame(5) drop_trim_map last_entries_def) simp
  have conf: "get_config b1 = get_config b" using frame(2) by (simp add: get_config_def)
  show ?case
  proof (cases "is = []")
    case True
    then show ?thesis using rest log by (simp add: i)
  next
    case False
    then show ?thesis
      using Cons.IH [OF rest False] log conf by (simp add: i last_entries_append)
  qed
qed simp

lemma retry_loop_result:
  "retry_loop left now bid opn op n s b = Inr (r, s', b') \<Longrightarrow>
   \<exists>k. attempts r = n + k \<and> k \<le> left \<and> s' = ((\<lambda>s. snd (op s)) ^^ k) s \<and>
     (if succeeded r then final_error r = ERR_NONE \<and> 0 < k
      else final_error r = ERR_CIRCUIT_OPEN \<and> k < left \<and> \<not> gate_open b' \<or>
           final_error r = ERR_RETRIES_EXHAUSTED \<and> k = left)"
proof (induction left arbitrary: n s b)
  case 0
  then show ?case by auto
next
  case (Suc left)
  show ?case
  proof (cases "gate_open b")
    case False
    then show ?thesis
      using Suc.prems
      by (intro exI [of _ 0]) (auto simp: gate_open_def check_and_allow_def emit_circuit_event_def)
  next
    case True
    then have allow: "check_and_allow now b = (Inr (), b)"
      by (auto simp: gate_open_def check_and_allow_def split: circuit_state.split)
    show ?thesis
    proof (cases "op s")
      case (Pair res s1)
      show ?thesis
      proof (cases res)
        case (Inr u)
        then show ?thesis
          using Suc.prems allow Pair by (intro exI [of _ 1]) (auto simp: res_simps)
      next
        case (Inl code)
        then obtain b2 where "retry_loop left now bid opn op (n + 1) s1 b2 = Inr (r, s', b')"
          using Suc.prems allow Pair by (auto simp: res_simps)
        from Suc.IH [OF this] obtain k where k: "attempts r = n + 1 + k" "k \<le> left"
            "s' = ((\<lambda>s. snd (op s)) ^^ k) s1"
            "if succeeded r then final_error r = ERR_NONE \<and> 0 < k
             else final_error r = ERR_CIRCUIT_OPEN \<and> k < left \<and> \<not> gate_open b' \<or>
               final_error r = ERR_RETRIES_EXHAUSTED \<and> k = left"
          by blast
        have "s' = ((\<lambda>s. snd (op s)) ^^ Suc k) s"
          using k(3) Pair by (simp add: funpow_Suc_right del: funpow.simps)
        then show ?thesis
          using k(1,2,4) by (intro exI [of _ "Suc k"]) (auto split: if_splits)
      qed
    qed
  qed
qed

text \<open>
  An operation that always fails runs until the breaker shuts or the attempts end. An open
  breaker allows no attempt. Any other allows one at least, even when its failures, which
  a reset keeps, have reached the threshold before: the check comes after the failure.
\<close>

definition tries :: "breaker \<Rightarrow> nat" where
  "tries b = (if gate_open b then max 1 (threshold_of b - get_failure_count b) else 0)"

lemma retry_loop_failing:
  assumes "\<And>s. \<exists>code. fst (op s) = Inl code"
  shows "get_failure_count b + left \<le> u32_max \<Longrightarrow>
    \<exists>r s' b'. retry_loop left now bid opn op n s b = Inr (r, s', b') \<and>
      \<not> succeeded r \<and> attempts r = n + min left (tries b) \<and>
      final_error r = (if tries b < left then ERR_CIRCUIT_OPEN else ERR_RETRIES_EXHAUSTED)"
proof (induction left arbitrary: n s b)
  case 0
  then show ?case by simp
next
  case (Suc left)
  show ?case
  proof (cases "gate_open b")
    case False
    then show ?thesis
      by (auto simp: tries_def gate_open_def check_and_allow_def split: circuit_state.split)
  next
    case True
    then have allow: "check_and_allow now b = (Inr (), b)"
      by (auto simp: gate_open_def check_and_allow_def split: circuit_state.split)
    obtain code s1 where op: "op s = (Inl code, s1)"
      using assms [of s] by (cases "op s") auto
    obtain b2 where b2: "record_failure now bid opn code b = Inr b2"
      using breaker_fc.fail_total [of b "(now, bid, opn, code)"] Suc.prems
      by (auto simp: fail_with_def)
    note frame = record_failure_frame [OF b2]
    have "get_config b2 = get_config b" using frame(2) by (simp add: get_config_def)
    then have "tries b = Suc (tries b2)"
      using frame(1,4) True by (auto simp: tries_def gate_open_def)
    moreover have "retry_loop (Suc left) now bid opn op n s b =
        retry_loop left now bid opn op (n + 1) s1 b2"
      by (simp add: allow op b2)
    ultimately show ?thesis
      using Suc.IH [of b2 "n + 1" s1] Suc.prems frame(1)
      by (auto simp del: retry_loop.simps)
  qed
qed

lemma successes_run:
  "fold_res record_success ts b = Inr b2 \<Longrightarrow>
   (get_state b = Closed \<longrightarrow> get_state b2 = Closed) \<and>
   (get_state b = HalfOpen \<and> ts \<noteq> [] \<longrightarrow> get_state b2 =
      (if success_threshold (get_config b) \<le> get_success_count b + length ts
       then Closed else HalfOpen))"
proof (induction ts arbitrary: b)
  case (Cons t ts)
  obtain b1 where b1: "record_success t b = Inr b1" and rest: "fold_res record_success ts b1 = Inr b2"
    using Cons.prems by (auto simp: bnd_Inr)
  show ?case
  proof (cases "get_state b")
    case Closed
    then have "get_state b1 = Closed" using b1 by (auto simp: record_success_def)
    then show ?thesis using Cons.IH [OF rest] Closed by simp
  next
    case HalfOpen
    let ?n = "get_success_count b + 1"
    have state: "get_state b1 = (if success_threshold (get_config b) \<le> ?n then Closed else HalfOpen)"
      and conf: "get_config b1 = get_config b"
      and count: "\<not> success_threshold (get_config b) \<le> ?n \<Longrightarrow> get_success_count b1 = ?n"
      using b1 HalfOpen by (auto simp: record_success_def res_simps circuit_defs split: if_splits)
    show ?thesis
    proof (cases "ts = []")
      case True
      then show ?thesis using rest state HalfOpen by simp
    next
      case False
      then show ?thesis
        using Cons.IH [OF rest] state conf count HalfOpen by (auto split: if_splits)
    qed
  qed simp
qed simp

lemma open_check: "\<not> gate_open b \<longleftrightarrow> fst (check_and_allow now b) = Inl ERR_CIRCUIT_OPEN"
  by (simp add: gate_open_def check_and_allow_def split: circuit_state.split)

section \<open>Properties\<close>

text \<open>
  A run of consecutive failures shuts an open gate exactly when the streak reaches the
  configured threshold, and from then on every check is refused with \<open>ERR_CIRCUIT_OPEN\<close>.
\<close>

theorem consecutive_failures_trip:
  assumes "fold_res fail_with failures b = Inr b'" and "failures \<noteq> []"
    and "fst (check_and_allow now b) = Inr ()"
  shows "fst (check_and_allow now' b') = Inl ERR_CIRCUIT_OPEN \<longleftrightarrow>
    failure_threshold (get_config b) \<le> get_failure_count b + length failures"
proof -
  have "gate_open b" using assms(3) gate_check by blast
  then show ?thesis
    using breaker_fc.fails_trip [OF assms(1,2)] open_check [of b' now'] by auto
qed

lemma consecutive_failures_trip_witness:
  "\<exists>b'. fold_res fail_with [(1, 7, ''xfer'', 1002), (2, 7, ''xfer'', 1002), (3, 7, ''xfer'', 1002)]
       empty_breaker = Inr b' \<and> fst (check_and_allow 4 b') = Inl ERR_CIRCUIT_OPEN"
proof -
  let ?l = "[(1, 7, ''xfer'', 1002), (2, 7, ''xfer'', 1002), (3, 7, ''xfer'', 1002)] :: failure list"
  have zero: "get_failure_count empty_breaker = 0" "threshold_of empty_breaker = 3"
      "fst (check_and_allow 0 empty_breaker) = Inr ()"
    by (simp_all add: empty_breaker_def get_failure_count_def get_config_def default_config_def
        check_and_allow_def get_state_def)
  obtain b' where b': "fold_res fail_with ?l empty_breaker = Inr b'"
    using breaker_fc.fails_total [of empty_breaker ?l] zero by auto
  then have "fst (check_and_allow 4 b') = Inl ERR_CIRCUIT_OPEN"
    using consecutive_failures_trip [OF b' _ zero(3), of 4] zero by simp
  with b' show ?thesis by blast
qed

text \<open>
  Only the circuit admin's reset leaves the open state, and it leads to the half-open
  one; checks are refused, successes change nothing and failures keep it open.
\<close>

theorem open_until_admin_reset:
  assumes "get_state b = Open"
  shows "fst (check_and_allow now b) = Inl ERR_CIRCUIT_OPEN \<and>
    get_state (snd (check_and_allow now b)) = Open \<and>
    record_success now b = Inr b \<and>
    (record_failure now bid opn code b = Inr b' \<longrightarrow> get_state b' = Open) \<and>
    (reset_circuit_breaker env a b = Inr b'' \<longrightarrow>
      cb_admin b = Some a \<and> authorized env a \<and> get_state b'' = HalfOpen)"
  using assms record_failure_frame(4) [of now bid opn code b b']
  by (auto simp: check_and_allow_def record_success_def reset_circuit_breaker_def res_simps
      circuit_defs)

lemma open_until_admin_reset_witness:
  "fst (check_and_allow 5 (empty_breaker\<lparr>cb_state := Some Open\<rparr>)) = Inl ERR_CIRCUIT_OPEN \<and>
   record_success 5 (empty_breaker\<lparr>cb_state := Some Open\<rparr>) =
     Inr (empty_breaker\<lparr>cb_state := Some Open\<rparr>)"
  using open_until_admin_reset [of "empty_breaker\<lparr>cb_state := Some Open\<rparr>" 5 0 "''x''" 0
      empty_breaker "sample_env 0 []" 0 empty_breaker] by simp

text \<open>
  Recovery. After the reset of an open breaker, a run of successes closes it exactly
  when it is at least as long as the success threshold; until then it stays half-open.
\<close>

theorem reset_then_successes:
  assumes "get_state b = Open" and "reset_circuit_breaker env a b = Inr b1"
    and "fold_res record_success ts b1 = Inr b2" and "ts \<noteq> []"
  shows "get_state b2 =
    (if success_threshold (get_config b) \<le> length ts then Closed else HalfOpen)"
proof -
  have "get_state b1 = HalfOpen" "get_config b1 = get_config b" "get_success_count b1 = 0"
    using assms(1,2) by (auto simp: reset_circuit_breaker_def res_simps circuit_defs)
  then show ?thesis using successes_run [OF assms(3)] assms(4) by simp
qed

lemma reset_then_successes_witness:
  "\<exists>b1 b2. reset_circuit_breaker (sample_env 9 [4])  4
       (empty_breaker\<lparr>cb_state := Some Open, cb_admin := Some 4\<rparr>) = Inr b1 \<and>
     fold_res record_success [10] b1 = Inr b2 \<and> get_state b2 = Closed"
proof -
  let ?b = "empty_breaker\<lparr>cb_state := Some Open, cb_admin := Some 4\<rparr>"
  obtain b1 where b1: "reset_circuit_breaker (sample_env 9 [4]) 4 ?b = Inr b1"
      "get_state b1 = HalfOpen" "get_success_count b1 = 0"
    by (simp add: reset_circuit_breaker_def require_auth_def circuit_defs)
  moreover have "\<exists>b2. fold_res record_success [10] b1 = Inr b2"
    using b1 by (simp add: record_success_def checked_add_u32_def Let_def)
  then obtain b2 where b2: "fold_res record_success [10] b1 = Inr b2" ..
  moreover have "get_state b2 = Closed"
    using reset_then_successes [OF _ b1(1) b2]
    by (simp del: fold_res.simps) (simp add: get_config_def empty_breaker_def default_config_def)
  ultimately show ?thesis by blast
qed

text \<open>
  The error log keeps the most recent failures only, in order, and never more than the
  configured number of them.
\<close>

theorem error_log_keeps_latest:
  assumes "fold_res fail_with failures b = Inr b'" and "failures \<noteq> []"
  shows "map ee_error_code (get_error_log b') =
      last_entries (max_error_log (get_config b))
        (map ee_error_code (get_error_log b) @ map (\<lambda>(now, bid, opn, code). code) failures) \<and>
    length (get_error_log b') \<le> max_error_log (get_config b)"
proof -
  have log: "map ee_error_code (get_error_log b') =
      last_entries (max_error_log (get_config b))
        (map ee_error_code (get_error_log b) @ map (\<lambda>(now, bid, opn, code). code) failures)"
    by (rule fails_log [OF assms])
  have "length (map ee_error_code (get_error_log b')) \<le> max_error_log (get_config b)"
    unfolding log by (simp add: last_entries_def)
  then have "length (get_error_log b') \<le> max_error_log (get_config b)"
    by (simp only: length_map)
  with log show ?thesis by blast
qed

lemma error_log_keeps_latest_witness:
  "\<exists>b'. fold_res fail_with [(1, 7, ''x'', 11), (2, 7, ''x'', 12), (3, 7, ''x'', 13)]
      (set_config empty_breaker \<lparr>failure_threshold = 9, success_threshold = 1, max_error_log = 2\<rparr>)
        = Inr b' \<and> map ee_error_code (get_error_log b') = [12, 13]"
proof -
  let ?l = "[(1, 7, ''x'', 11), (2, 7, ''x'', 12), (3, 7, ''x'', 13)] :: failure list"
  let ?b = "set_config empty_breaker
    \<lparr>failure_threshold = 9, success_threshold = 1, max_error_log = 2\<rparr>"
  have "get_failure_count ?b = 0"
    by (simp add: set_config_def empty_breaker_def get_failure_count_def)
  then obtain b' where b': "fold_res fail_with ?l ?b = Inr b'"
    using breaker_fc.fails_total [of ?b ?l] by auto
  with error_log_keeps_latest [OF b'] show ?thesis
    by (simp add: set_config_def empty_breaker_def get_config_def get_error_log_def
        last_entries_def)
qed

text \<open>
  The retry helper runs the operation at most \<open>max_attempts\<close> times, exactly as often as
  it reports, and says why it stopped: success, a breaker that shut, or no attempts left.
\<close>

theorem retry_outcome:
  assumes "execute_with_retry now max_attempts bid opn op s b = Inr (r, s', b')"
  shows "attempts r \<le> max_attempts \<and> s' = ((\<lambda>s. snd (op s)) ^^ attempts r) s \<and>
     (if succeeded r then final_error r = ERR_NONE \<and> 0 < attempts r
      else final_error r = ERR_CIRCUIT_OPEN \<and> fst (check_and_allow now b') = Inl ERR_CIRCUIT_OPEN \<or>
           final_error r = ERR_RETRIES_EXHAUSTED \<and> attempts r = max_attempts)"
  using retry_loop_result [OF assms [unfolded execute_with_retry_def]] open_check
  by (auto split: if_splits)

lemma retry_outcome_witness:
  "\<exists>r s' b'. execute_with_retry 5 2 7 ''x'' (\<lambda>n::nat. (Inl 1002, n + 1)) 0 empty_breaker
      = Inr (r, s', b') \<and> \<not> succeeded r \<and> attempts r \<le> 2"
proof -
  obtain r s' b' where
      run: "execute_with_retry 5 2 7 ''x'' (\<lambda>n::nat. (Inl 1002, n + 1)) 0 empty_breaker
        = Inr (r, s', b')" and "\<not> succeeded r"
    using retry_loop_failing [of "\<lambda>n::nat. (Inl 1002, n + 1)" empty_breaker 2 5 7 "''x''" 0 0]
    by (auto simp: execute_with_retry_def gate_open_def get_state_def get_failure_count_def
        get_config_def default_config_def empty_breaker_def)
  then show ?thesis using retry_outcome [OF run] by blast
qed

text \<open>
  C40: retrying an operation that always fails ends, whatever the state of the breaker, and
  after exactly so many attempts: none with an open breaker, otherwise those left until the
  failure threshold, but one at least (a half-open breaker keeps the failures that opened
  it), and never more than \<open>max_attempts\<close>. The error tells which of the two bounds it was.
\<close>

theorem retry_always_failing:
  assumes "\<And>s. \<exists>code. fst (op s) = Inl code"
    and "get_failure_count b + max_attempts \<le> u32_max"
  shows "\<exists>r s' b'. execute_with_retry now max_attempts bid opn op s b = Inr (r, s', b') \<and>
      \<not> succeeded r \<and>
      attempts r = min max_attempts (if get_state b = Open then 0
        else max 1 (failure_threshold (get_config b) - get_failure_count b)) \<and>
      final_error r = (if attempts r < max_attempts
        then ERR_CIRCUIT_OPEN else ERR_RETRIES_EXHAUSTED)"
proof -
  obtain r s' b' where "retry_loop max_attempts now bid opn op 0 s b = Inr (r, s', b')"
      "\<not> succeeded r" "attempts r = min max_attempts (tries b)"
      "final_error r = (if tries b < max_attempts then ERR_CIRCUIT_OPEN else ERR_RETRIES_EXHAUSTED)"
    using retry_loop_failing [of op b max_attempts now bid opn 0 s, OF assms] by auto
  moreover have "tries b = (if get_state b = Open then 0
      else max 1 (failure_threshold (get_config b) - get_failure_count b))"
    by (simp add: tries_def gate_open_def)
  ultimately show ?thesis
    by (intro exI [of _ r] exI [of _ s'] exI [of _ b']) (simp add: execute_with_retry_def)
qed

text \<open>
  A breaker that three failures opened and the admin has reset: one attempt, then it is open.
\<close>

lemma retry_always_failing_witness:
  "\<exists>r s' b'. execute_with_retry 5 8 7 ''x'' (\<lambda>u::unit. (Inl 1002, u)) ()
      (half_open_circuit 4 (empty_breaker\<lparr>cb_state := Some Open, cb_failure_count := Some 3\<rparr>))
      = Inr (r, s', b') \<and> attempts r = 1 \<and> final_error r = ERR_CIRCUIT_OPEN"
proof -
  let ?b = "half_open_circuit 4
    (empty_breaker\<lparr>cb_state := Some Open, cb_failure_count := Some 3\<rparr>)"
  have b: "get_state ?b = HalfOpen" "get_failure_count ?b = 3"
      "failure_threshold (get_config ?b) = 3"
    by (simp_all add: half_open_circuit_def emit_circuit_event_def empty_breaker_def
        get_state_def get_failure_count_def get_config_def default_config_def)
  show ?thesis
    using retry_always_failing [of "\<lambda>u::unit. (Inl 1002, u)" ?b 8 5 7 "''x''" "()"]
    by (auto simp: b)
qed

end
