(* ===== verification/AntiAbuse.thy ===== *)
theory AntiAbuse
  imports BountyTypes
begin

text \<open>
  The rate limiter of the bounty escrow contract (module \<open>anti_abuse\<close> of lib.rs): per
  address a cooldown since the last operation and a window with a maximum number of
  operations. Its rejections are panics, so they leave no trace in the storage.
\<close>

record anti_abuse_config =
  window_size :: u64
  max_operations :: u32
  cooldown_period :: u64

record address_state =
  last_operation_timestamp :: u64
  window_start_timestamp :: u64
  operation_count :: u32

record anti_abuse =
  aa_config :: "anti_abuse_config option"
  aa_states :: "addr \<rightharpoonup> address_state"
  aa_whitelist :: "addr \<rightharpoonup> bool"

definition empty_anti_abuse :: anti_abuse where
  "empty_anti_abuse = \<lparr>aa_config = None, aa_states = Map.empty, aa_whitelist = Map.empty\<rparr>"

definition aa_get_config :: "anti_abuse \<Rightarrow> anti_abuse_config" where
  "aa_get_config s = (case aa_config s of
       None \<Rightarrow> \<lparr>window_size = 3600, max_operations = 100, cooldown_period = 60\<rparr>
     | Some c \<Rightarrow> c)"

definition aa_set_config :: "anti_abuse \<Rightarrow> anti_abuse_config \<Rightarrow> anti_abuse" where
  "aa_set_config s c = s\<lparr>aa_config := Some c\<rparr>"

definition is_whitelisted :: "anti_abuse \<Rightarrow> addr \<Rightarrow> bool" where
  "is_whitelisted s a \<longleftrightarrow> aa_whitelist s a \<noteq> None"

definition aa_set_whitelist :: "anti_abuse \<Rightarrow> addr \<Rightarrow> bool \<Rightarrow> anti_abuse" where
  "aa_set_whitelist s a whitelisted =
     (if whitelisted then s\<lparr>aa_whitelist := (aa_whitelist s)(a \<mapsto> True)\<rparr>
      else s\<lparr>aa_whitelist := (aa_whitelist s)(a := None)\<rparr>)"

text \<open>
  The module's own admin is not in the record. A unit variant of a \<open>contracttype\<close> enum is
  stored under the vector of its name alone (the test snapshots of the repository show the
  encoding), so the instance key \<open>AntiAbuseKey::Admin\<close> is the instance key
  \<open>DataKey::Admin\<close> of lib.rs: both functions work on the cell of the contract's admin.
\<close>

definition aa_get_admin :: "addr option \<Rightarrow> addr option" where
  "aa_get_admin admin_cell = admin_cell"

definition aa_set_admin :: "addr option \<Rightarrow> addr \<Rightarrow> addr option" where
  "aa_set_admin admin_cell a = Some a"

definition initial_address_state :: "u64 \<Rightarrow> address_state" where
  "initial_address_state now =
     \<lparr>last_operation_timestamp = 0, window_start_timestamp = now, operation_count = 0\<rparr>"

definition check_rate_limit :: "u64 \<Rightarrow> addr \<Rightarrow> anti_abuse \<Rightarrow> anti_abuse bres" where
  "check_rate_limit now a s =
     (if is_whitelisted s a then Inr s
      else
        let config = aa_get_config s;
            st = (case aa_states s a of None \<Rightarrow> initial_address_state now | Some x \<Rightarrow> x)
        in
          if 0 < last_operation_timestamp st \<and>
             now < sat_add_u64 (last_operation_timestamp st) (cooldown_period config)
          then Inl (Panic In_cooldown)
          else
            bnd (if sat_add_u64 (window_start_timestamp st) (window_size config) \<le> now
                 then Inr (st\<lparr>window_start_timestamp := now, operation_count := 1\<rparr>)
                 else if max_operations config \<le> operation_count st
                 then Inl (Panic Rate_limit_exceeded)
                 else bnd (ok_or (checked_add_u32 (operation_count st) 1)
                             (Panic Arithmetic_overflow))
                        (\<lambda>n. Inr (st\<lparr>operation_count := n\<rparr>)))
              (\<lambda>st'. Inr (s\<lparr>aa_states := (aa_states s)
                               (a \<mapsto> st'\<lparr>last_operation_timestamp := now\<rparr>)\<rparr>)))"

section \<open>The limiter as a system\<close>

text \<open>
  What happens to the limiter while the contract runs: operations that pass the check, and
  the admin's changes of the whitelist. No entrypoint calls
  \<open>set_config\<close>, so the configuration stays the default one.
\<close>

inductive limiter_step :: "anti_abuse \<Rightarrow> u64 \<times> addr \<Rightarrow> anti_abuse \<Rightarrow> bool" where
  operation: "0 < now \<Longrightarrow> now \<le> u64_max \<Longrightarrow> check_rate_limit now a s = Inr s' \<Longrightarrow>
    limiter_step s (now, a) s'"
| listing: "limiter_step s (now, a) (aa_set_whitelist s a w)"

abbreviation limiter_reach :: "anti_abuse \<Rightarrow> bool" where
  "limiter_reach \<equiv> reach (\<lambda>s. s = empty_anti_abuse) limiter_step"

text \<open>
  One period of 60 seconds lies between two operations that count in the same window, so
  the window of 3600 seconds never counts more than 60 of them.
\<close>

definition spaced :: "address_state \<Rightarrow> bool" where
  "spaced st \<longleftrightarrow> 0 < operation_count st \<and> 0 < last_operation_timestamp st \<and>
     window_start_timestamp st + 60 * (operation_count st - 1) \<le> last_operation_timestamp st"

definition limiter_ok :: "anti_abuse \<Rightarrow> bool" where
  "limiter_ok s \<longleftrightarrow> aa_config s = None \<and> (\<forall>a st. aa_states s a = Some st \<longrightarrow> spaced st)"

lemma default_limits: "aa_config s = None \<Longrightarrow>
    aa_get_config s = \<lparr>window_size = 3600, max_operations = 100, cooldown_period = 60\<rparr>"
  by (simp add: aa_get_config_def)

lemma check_rate_limit_cases:
  assumes "check_rate_limit now a s = Inr s'" and "aa_config s = None" and "now \<le> u64_max"
  obtains "s' = s"
  | st where "s' = s\<lparr>aa_states := (aa_states s)(a \<mapsto> st)\<rparr>"
      "window_start_timestamp st = now" "operation_count st = 1"
      "last_operation_timestamp st = now"
  | st0 st where "aa_states s a = Some st0" "s' = s\<lparr>aa_states := (aa_states s)(a \<mapsto> st)\<rparr>"
      "window_start_timestamp st = window_start_timestamp st0"
      "operation_count st = operation_count st0 + 1" "last_operation_timestamp st = now"
      "now < window_start_timestamp st0 + 3600"
      "0 < last_operation_timestamp st0 \<longrightarrow> last_operation_timestamp st0 + 60 \<le> now"
proof (cases "is_whitelisted s a")
  case True
  then show ?thesis using assms(1) that(1) by (simp add: check_rate_limit_def)
next
  case False
  show ?thesis
  proof (cases "aa_states s a")
    case None
    show ?thesis
      using assms False None
      by (intro that(2) [of "\<lparr>last_operation_timestamp = now, window_start_timestamp = now,
          operation_count = 1\<rparr>"])
        (auto simp: check_rate_limit_def default_limits initial_address_state_def res_simps
          Let_def split: if_splits)
  next
    case (Some st0)
    show ?thesis
    proof (cases "sat_add_u64 (window_start_timestamp st0) 3600 \<le> now")
      case True
      show ?thesis
        using assms(1,2) False Some True
        by (intro that(2) [of "st0\<lparr>last_operation_timestamp := now,
            window_start_timestamp := now, operation_count := 1\<rparr>"])
          (auto simp: check_rate_limit_def default_limits Let_def split: if_splits
            intro!: arg_cong [where f = "\<lambda>x. s\<lparr>aa_states := x\<rparr>"])
    next
      case stay: False
      show ?thesis
        using assms False Some stay
        by (intro that(3) [of st0 "st0\<lparr>operation_count := operation_count st0 + 1,
            last_operation_timestamp := now\<rparr>"])
          (auto simp: check_rate_limit_def default_limits res_simps sat_add_u64_def Let_def
            split: if_splits intro!: arg_cong [where f = "\<lambda>x. s\<lparr>aa_states := x\<rparr>"])
    qed
  qed
qed

lemma check_rate_limit_local:
  assumes "aa_states s' b = aa_states s b" and "aa_config s' = aa_config s"
    and "aa_whitelist s' = aa_whitelist s"
  shows "check_rate_limit now b s' = Inl f \<longleftrightarrow> check_rate_limit now b s = Inl f"
  using assms
  by (simp add: check_rate_limit_def is_whitelisted_def aa_get_config_def Let_def bnd_Inl)

lemma limiter_ok_operation:
  assumes "check_rate_limit now a s = Inr s'" and "0 < now" and "now \<le> u64_max"
    and "limiter_ok s"
  shows "limiter_ok s'"
proof -
  have "aa_config s = None" using assms(4) by (simp add: limiter_ok_def)
  with assms(1) show ?thesis using assms(3)
  proof (cases rule: check_rate_limit_cases)
    case 3
    then show ?thesis
      using assms(4) by (fastforce simp: limiter_ok_def spaced_def)
  qed (use assms in \<open>auto simp: limiter_ok_def spaced_def\<close>)
qed

interpretation limiter: invariant_system "\<lambda>s. s = empty_anti_abuse" limiter_step limiter_ok
proof unfold_locales
  show "limiter_ok s" if "s = empty_anti_abuse" for s
    using that by (simp add: limiter_ok_def empty_anti_abuse_def)
  show "limiter_ok t" if "limiter_ok s" "limiter_step s l t" for s t l
    using that(2,1)
  proof (induction rule: limiter_step.induct)
    case (operation now a s s')
    then show ?case using limiter_ok_operation by blast
  qed (auto simp: limiter_ok_def aa_set_whitelist_def)
qed

section \<open>Properties\<close>

text \<open>
  After an operation that passed the check, every further operation of the same
  address before the end of the cooldown is rejected, and no other address is affected.
\<close>

theorem cooldown_enforced:
  assumes "check_rate_limit now a s = Inr s'" and "\<not> is_whitelisted s a" and "0 < now"
    and "now' < sat_add_u64 now (cooldown_period (aa_get_config s))"
  shows "check_rate_limit now' a s' = Inl (Panic In_cooldown) \<and>
    (\<forall>b. b \<noteq> a \<longrightarrow>
       (check_rate_limit now'' b s' = Inl f \<longleftrightarrow> check_rate_limit now'' b s = Inl f))"
proof -
  obtain st where s': "s' = s\<lparr>aa_states := (aa_states s)(a \<mapsto> st)\<rparr>"
    and last: "last_operation_timestamp st = now"
    using assms(1,2) by (auto simp: check_rate_limit_def res_simps Let_def split: if_splits)
  have same: "aa_get_config s' = aa_get_config s" "is_whitelisted s' a = is_whitelisted s a"
    by (simp_all add: s' aa_get_config_def is_whitelisted_def)
  have "check_rate_limit now' a s' = Inl (Panic In_cooldown)"
    unfolding check_rate_limit_def same using assms(2-4) last by (simp add: s' Let_def)
  moreover have "check_rate_limit now'' b s' = Inl f \<longleftrightarrow> check_rate_limit now'' b s = Inl f"
    if "b \<noteq> a" for b
    using that by (intro check_rate_limit_local) (simp_all add: s')
  ultimately show ?thesis by blast
qed

lemma cooldown_enforced_witness:
  "\<exists>s'. check_rate_limit 1000 7 empty_anti_abuse = Inr s' \<and>
     check_rate_limit 1059 7 s' = Inl (Panic In_cooldown)"
proof -
  obtain s' where s': "check_rate_limit 1000 7 empty_anti_abuse = Inr s'"
    by (simp add: check_rate_limit_def empty_anti_abuse_def is_whitelisted_def aa_get_config_def
        initial_address_state_def arith_defs Let_def)
  then show ?thesis
    using cooldown_enforced [OF s', of 1059]
    by (auto simp: empty_anti_abuse_def is_whitelisted_def aa_get_config_def arith_defs)
qed

text \<open>
  With the configuration the contract runs on, the limit of 100 operations per window is
  never what rejects a call: the cooldown alone does (ledger times are positive).
\<close>

theorem rate_limit_never_exceeded:
  assumes "limiter_reach s" and "0 < now" and "now \<le> u64_max"
  shows "(\<exists>s'. check_rate_limit now a s = Inr s') \<or>
    check_rate_limit now a s = Inl (Panic In_cooldown)"
proof -
  have ok: "limiter_ok s" using assms(1) by (rule limiter.reach_inv)
  then have conf: "aa_config s = None" by (simp add: limiter_ok_def)
  show ?thesis
  proof (cases "aa_states s a")
    case None
    then show ?thesis
      by (auto simp: check_rate_limit_def default_limits [OF conf] initial_address_state_def
          checked_add_u32_def Let_def)
  next
    case (Some st)
    then have "spaced st" using ok by (simp add: limiter_ok_def)
    then show ?thesis
      using assms(3)
      by (auto simp: check_rate_limit_def default_limits [OF conf] spaced_def Some
          checked_add_u32_def sat_add_u64_def Let_def)
  qed
qed

lemma rate_limit_never_exceeded_witness:
  "(\<exists>s'. check_rate_limit 1000 7 empty_anti_abuse = Inr s') \<or>
   check_rate_limit 1000 7 empty_anti_abuse = Inl (Panic In_cooldown)"
  using rate_limit_never_exceeded [OF reach_init, of empty_anti_abuse 1000 7] by simp

end
