(* ===== verification/BountyAnalytics.thy ===== *)
theory BountyAnalytics
  imports BountyTypes
begin

text \<open>
  Per-bounty metrics of analytics.rs: the map \<open>AnalyticsKey::BountyMetrics\<close> and its three
  updates. An accumulator that would overflow is an error value of its own, which the
  entrypoints turn into \<open>AnalyticsOverflow\<close>.
\<close>

datatype analytics_error = Overflow

type_synonym metrics = "u64 \<rightharpoonup> bounty_analytics"

definition init_bounty_analytics :: "metrics \<Rightarrow> u64 \<Rightarrow> i128 \<Rightarrow> u64 \<Rightarrow> metrics" where
  "init_bounty_analytics m bounty_id amt ts =
     m(bounty_id \<mapsto>
       \<lparr>total_amount_locked = amt, total_amount_released = 0, total_amount_refunded = 0,
        an_remaining_amount = amt, created_at = ts, last_updated = ts,
        partial_releases_count = 0, partial_refunds_count = 0\<rparr>)"

definition update_analytics_on_release ::
    "metrics \<Rightarrow> u64 \<Rightarrow> i128 \<Rightarrow> u64 \<Rightarrow> analytics_error + metrics" where
  "update_analytics_on_release m bounty_id release_amount ts =
     (case m bounty_id of
        None \<Rightarrow> Inr m
      | Some a \<Rightarrow>
          (case checked_add_i128 (total_amount_released a) release_amount of
             None \<Rightarrow> Inl Overflow
           | Some released \<Rightarrow>
               (case checked_add_u32 (partial_releases_count a) 1 of
                  None \<Rightarrow> Inl Overflow
                | Some n \<Rightarrow>
                    Inr (m(bounty_id \<mapsto>
                      a\<lparr>total_amount_released := released,
                        an_remaining_amount :=
                          sat_sub_i128 (an_remaining_amount a) release_amount,
                        last_updated := ts,
                        partial_releases_count := n\<rparr>)))))"

definition update_analytics_on_refund ::
    "metrics \<Rightarrow> u64 \<Rightarrow> i128 \<Rightarrow> u64 \<Rightarrow> analytics_error + metrics" where
  "update_analytics_on_refund m bounty_id refund_amount ts =
     (case m bounty_id of
        None \<Rightarrow> Inr m
      | Some a \<Rightarrow>
          (case checked_add_i128 (total_amount_refunded a) refund_amount of
             None \<Rightarrow> Inl Overflow
           | Some refunded \<Rightarrow>
               (case checked_add_u32 (partial_refunds_count a) 1 of
                  None \<Rightarrow> Inl Overflow
                | Some n \<Rightarrow>
                    Inr (m(bounty_id \<mapsto>
                      a\<lparr>total_amount_refunded := refunded,
                        an_remaining_amount :=
                          sat_sub_i128 (an_remaining_amount a) refund_amount,
                        last_updated := ts,
                        partial_refunds_count := n\<rparr>)))))"

definition lookup_bounty_analytics :: "metrics \<Rightarrow> u64 \<Rightarrow> bounty_analytics option" where
  "lookup_bounty_analytics m bounty_id = m bounty_id"

text \<open>The entrypoints' \<open>.map_err(|_| Error::AnalyticsOverflow)?\<close>.\<close>

definition map_overflow :: "analytics_error + 'a \<Rightarrow> 'a bres" where
  "map_overflow r = (case r of Inl _ \<Rightarrow> Inl (Contract AnalyticsOverflow) | Inr x \<Rightarrow> Inr x)"

lemma map_overflow_Inr [res_simps]: "map_overflow r = Inr x \<longleftrightarrow> r = Inr x"
  by (cases r) (auto simp: map_overflow_def)

section \<open>The metrics as a system\<close>

inductive metrics_step :: "metrics \<Rightarrow> i128 \<Rightarrow> metrics \<Rightarrow> bool" where
  locked: "0 \<le> amt \<Longrightarrow> amt \<le> i128_max \<Longrightarrow>
    metrics_step m amt (init_bounty_analytics m b amt ts)"
| released: "0 \<le> amt \<Longrightarrow> update_analytics_on_release m b amt ts = Inr m' \<Longrightarrow>
    metrics_step m amt m'"
| refunded: "0 \<le> amt \<Longrightarrow> update_analytics_on_refund m b amt ts = Inr m' \<Longrightarrow>
    metrics_step m amt m'"

text \<open>The saturating remainder is the exact one, cut off at the bottom of the range.\<close>

definition balanced :: "bounty_analytics \<Rightarrow> bool" where
  "balanced a \<longleftrightarrow>
     0 \<le> total_amount_locked a \<and> total_amount_locked a \<le> i128_max \<and>
     0 \<le> total_amount_released a \<and> 0 \<le> total_amount_refunded a \<and>
     an_remaining_amount a = max i128_min
       (total_amount_locked a - total_amount_released a - total_amount_refunded a)"

definition metrics_ok :: "metrics \<Rightarrow> bool" where
  "metrics_ok m \<longleftrightarrow> (\<forall>b a. m b = Some a \<longrightarrow> balanced a)"

lemma metrics_ok_upd: "metrics_ok m \<Longrightarrow> balanced a \<Longrightarrow> metrics_ok (m(b \<mapsto> a))"
  by (simp add: metrics_ok_def)

lemma metrics_ok_release:
  assumes "update_analytics_on_release m b amt ts = Inr m'" and "0 \<le> amt" and "metrics_ok m"
  shows "metrics_ok m'"
proof (cases "m b")
  case (Some a)
  then have "balanced a" using assms(3) by (simp add: metrics_ok_def)
  then show ?thesis
    using assms Some
    by (auto simp: update_analytics_on_release_def balanced_def arith_defs
        split: option.splits if_splits intro!: metrics_ok_upd)
qed (use assms in \<open>simp add: update_analytics_on_release_def\<close>)

lemma metrics_ok_refund:
  assumes "update_analytics_on_refund m b amt ts = Inr m'" and "0 \<le> amt" and "metrics_ok m"
  shows "metrics_ok m'"
proof (cases "m b")
  case (Some a)
  then have "balanced a" using assms(3) by (simp add: metrics_ok_def)
  then show ?thesis
    using assms Some
    by (auto simp: update_analytics_on_refund_def balanced_def arith_defs
        split: option.splits if_splits intro!: metrics_ok_upd)
qed (use assms in \<open>simp add: update_analytics_on_refund_def\<close>)

interpretation metrics_inv: invariant_system "\<lambda>m. m = Map.empty" metrics_step metrics_ok
proof unfold_locales
  show "metrics_ok m" if "m = Map.empty" for m :: metrics
    using that by (simp add: metrics_ok_def)
  show "metrics_ok m'" if "metrics_ok m" "metrics_step m l m'" for m m' :: metrics and l
    using that(2,1)
    by (induction rule: metrics_step.induct)
      (auto simp: init_bounty_analytics_def balanced_def intro: metrics_ok_upd
        metrics_ok_release metrics_ok_refund)
qed

section \<open>Properties\<close>

text \<open>
  The metrics of a bounty always balance: what they report as remaining is what was
  locked less what was released and refunded, whatever the order of the updates, and only
  an exact value below the range of \<open>i128\<close> is cut off.
\<close>

theorem metrics_balance:
  assumes "reach (\<lambda>m. m = Map.empty) metrics_step m"
    and "lookup_bounty_analytics m b = Some a"
    and "i128_min \<le> total_amount_locked a - total_amount_released a - total_amount_refunded a"
  shows "an_remaining_amount a + total_amount_released a + total_amount_refunded a =
    total_amount_locked a"
  using metrics_inv.reach_inv [OF assms(1)] assms(2,3)
  by (auto simp: metrics_ok_def balanced_def lookup_bounty_analytics_def)

lemma metrics_balance_witness:
  "\<exists>m a. update_analytics_on_release (init_bounty_analytics Map.empty 7 100 10) 7 60 20 = Inr m \<and>
     m 7 = Some a \<and> an_remaining_amount a = 40"
proof -
  let ?m0 = "init_bounty_analytics Map.empty 7 100 10"
  obtain m where m: "update_analytics_on_release ?m0 7 60 20 = Inr m"
    by (simp add: update_analytics_on_release_def init_bounty_analytics_def arith_defs)
  then obtain a where a: "m 7 = Some a" "total_amount_released a = 60"
      "total_amount_refunded a = 0" "total_amount_locked a = 100"
    by (auto simp: update_analytics_on_release_def init_bounty_analytics_def arith_defs
        split: if_splits)
  have "reach (\<lambda>m. m = Map.empty) metrics_step ?m0"
    by (rule reach_step [OF reach_init, of _ Map.empty _ 100]) (auto intro: metrics_step.locked)
  moreover have "metrics_step ?m0 60 m"
    using m by (intro metrics_step.released [where amt = 60]) simp_all
  ultimately have "reach (\<lambda>m. m = Map.empty) metrics_step m"
    using reach.reach_step [where step = metrics_step] by blast
  from metrics_balance [OF this, of 7 a] a m show ?thesis
    by (auto simp: lookup_bounty_analytics_def)
qed

end
