(* ===== verification/BountyGovernance.thy ===== *)
theory BountyGovernance
  imports BountyTypes
begin

text \<open>
  The link to the governance contract of governance_integration.rs: the stored address and
  minimum version, and the checks that call the governance contract through its client
  interface. A direct call that traps traps the caller; \<open>try_execute_proposal\<close> does not.
\<close>

record gov_link =
  gov_addr :: "addr option"
  min_ver :: "u32 option"

definition empty_gov_link :: gov_link where
  "empty_gov_link = \<lparr>gov_addr = None, min_ver = None\<rparr>"

definition link_set_governance_contract :: "gov_link \<Rightarrow> addr \<Rightarrow> gov_link" where
  "link_set_governance_contract g a = g\<lparr>gov_addr := Some a\<rparr>"

definition link_get_governance_contract :: "gov_link \<Rightarrow> addr option" where
  "link_get_governance_contract g = gov_addr g"

definition link_set_min_governance_version :: "gov_link \<Rightarrow> u32 \<Rightarrow> gov_link" where
  "link_set_min_governance_version g v = g\<lparr>min_ver := Some v\<rparr>"

definition link_get_min_governance_version :: "gov_link \<Rightarrow> u32" where
  "link_get_min_governance_version g = (case min_ver g of None \<Rightarrow> 0 | Some v \<Rightarrow> v)"

definition check_governance_version :: "'w env \<Rightarrow> 'w \<Rightarrow> gov_link \<Rightarrow> bool bres" where
  "check_governance_version env w g =
     (case link_get_governance_contract g of
        None \<Rightarrow> Inr True
      | Some a \<Rightarrow>
          let min_version = link_get_min_governance_version g
          in if 0 < min_version then
               bnd (ok_or (if 10000 \<le> min_version
                           then gv_get_version_numeric_encoded env a w
                           else gv_get_ver env a w) (Panic Governance_trap))
                 (\<lambda>version. Inr (min_version \<le> version))
             else Inr True)"

definition check_upgrade_approval ::
    "'w env \<Rightarrow> 'w \<Rightarrow> gov_link \<Rightarrow> bytes32 \<Rightarrow> bool bres" where
  "check_upgrade_approval env w g wasm_hash =
     (case link_get_governance_contract g of
        None \<Rightarrow> Inr False
      | Some a \<Rightarrow>
          bnd (check_governance_version env w g)
            (\<lambda>ok. if \<not> ok then Inr False
                  else ok_or (gv_is_upg_ok env a wasm_hash w) (Panic Governance_trap)))"

definition check_proposal_vetoed :: "'w env \<Rightarrow> 'w \<Rightarrow> gov_link \<Rightarrow> u32 \<Rightarrow> bool bres" where
  "check_proposal_vetoed env w g proposal_id =
     (case link_get_governance_contract g of
        None \<Rightarrow> Inr False
      | Some a \<Rightarrow> ok_or (gv_is_vetoed env a proposal_id w) (Panic Governance_trap))"

definition link_execute_governance_proposal ::
    "'w env \<Rightarrow> 'w \<Rightarrow> gov_link \<Rightarrow> u32 \<Rightarrow> (bool \<times> 'w) bres" where
  "link_execute_governance_proposal env w g proposal_id =
     (case link_get_governance_contract g of
        None \<Rightarrow> Inr (False, w)
      | Some a \<Rightarrow>
          bnd (check_governance_version env w g)
            (\<lambda>ok. if \<not> ok then Inr (False, w)
                  else bnd (check_proposal_vetoed env w g proposal_id)
                    (\<lambda>vetoed. if vetoed then Inr (False, w)
                              else Inr (gv_execute_proposal env a proposal_id w))))"

end
