(* ===== verification/BountyState.thy ===== *)
theory BountyState
  imports CircuitBreaker AntiAbuse BountyAnalytics BountyGovernance
begin

text \<open>
  The whole state of the bounty escrow contract, and the operations every entrypoint is
  built from: the incremental counters, the pause check, the token transfer and the checks
  of the governance version and of the release approval.
\<close>

section \<open>Storage\<close>

text \<open>
  One field per \<open>DataKey\<close>, then the storage of the modules, the published events, the
  installed code and the world of the other contracts.
\<close>

record 'w state =
  st_admin :: "addr option"
  st_token :: "addr option"
  st_escrows :: "u64 \<rightharpoonup> escrow"
  st_index :: "u64 list option"
  st_depositor_index :: "addr \<rightharpoonup> u64 list"
  st_fee_config :: "fee_config option"
  st_refund_approvals :: "u64 \<rightharpoonup> refund_approval"
  st_reentrancy_guard :: bool
  st_multisig :: "multisig_config option"
  st_release_approvals :: "u64 \<rightharpoonup> release_approval"
  st_claims :: "u64 \<rightharpoonup> claim_record"
  st_claim_window :: "u64 option"
  st_pause_flags :: "pause_flags option"
  st_amount_policy :: "(i128 \<times> i128) option"
  st_counters :: "aggregate_stats option"
  st_metrics :: metrics
  st_abuse :: anti_abuse
  st_breaker :: breaker
  st_gov :: gov_link
  st_events :: "event list"
  st_wasm :: "bytes32 option"
  st_world :: 'w

definition initial_state :: "'w \<Rightarrow> 'w state" where
  "initial_state w =
     \<lparr>st_admin = None, st_token = None, st_escrows = Map.empty, st_index = None,
      st_depositor_index = Map.empty, st_fee_config = None, st_refund_approvals = Map.empty,
      st_reentrancy_guard = False, st_multisig = None, st_release_approvals = Map.empty,
      st_claims = Map.empty, st_claim_window = None, st_pause_flags = None,
      st_amount_policy = None, st_counters = None, st_metrics = Map.empty,
      st_abuse = empty_anti_abuse, st_breaker = empty_breaker, st_gov = empty_gov_link,
      st_events = [], st_wasm = None, st_world = w\<rparr>"

definition emit :: "event \<Rightarrow> 'w state \<Rightarrow> 'w state" where
  "emit e s = s\<lparr>st_events := st_events s @ [e]\<rparr>"

definition escrow_index :: "'w state \<Rightarrow> u64 list" where
  "escrow_index s = (case st_index s of None \<Rightarrow> [] | Some l \<Rightarrow> l)"

definition depositor_index :: "'w state \<Rightarrow> addr \<Rightarrow> u64 list" where
  "depositor_index s a = (case st_depositor_index s a of None \<Rightarrow> [] | Some l \<Rightarrow> l)"

section \<open>Incremental aggregate counters\<close>

definition zero_stats :: aggregate_stats where
  "zero_stats = \<lparr>total_locked = 0, total_released = 0, total_refunded = 0,
     count_locked = 0, count_released = 0, count_refunded = 0\<rparr>"

definition get_counters :: "'w state \<Rightarrow> aggregate_stats" where
  "get_counters s = (case st_counters s of None \<Rightarrow> zero_stats | Some c \<Rightarrow> c)"

definition set_counters :: "'w state \<Rightarrow> aggregate_stats \<Rightarrow> 'w state" where
  "set_counters s c = s\<lparr>st_counters := Some c\<rparr>"

text \<open>
  Each transition reads the counters, changes them and writes them back. What it changes is
  a function on the counters alone, named after the transition.
\<close>

definition locked_stats :: "i128 \<Rightarrow> aggregate_stats \<Rightarrow> aggregate_stats" where
  "locked_stats amt stats =
     stats\<lparr>total_locked := sat_add_i128 (total_locked stats) amt,
           count_locked := sat_add_u32 (count_locked stats) 1\<rparr>"

definition increment_locked :: "i128 \<Rightarrow> 'w state \<Rightarrow> 'w state" where
  "increment_locked amt s =
     set_counters s (locked_stats amt (get_counters s))"

definition released_stats :: "i128 \<Rightarrow> aggregate_stats \<Rightarrow> aggregate_stats" where
  "released_stats amt stats =
     stats\<lparr>total_locked := sat_sub_i128 (total_locked stats) amt,
           count_locked := sat_sub_u32 (count_locked stats) 1,
           total_released := sat_add_i128 (total_released stats) amt,
           count_released := sat_add_u32 (count_released stats) 1\<rparr>"

definition transition_locked_to_released :: "i128 \<Rightarrow> 'w state \<Rightarrow> 'w state" where
  "transition_locked_to_released amt s =
     set_counters s (released_stats amt (get_counters s))"

definition refunded_stats :: "i128 \<Rightarrow> aggregate_stats \<Rightarrow> aggregate_stats" where
  "refunded_stats amt stats =
     stats\<lparr>total_locked := sat_sub_i128 (total_locked stats) amt,
           count_locked := sat_sub_u32 (count_locked stats) 1,
           total_refunded := sat_add_i128 (total_refunded stats) amt,
           count_refunded := sat_add_u32 (count_refunded stats) 1\<rparr>"

definition transition_locked_to_refunded :: "i128 \<Rightarrow> 'w state \<Rightarrow> 'w state" where
  "transition_locked_to_refunded amt s =
     set_counters s (refunded_stats amt (get_counters s))"

definition part_refunded_stats :: "i128 \<Rightarrow> aggregate_stats \<Rightarrow> aggregate_stats" where
  "part_refunded_stats refund_amount stats =
     stats\<lparr>total_locked := sat_sub_i128 (total_locked stats) refund_amount,
           total_refunded := sat_add_i128 (total_refunded stats) refund_amount\<rparr>"

definition partial_refund_from_locked :: "i128 \<Rightarrow> 'w state \<Rightarrow> 'w state" where
  "partial_refund_from_locked refund_amount s =
     set_counters s (part_refunded_stats refund_amount (get_counters s))"

definition final_refunded_stats :: "i128 \<Rightarrow> aggregate_stats \<Rightarrow> aggregate_stats" where
  "final_refunded_stats final_refund_amount stats =
     stats\<lparr>total_locked := sat_sub_i128 (total_locked stats) final_refund_amount,
           count_locked := sat_sub_u32 (count_locked stats) 1,
           total_refunded := sat_add_i128 (total_refunded stats) final_refund_amount,
           count_refunded := sat_add_u32 (count_refunded stats) 1\<rparr>"

definition transition_partially_refunded_to_refunded :: "i128 \<Rightarrow> 'w state \<Rightarrow> 'w state" where
  "transition_partially_refunded_to_refunded final_refund_amount s =
     set_counters s (final_refunded_stats final_refund_amount (get_counters s))"

definition part_released_stats :: "i128 \<Rightarrow> aggregate_stats \<Rightarrow> aggregate_stats" where
  "part_released_stats release_amount stats =
     stats\<lparr>total_locked := sat_sub_i128 (total_locked stats) release_amount,
           total_released := sat_add_i128 (total_released stats) release_amount\<rparr>"

definition partial_release_from_locked :: "i128 \<Rightarrow> 'w state \<Rightarrow> 'w state" where
  "partial_release_from_locked release_amount s =
     set_counters s (part_released_stats release_amount (get_counters s))"

definition finalized_stats :: "aggregate_stats \<Rightarrow> aggregate_stats" where
  "finalized_stats stats =
     stats\<lparr>count_locked := sat_sub_u32 (count_locked stats) 1,
           count_released := sat_add_u32 (count_released stats) 1\<rparr>"

definition finalize_partial_release_to_released :: "'w state \<Rightarrow> 'w state" where
  "finalize_partial_release_to_released s =
     set_counters s (finalized_stats (get_counters s))"

section \<open>Pause flags\<close>

definition no_pause :: pause_flags where
  "no_pause = \<lparr>global_paused = False, lock_paused = False, release_paused = False,
     refund_paused = False\<rparr>"

definition get_pause_flags :: "'w state \<Rightarrow> pause_flags" where
  "get_pause_flags s = (case st_pause_flags s of None \<Rightarrow> no_pause | Some f \<Rightarrow> f)"

definition check_paused :: "'w state \<Rightarrow> symbol \<Rightarrow> bool" where
  "check_paused s op =
     (let flags = get_pause_flags s in
      if global_paused flags then True
      else if op = ''lock'' then lock_paused flags
      else if op = ''release'' then release_paused flags
      else if op = ''refund'' then refund_paused flags
      else False)"

lemma check_paused_upd [simp]:
  "check_paused (s\<lparr>st_escrows := x1\<rparr>) opn = check_paused s opn"
  "check_paused (s\<lparr>st_reentrancy_guard := x2\<rparr>) opn = check_paused s opn"
  "check_paused (s\<lparr>st_abuse := x3\<rparr>) opn = check_paused s opn"
  "check_paused (s\<lparr>st_claims := x4\<rparr>) opn = check_paused s opn"
  "check_paused (s\<lparr>st_counters := x5\<rparr>) opn = check_paused s opn"
  "check_paused (s\<lparr>st_world := x6\<rparr>) opn = check_paused s opn"
  by (simp_all add: check_paused_def get_pause_flags_def)

section \<open>Token transfers\<close>

definition token_transfer ::
    "'w env \<Rightarrow> 'w state \<Rightarrow> addr \<Rightarrow> addr \<Rightarrow> i128 \<Rightarrow> 'w state bres" where
  "token_transfer env s from to amt =
     bnd (ok_or (st_token s) (Panic Unwrap_none))
       (\<lambda>token_addr.
          bnd (ok_or (tk_transfer env token_addr from to amt (st_world s)) (Panic Token_trap))
            (\<lambda>w. Inr (s\<lparr>st_world := w\<rparr>)))"

definition execute_token_transfer ::
    "'w env \<Rightarrow> 'w state \<Rightarrow> addr \<Rightarrow> addr \<Rightarrow> i128 \<Rightarrow> symbol \<Rightarrow> 'w state bres" where
  "execute_token_transfer env s from to amt op =
     (if check_paused s op then Inl (Contract FundsPaused)
      else token_transfer env s from to amt)"

section \<open>Governance version and release approval\<close>

definition check_governance_requirements :: "'w env \<Rightarrow> 'w state \<Rightarrow> unit bres" where
  "check_governance_requirements env s =
     bnd (check_governance_version env (st_world s) (st_gov s))
       (\<lambda>ok. if \<not> ok then Inl (Contract GovernanceVersionTooLow) else Inr ())"

definition default_multisig :: multisig_config where
  "default_multisig = \<lparr>threshold_amount = i128_max, signers = [], required_signatures = 0\<rparr>"

definition get_multisig_config :: "'w state \<Rightarrow> multisig_config" where
  "get_multisig_config s = (case st_multisig s of None \<Rightarrow> default_multisig | Some c \<Rightarrow> c)"

definition check_release_approval :: "'w state \<Rightarrow> u64 \<Rightarrow> i128 \<Rightarrow> unit bres" where
  "check_release_approval s bounty_id amt =
     (let multisig_config = get_multisig_config s in
      if amt < threshold_amount multisig_config then Inr ()
      else bnd (ok_or (st_release_approvals s bounty_id) (Contract ApprovalRequired))
        (\<lambda>approval.
           if length (approvals approval) < required_signatures multisig_config
           then Inl (Contract ApprovalRequired) else Inr ()))"

text \<open>
  The breaker gate of the entrypoints: \<open>if let Err(_) = check_and_allow(\&env)\<close> returns
  \<open>CircuitBreakerOpen\<close>. The rejection event is reverted with the call, and a passing check
  changes nothing.
\<close>

definition breaker_gate :: "'w env \<Rightarrow> 'w state \<Rightarrow> unit bres" where
  "breaker_gate env s =
     (case fst (check_and_allow (timestamp env) (st_breaker s)) of
        Inl _ \<Rightarrow> Inl (Contract CircuitBreakerOpen)
      | Inr _ \<Rightarrow> Inr ())"

end
