(* ===== verification/BountyAdmin.thy ===== *)
theory BountyAdmin
  imports BountyState
begin

text \<open>
  The administrative entrypoints of the bounty escrow contract: initialisation, fees,
  upgrade, pause flags, multisig and its approvals, the claim window, the amount policy, the
  anti-abuse lists, the governance link and the circuit breaker controls, with their views.
\<close>

section \<open>Initialisation\<close>

definition init :: "'w env \<Rightarrow> 'w state \<Rightarrow> addr \<Rightarrow> addr \<Rightarrow> 'w state bres" where
  "init env s admin token =
     (if st_admin s \<noteq> None then Inl (Contract AlreadyInitialized)
      else bnd (require_auth env admin)
        (\<lambda>_. Inr (emit (BountyEscrowInitialized admin token (timestamp env))
                   (s\<lparr>st_admin := Some admin, st_token := Some token\<rparr>))))"

text \<open>
  The opening of every admin entrypoint: \<open>NotInitialized\<close> when no admin is stored, then
  the stored admin's \<open>require_auth\<close>.
\<close>

definition require_admin :: "'w env \<Rightarrow> 'w state \<Rightarrow> addr bres" where
  "require_admin env s =
     bnd (ok_or (st_admin s) (Contract NotInitialized))
       (\<lambda>admin. bnd (require_auth env admin) (\<lambda>_. Inr admin))"

lemma require_admin_Inr [res_simps]:
  "require_admin env s = Inr a \<longleftrightarrow> st_admin s = Some a \<and> authorized env a"
  by (auto simp: require_admin_def res_simps)

section \<open>Fees\<close>

definition calculate_fee :: "i128 \<Rightarrow> i128 \<Rightarrow> i128" where
  "calculate_fee amt fee_rate =
     (if fee_rate = 0 then 0
      else case checked_mul_i128 amt fee_rate of
          None \<Rightarrow> 0
        | Some x \<Rightarrow> (case checked_div_i128 x BASIS_POINTS of None \<Rightarrow> 0 | Some y \<Rightarrow> y))"

definition get_fee_config_internal :: "'w env \<Rightarrow> 'w state \<Rightarrow> fee_config" where
  "get_fee_config_internal env s =
     (case st_fee_config s of
        Some c \<Rightarrow> c
      | None \<Rightarrow>
          \<lparr>lock_fee_rate = 0, release_fee_rate = 0,
           fee_recipient =
             (case st_admin s of None \<Rightarrow> current_contract_address env | Some a \<Rightarrow> a),
           fee_enabled = False\<rparr>)"

definition get_fee_config :: "'w env \<Rightarrow> 'w state \<Rightarrow> fee_config" where
  "get_fee_config env s = get_fee_config_internal env s"

definition check_fee_rate :: "i128 option \<Rightarrow> i128 \<Rightarrow> i128 bres" where
  "check_fee_rate new_rate old_rate =
     (case new_rate of
        None \<Rightarrow> Inr old_rate
      | Some rate \<Rightarrow> if rate < 0 \<or> MAX_FEE_RATE < rate then Inl (Contract InvalidFeeRate)
                     else Inr rate)"

definition update_fee_config ::
    "'w env \<Rightarrow> 'w state \<Rightarrow> i128 option \<Rightarrow> i128 option \<Rightarrow> addr option \<Rightarrow> bool option
      \<Rightarrow> 'w state bres" where
  "update_fee_config env s new_lock_rate new_release_rate new_recipient new_enabled =
     bnd (require_admin env s) (\<lambda>admin.
     bnd (check_governance_requirements env s) (\<lambda>_.
       let fc = get_fee_config_internal env s in
       bnd (check_fee_rate new_lock_rate (lock_fee_rate fc)) (\<lambda>lock_rate.
       bnd (check_fee_rate new_release_rate (release_fee_rate fc)) (\<lambda>release_rate.
         let fc' = fc\<lparr>lock_fee_rate := lock_rate, release_fee_rate := release_rate,
                      fee_recipient := (case new_recipient of None \<Rightarrow> fee_recipient fc
                                                           | Some r \<Rightarrow> r),
                      fee_enabled := (case new_enabled of None \<Rightarrow> fee_enabled fc
                                                       | Some e \<Rightarrow> e)\<rparr>
         in Inr (emit (FeeConfigUpdated (lock_fee_rate fc') (release_fee_rate fc')
                         (fee_recipient fc') (fee_enabled fc') (timestamp env))
                  (s\<lparr>st_fee_config := Some fc'\<rparr>))))))"

section \<open>Upgrade\<close>

definition upgrade :: "'w env \<Rightarrow> 'w state \<Rightarrow> bytes32 \<Rightarrow> 'w state bres" where
  "upgrade env s new_wasm_hash =
     bnd (require_admin env s) (\<lambda>admin.
     bnd (check_upgrade_approval env (st_world s) (st_gov s) new_wasm_hash) (\<lambda>approved.
       if \<not> approved then Inl (Contract UpgradeNotApproved)
       else if \<not> wasm_uploaded env new_wasm_hash then Inl (Panic Wasm_missing)
       else Inr (emit (UpgradeExecuted new_wasm_hash admin)
                   (s\<lparr>st_wasm := Some new_wasm_hash\<rparr>))))"

section \<open>Pause flags\<close>

definition emit_pause :: "symbol \<Rightarrow> bool option \<Rightarrow> addr \<Rightarrow> 'w state \<Rightarrow> 'w state" where
  "emit_pause op flag admin s =
     (case flag of None \<Rightarrow> s | Some paused \<Rightarrow> emit (PauseStateChanged op paused admin) s)"

definition set_paused ::
    "'w env \<Rightarrow> 'w state \<Rightarrow> bool option \<Rightarrow> bool option \<Rightarrow> bool option \<Rightarrow> 'w state bres" where
  "set_paused env s lock release refund =
     bnd (require_admin env s) (\<lambda>admin.
     bnd (check_governance_requirements env s) (\<lambda>_.
       let flags = get_pause_flags s;
           flags' = flags\<lparr>
             lock_paused := (case lock of None \<Rightarrow> lock_paused flags | Some p \<Rightarrow> p),
             release_paused := (case release of None \<Rightarrow> release_paused flags | Some p \<Rightarrow> p),
             refund_paused := (case refund of None \<Rightarrow> refund_paused flags | Some p \<Rightarrow> p)\<rparr>;
           s1 = emit_pause ''lock'' lock admin s;
           s2 = emit_pause ''release'' release admin s1;
           s3 = emit_pause ''refund'' refund admin s2
       in Inr (s3\<lparr>st_pause_flags := Some flags'\<rparr>)))"

definition set_emergency_pause :: "'w env \<Rightarrow> 'w state \<Rightarrow> bool \<Rightarrow> 'w state bres" where
  "set_emergency_pause env s paused =
     bnd (require_admin env s) (\<lambda>admin.
     bnd (check_governance_requirements env s) (\<lambda>_.
       let flags' = (get_pause_flags s)\<lparr>global_paused := paused\<rparr>;
           s1 = emit (PauseStateChanged ''global'' paused admin) s
       in Inr (s1\<lparr>st_pause_flags := Some flags'\<rparr>)))"

section \<open>Multisig\<close>

definition update_multisig_config ::
    "'w env \<Rightarrow> 'w state \<Rightarrow> i128 \<Rightarrow> addr list \<Rightarrow> u32 \<Rightarrow> 'w state bres" where
  "update_multisig_config env s threshold signer_list required =
     bnd (require_admin env s) (\<lambda>_.
       if length signer_list < required then Inl (Contract InvalidAmount)
       else Inr (s\<lparr>st_multisig := Some \<lparr>threshold_amount = threshold,
                     signers = signer_list, required_signatures = required\<rparr>\<rparr>))"

definition approve_large_release ::
    "'w env \<Rightarrow> 'w state \<Rightarrow> u64 \<Rightarrow> addr \<Rightarrow> addr \<Rightarrow> 'w state bres" where
  "approve_large_release env s bounty_id contributor approver =
     (if st_admin s = None then Inl (Contract NotInitialized)
      else if approver \<notin> set (signers (get_multisig_config s))
      then Inl (Contract Unauthorized)
      else bnd (require_auth env approver) (\<lambda>_.
        let approval = (case st_release_approvals s bounty_id of
              Some a \<Rightarrow> a
            | None \<Rightarrow> \<lparr>ra_bounty_id = bounty_id, ra_contributor = contributor,
                        approvals = []\<rparr>)
        in if approver \<in> set (approvals approval) then Inr s
           else Inr (emit (ApprovalAdded bounty_id contributor approver (timestamp env))
                      (s\<lparr>st_release_approvals := (st_release_approvals s)
                           (bounty_id \<mapsto>
                              approval\<lparr>approvals := approvals approval @ [approver]\<rparr>)\<rparr>))))"

section \<open>Claim window and amount policy\<close>

definition set_claim_window :: "'w env \<Rightarrow> 'w state \<Rightarrow> u64 \<Rightarrow> 'w state bres" where
  "set_claim_window env s window =
     bnd (require_admin env s) (\<lambda>_. Inr (s\<lparr>st_claim_window := Some window\<rparr>))"

definition set_amount_policy ::
    "'w env \<Rightarrow> 'w state \<Rightarrow> addr \<Rightarrow> i128 \<Rightarrow> i128 \<Rightarrow> 'w state bres" where
  "set_amount_policy env s caller min_amt max_amt =
     bnd (ok_or (st_admin s) (Contract NotInitialized)) (\<lambda>admin.
       if caller \<noteq> admin then Inl (Contract Unauthorized)
       else bnd (require_auth env admin) (\<lambda>_.
         if max_amt < min_amt then Inl (Contract InvalidAmountRange)
         else Inr (s\<lparr>st_amount_policy := Some (min_amt, max_amt)\<rparr>)))"

section \<open>Anti-abuse lists\<close>

definition set_anti_abuse_admin :: "'w env \<Rightarrow> 'w state \<Rightarrow> addr \<Rightarrow> 'w state bres" where
  "set_anti_abuse_admin env s admin =
     bnd (require_admin env s) (\<lambda>_. Inr (s\<lparr>st_admin := aa_set_admin (st_admin s) admin\<rparr>))"

definition get_anti_abuse_admin :: "'w state \<Rightarrow> addr option" where
  "get_anti_abuse_admin s = aa_get_admin (st_admin s)"

definition set_whitelist :: "'w env \<Rightarrow> 'w state \<Rightarrow> addr \<Rightarrow> bool \<Rightarrow> 'w state bres" where
  "set_whitelist env s whitelisted_address whitelisted =
     bnd (require_admin env s) (\<lambda>_.
       Inr (s\<lparr>st_abuse := aa_set_whitelist (st_abuse s) whitelisted_address whitelisted\<rparr>))"

section \<open>Governance\<close>

definition set_governance_contract :: "'w env \<Rightarrow> 'w state \<Rightarrow> addr \<Rightarrow> 'w state bres" where
  "set_governance_contract env s governance_addr =
     bnd (require_admin env s) (\<lambda>_.
       Inr (s\<lparr>st_gov := link_set_governance_contract (st_gov s) governance_addr\<rparr>))"

definition get_governance_contract :: "'w state \<Rightarrow> addr option" where
  "get_governance_contract s = link_get_governance_contract (st_gov s)"

definition set_min_governance_version :: "'w env \<Rightarrow> 'w state \<Rightarrow> u32 \<Rightarrow> 'w state bres" where
  "set_min_governance_version env s min_version =
     bnd (require_admin env s) (\<lambda>_.
       Inr (s\<lparr>st_gov := link_set_min_governance_version (st_gov s) min_version\<rparr>))"

definition get_min_governance_version :: "'w state \<Rightarrow> u32" where
  "get_min_governance_version s = link_get_min_governance_version (st_gov s)"

definition execute_governance_proposal :: "'w env \<Rightarrow> 'w state \<Rightarrow> u32 \<Rightarrow> 'w state bres" where
  "execute_governance_proposal env s proposal_id =
     (if st_admin s = None then Inl (Contract NotInitialized)
      else bnd (check_governance_requirements env s) (\<lambda>_.
        bnd (link_execute_governance_proposal env (st_world s) (st_gov s) proposal_id)
          (\<lambda>(executed, w).
             if \<not> executed then Inl (Contract GovernanceProposalNotExecutable)
             else Inr (s\<lparr>st_world := w\<rparr>))))"

section \<open>Circuit breaker controls\<close>

definition set_circuit_breaker_admin :: "'w env \<Rightarrow> 'w state \<Rightarrow> addr \<Rightarrow> 'w state bres" where
  "set_circuit_breaker_admin env s admin =
     bnd (require_admin env s) (\<lambda>current_admin.
     bnd (set_circuit_admin env [current_admin] admin (get_circuit_admin (st_breaker s))
            (st_breaker s))
       (\<lambda>b. Inr (s\<lparr>st_breaker := b\<rparr>)))"

definition set_circuit_breaker_config ::
    "'w env \<Rightarrow> 'w state \<Rightarrow> u32 \<Rightarrow> u32 \<Rightarrow> u32 \<Rightarrow> 'w state bres" where
  "set_circuit_breaker_config env s failures successes log_size =
     (if failures = 0 then Inl (Contract InvalidCircuitBreakerConfig)
      else bnd (require_admin env s) (\<lambda>_.
        Inr (s\<lparr>st_breaker := set_config (st_breaker s)
                 \<lparr>failure_threshold = failures, success_threshold = successes,
                  max_error_log = log_size\<rparr>\<rparr>)))"

definition reset_circuit :: "'w env \<Rightarrow> 'w state \<Rightarrow> addr \<Rightarrow> 'w state bres" where
  "reset_circuit env s admin =
     (if st_admin s = None then Inl (Contract NotInitialized)
      else bnd (reset_circuit_breaker env admin (st_breaker s))
        (\<lambda>b. Inr (s\<lparr>st_breaker := b\<rparr>)))"

definition get_circuit_breaker_status :: "'w state \<Rightarrow> circuit_breaker_status" where
  "get_circuit_breaker_status s = get_status (st_breaker s)"

definition get_circuit_breaker_config :: "'w state \<Rightarrow> circuit_breaker_config" where
  "get_circuit_breaker_config s = get_config (st_breaker s)"

definition get_circuit_breaker_admin :: "'w state \<Rightarrow> addr option" where
  "get_circuit_breaker_admin s = get_circuit_admin (st_breaker s)"

definition get_circuit_error_log :: "'w state \<Rightarrow> error_entry list" where
  "get_circuit_error_log s = get_error_log (st_breaker s)"

section \<open>Audit view\<close>

definition get_admin_audit_view :: "'w env \<Rightarrow> 'w state \<Rightarrow> admin_config_snapshot bres" where
  "get_admin_audit_view env s =
     (case st_admin s of
        None \<Rightarrow>
          let contract_addr = current_contract_address env in
          Inr \<lparr>snap_version = 1, snap_admin = contract_addr, snap_token = contract_addr,
               snap_fee_config = \<lparr>lock_fee_rate = 0, release_fee_rate = 0,
                 fee_recipient = contract_addr, fee_enabled = False\<rparr>,
               snap_pause_flags = no_pause,
               snap_governance_contract = None, snap_min_governance_version = 0,
               snap_claim_window = 0, snap_has_amount_policy = False,
               snap_min_lock_amount = 0, snap_max_lock_amount = 0\<rparr>
      | Some admin \<Rightarrow>
          bnd (ok_or (st_token s) (Panic Unwrap_none)) (\<lambda>token.
            Inr \<lparr>snap_version = 1, snap_admin = admin, snap_token = token,
                 snap_fee_config = get_fee_config_internal env s,
                 snap_pause_flags = get_pause_flags s,
                 snap_governance_contract = get_governance_contract s,
                 snap_min_governance_version = get_min_governance_version s,
                 snap_claim_window = (case st_claim_window s of None \<Rightarrow> 0 | Some c \<Rightarrow> c),
                 snap_has_amount_policy = (st_amount_policy s \<noteq> None),
                 snap_min_lock_amount = (case st_amount_policy s of None \<Rightarrow> 0 | Some p \<Rightarrow> fst p),
                 snap_max_lock_amount = (case st_amount_policy s of None \<Rightarrow> 0 | Some p \<Rightarrow> snd p)\<rparr>))"

section \<open>Properties\<close>

text \<open>
  The fee of an amount at a rate the configuration admits is the basis-point share
  rounded down, so it lies between zero and half the amount; an amount so large that the
  product leaves \<open>i128\<close> is charged nothing.
\<close>

theorem calculate_fee_bounds:
  assumes "0 \<le> amt" and "check_fee_rate (Some r) old = Inr rate"
  shows "0 \<le> calculate_fee amt rate \<and> 2 * calculate_fee amt rate \<le> amt \<and>
    (amt * rate \<le> i128_max \<longrightarrow> calculate_fee amt rate = amt * rate div 10000) \<and>
    (i128_max < amt * rate \<longrightarrow> calculate_fee amt rate = 0)"
proof -
  have rate: "0 \<le> rate" "rate \<le> 5000"
    using assms(2) by (auto simp: check_fee_rate_def MAX_FEE_RATE_def split: if_splits)
  have pos: "0 \<le> amt * rate" using assms(1) rate by simp
  have "amt * rate \<le> amt * 5000" using assms(1) rate by (intro mult_left_mono)
  then have div: "amt * rate div 10000 \<le> amt * rate" "2 * (amt * rate div 10000) \<le> amt"
    using pos by auto
  show ?thesis
    using pos div assms(1)
    by (auto simp: calculate_fee_def arith_defs BASIS_POINTS_def sdiv_pos
        pos_imp_zdiv_nonneg_iff)
qed

lemma calculate_fee_bounds_witness:
  "calculate_fee 100 250 = 2 \<and> 2 * calculate_fee 100 250 \<le> 100"
proof -
  have "check_fee_rate (Some 250) 0 = Inr 250" by (simp add: check_fee_rate_def MAX_FEE_RATE_def)
  from calculate_fee_bounds [OF _ this, of 100] show ?thesis by simp
qed

text \<open>
  An upgrade fails closed. It goes through only when the admin authorises it, a
  governance contract is configured, reports a version that meets the minimum and approves
  this very hash, and the code with that hash is uploaded.
\<close>

theorem upgrade_needs_governance:
  assumes "upgrade env s h = Inr s'"
  shows "\<exists>a g. st_admin s = Some a \<and> authorized env a \<and> get_governance_contract s = Some g \<and>
    gv_is_upg_ok env g h (st_world s) = Some True \<and> wasm_uploaded env h \<and>
    (0 < get_min_governance_version s \<longrightarrow>
       (\<exists>v. (if 10000 \<le> get_min_governance_version s
             then gv_get_version_numeric_encoded env g (st_world s)
             else gv_get_ver env g (st_world s)) = Some v \<and>
          get_min_governance_version s \<le> v)) \<and>
    st_wasm s' = Some h"
  using assms
  by (auto simp: upgrade_def check_upgrade_approval_def check_governance_version_def res_simps
      get_governance_contract_def get_min_governance_version_def Let_def emit_def
      split: option.splits if_splits)

definition approving_env :: "ledger env" where
  "approving_env = (sample_env 50 [1])\<lparr>gv_is_upg_ok := (\<lambda>_ _ _. Some True)\<rparr>"

lemma upgrade_needs_governance_witness:
  "\<exists>s' g. upgrade approving_env ((initial_state (\<lambda>_. 0))\<lparr>st_admin := Some 1,
       st_gov := \<lparr>gov_addr = Some 8, min_ver = Some 1\<rparr>\<rparr>) 77 = Inr s' \<and> st_wasm s' = Some 77"
proof -
  let ?s = "(initial_state (\<lambda>_. 0))\<lparr>st_admin := Some 1,
       st_gov := \<lparr>gov_addr = Some 8, min_ver = Some 1\<rparr>\<rparr>"
  obtain s' where s': "upgrade approving_env ?s 77 = Inr s'"
    by (simp add: upgrade_def approving_env_def sample_env_def require_admin_def
        require_auth_def check_upgrade_approval_def check_governance_version_def
        link_get_governance_contract_def link_get_min_governance_version_def)
  with upgrade_needs_governance [OF s'] show ?thesis by blast
qed

text \<open>
  An approval of a large release is recorded only for a configured signer who authorises
  it, at most once per signer, and keeps the approvals given before.
\<close>

theorem approve_large_release_once:
  assumes "approve_large_release env s b c approver = Inr s'"
    and "\<forall>ra. st_release_approvals s b = Some ra \<longrightarrow> distinct (approvals ra)"
  shows "approver \<in> set (signers (get_multisig_config s)) \<and> authorized env approver \<and>
    (\<exists>ra. st_release_approvals s' b = Some ra \<and> distinct (approvals ra) \<and>
       set (approvals ra) = insert approver
         (case st_release_approvals s b of None \<Rightarrow> {} | Some ra \<Rightarrow> set (approvals ra)))"
  using assms
  by (auto simp: approve_large_release_def res_simps Let_def emit_def split: if_splits option.splits)

lemma approve_large_release_once_witness:
  "\<exists>s'. approve_large_release (sample_env 5 [4]) ((initial_state (\<lambda>_. 0))\<lparr>st_admin := Some 1,
       st_multisig := Some \<lparr>threshold_amount = 10, signers = [4, 5], required_signatures = 1\<rparr>\<rparr>)
       7 9 4 = Inr s' \<and> (\<exists>ra. st_release_approvals s' 7 = Some ra \<and> set (approvals ra) = {4})"
proof -
  let ?s = "(initial_state (\<lambda>_. 0))\<lparr>st_admin := Some 1,
    st_multisig := Some \<lparr>threshold_amount = 10, signers = [4, 5], required_signatures = 1\<rparr>\<rparr>"
  obtain s' where s': "approve_large_release (sample_env 5 [4]) ?s 7 9 4 = Inr s'"
    by (simp add: approve_large_release_def get_multisig_config_def require_auth_def
        initial_state_def Let_def)
  have none: "st_release_approvals ?s 7 = None" by (simp add: initial_state_def)
  then have "\<exists>ra. st_release_approvals s' 7 = Some ra \<and> set (approvals ra) = {4}"
    using approve_large_release_once [OF s', unfolded none] by auto
  with s' show ?thesis by blast
qed

end
