(* ===== verification/BountyEscrow.thy ===== *)
theory BountyEscrow
  imports BountyAdmin
begin

text \<open>
  The fund-moving entrypoints on one bounty: lock, release, the claim with its
  authorisation and cancellation, the refund with its approval, and the partial release.
  Each follows the order of its function in lib.rs: guards and early returns, then the
  reentrancy guard, the state changes, the transfer and the events.
\<close>

section \<open>Lock\<close>

definition check_amount_policy :: "'w state \<Rightarrow> i128 \<Rightarrow> unit bres" where
  "check_amount_policy s amt =
     (case st_amount_policy s of
        None \<Rightarrow> Inr ()
      | Some (min_amt, max_amt) \<Rightarrow>
          if amt < min_amt then Inl (Contract AmountBelowMinimum)
          else if max_amt < amt then Inl (Contract AmountAboveMaximum)
          else Inr ())"

text \<open>
  The part that \<open>lock_funds\<close> and \<open>batch_lock_funds\<close> have in common once the tokens have
  moved: the escrow entry, the two indexes, the analytics entry and the counters.
\<close>

definition store_new_escrow ::
    "'w env \<Rightarrow> addr \<Rightarrow> u64 \<Rightarrow> i128 \<Rightarrow> u64 \<Rightarrow> 'w state \<Rightarrow> 'w state" where
  "store_new_escrow env dep bounty_id amt dl s =
     (let esc = \<lparr>depositor = dep, amount = amt, remaining_amount = amt, status = Locked,
                 deadline = dl, refund_history = []\<rparr>;
          s1 = s\<lparr>st_escrows := (st_escrows s)(bounty_id \<mapsto> esc)\<rparr>;
          s2 = s1\<lparr>st_index := Some (escrow_index s1 @ [bounty_id])\<rparr>;
          s3 = s2\<lparr>st_depositor_index := (st_depositor_index s2)
                    (dep \<mapsto> depositor_index s2 dep @ [bounty_id])\<rparr>;
          s4 = s3\<lparr>st_metrics := init_bounty_analytics (st_metrics s3) bounty_id amt
                    (timestamp env)\<rparr>
      in increment_locked amt s4)"

definition lock_funds ::
    "'w env \<Rightarrow> 'w state \<Rightarrow> addr \<Rightarrow> u64 \<Rightarrow> i128 \<Rightarrow> u64 \<Rightarrow> 'w state bres" where
  "lock_funds env s dep bounty_id amt dl =
     bnd (check_rate_limit (timestamp env) dep (st_abuse s)) (\<lambda>abuse.
     let s0 = s\<lparr>st_abuse := abuse\<rparr> in
     bnd (breaker_gate env s0) (\<lambda>_.
     bnd (require_auth env dep) (\<lambda>_.
       if st_admin s0 = None then Inl (Contract NotInitialized)
       else if st_escrows s0 bounty_id \<noteq> None then Inl (Contract BountyExists)
       else if dl \<le> timestamp env then Inl (Contract InvalidDeadline)
       else
         bnd (check_amount_policy s0 amt) (\<lambda>_.
         bnd (execute_token_transfer env s0 dep (current_contract_address env) amt ''lock'')
           (\<lambda>s1.
              let s2 = store_new_escrow env dep bounty_id amt dl s1
              in Inr (emit (FundsLocked bounty_id amt dep dl)
                     (emit (BountyActivityEvent bounty_id ''created'' amt (timestamp env))
                     (emit (BountyStateTransitioned bounty_id ''new'' ''locked'' amt dep
                              (timestamp env)) s2))))))))"

section \<open>Release\<close>

definition clear_release_approval :: "u64 \<Rightarrow> 'w state \<Rightarrow> 'w state" where
  "clear_release_approval bounty_id s =
     (if st_release_approvals s bounty_id \<noteq> None
      then s\<lparr>st_release_approvals := (st_release_approvals s)(bounty_id := None)\<rparr> else s)"

definition release_funds :: "'w env \<Rightarrow> 'w state \<Rightarrow> u64 \<Rightarrow> addr \<Rightarrow> 'w state bres" where
  "release_funds env s bounty_id contributor =
     bnd (check_governance_requirements env s) (\<lambda>_.
     bnd (require_admin env s) (\<lambda>admin.
       if st_claims s bounty_id \<noteq> None then Inl (Contract RefundNotApproved)
       else
         bnd (ok_or (st_escrows s bounty_id) (Contract BountyNotFound)) (\<lambda>esc.
           if status esc \<noteq> Locked then Inl (Contract FundsNotLocked)
           else
             bnd (check_release_approval s bounty_id (amount esc)) (\<lambda>_.
               if st_reentrancy_guard s then Inl (Panic Reentrancy_detected)
               else
                 let release_amount = amount esc;
                     s1 = s\<lparr>st_reentrancy_guard := True\<rparr>;
                     s2 = s1\<lparr>st_escrows := (st_escrows s1)
                        (bounty_id \<mapsto> esc\<lparr>status := Released, remaining_amount := 0\<rparr>)\<rparr>
                 in
                   bnd (execute_token_transfer env s2 (current_contract_address env)
                          contributor release_amount ''release'') (\<lambda>s3.
                   bnd (map_overflow (update_analytics_on_release (st_metrics s3) bounty_id
                          release_amount (timestamp env))) (\<lambda>m.
                     let s4 = transition_locked_to_released release_amount
                                (s3\<lparr>st_metrics := m\<rparr>);
                         s5 = emit (FundsReleased bounty_id release_amount contributor
                                     (timestamp env))
                             (emit (BountyActivityEvent bounty_id ''released'' release_amount
                                     (timestamp env))
                             (emit (BountyStateTransitioned bounty_id ''locked'' ''released''
                                     release_amount admin (timestamp env)) s4))
                     in Inr (clear_release_approval bounty_id
                               (s5\<lparr>st_reentrancy_guard := False\<rparr>))))))))"

section \<open>Pending claims\<close>

definition authorize_claim :: "'w env \<Rightarrow> 'w state \<Rightarrow> u64 \<Rightarrow> addr \<Rightarrow> 'w state bres" where
  "authorize_claim env s bounty_id recipient =
     bnd (require_admin env s) (\<lambda>_.
     bnd (ok_or (st_escrows s bounty_id) (Contract BountyNotFound)) (\<lambda>esc.
       if status esc \<noteq> Locked then Inl (Contract FundsNotLocked)
       else if (case st_claims s bounty_id of
                  None \<Rightarrow> False
                | Some existing \<Rightarrow>
                    \<not> claimed existing \<and> timestamp env \<le> expires_at existing)
       then Inl (Contract PendingClaimExists)
       else
         let claim_window = (case st_claim_window s of None \<Rightarrow> 0 | Some w \<Rightarrow> w) in
         if claim_window = 0 then Inl (Contract ClaimWindowNotConfigured)
         else
           let claim = \<lparr>cl_bounty_id = bounty_id, cl_recipient = recipient,
                        cl_amount = remaining_amount esc,
                        expires_at = sat_add_u64 (timestamp env) claim_window,
                        claimed = False\<rparr>
           in Inr (emit (ClaimCreated bounty_id recipient (remaining_amount esc)
                           (expires_at claim))
                    (s\<lparr>st_claims := (st_claims s)(bounty_id \<mapsto> claim)\<rparr>))))"

definition claim :: "'w env \<Rightarrow> 'w state \<Rightarrow> u64 \<Rightarrow> 'w state bres" where
  "claim env s bounty_id =
     bnd (ok_or (st_claims s bounty_id) (Contract BountyNotFound)) (\<lambda>cl.
     bnd (require_auth env (cl_recipient cl)) (\<lambda>_.
       let now = timestamp env in
       if expires_at cl < now then Inl (Contract ClaimExpired)
       else if claimed cl then Inl (Contract FundsNotLocked)
       else if st_reentrancy_guard s then Inl (Panic Reentrancy_detected)
       else
         let s1 = s\<lparr>st_reentrancy_guard := True\<rparr>;
             claim_amount = cl_amount cl
         in
           bnd (ok_or (st_escrows s1 bounty_id) (Panic Unwrap_none)) (\<lambda>esc.
             let s2 = s1\<lparr>st_escrows := (st_escrows s1)
                    (bounty_id \<mapsto> esc\<lparr>status := Released, remaining_amount := 0\<rparr>)\<rparr>;
                 s3 = transition_locked_to_released claim_amount s2;
                 s4 = s3\<lparr>st_claims := (st_claims s3)(bounty_id \<mapsto> cl\<lparr>claimed := True\<rparr>)\<rparr>
             in
               bnd (execute_token_transfer env s4 (current_contract_address env)
                      (cl_recipient cl) claim_amount ''release'') (\<lambda>s5.
                 let s6 = emit (DisputeResolved bounty_id Claimed (cl_recipient cl)
                                 (cl_recipient cl) claim_amount now)
                         (emit (ClaimExecuted bounty_id (cl_recipient cl) claim_amount now) s5)
                 in Inr (s6\<lparr>st_reentrancy_guard := False\<rparr>)))))"

definition cancel_pending_claim :: "'w env \<Rightarrow> 'w state \<Rightarrow> u64 \<Rightarrow> 'w state bres" where
  "cancel_pending_claim env s bounty_id =
     bnd (require_admin env s) (\<lambda>admin.
     bnd (ok_or (st_claims s bounty_id) (Contract BountyNotFound)) (\<lambda>cl.
       if claimed cl then Inl (Contract FundsNotLocked)
       else
         let cancelled_at = timestamp env;
             reason = (if expires_at cl < cancelled_at then ''expired'' else ''manual'');
             s1 = s\<lparr>st_claims := (st_claims s)(bounty_id := None)\<rparr>
         in Inr (emit (DisputeResolved bounty_id
                         (if reason = ''expired'' then Expired else Cancelled)
                         admin (cl_recipient cl) (cl_amount cl) cancelled_at)
                (emit (ClaimCancelled bounty_id (cl_recipient cl) (cl_amount cl) cancelled_at
                         admin reason) s1))))"

definition get_pending_claim :: "'w state \<Rightarrow> u64 \<Rightarrow> claim_record bres" where
  "get_pending_claim s bounty_id = ok_or (st_claims s bounty_id) (Contract BountyNotFound)"

section \<open>Partial release\<close>

definition partial_release ::
    "'w env \<Rightarrow> 'w state \<Rightarrow> u64 \<Rightarrow> addr \<Rightarrow> i128 \<Rightarrow> 'w state bres" where
  "partial_release env s bounty_id contributor payout_amount =
     (if st_admin s = None then Inl (Contract NotInitialized)
      else
        bnd (breaker_gate env s) (\<lambda>_.
        bnd (check_governance_requirements env s) (\<lambda>_.
        bnd (require_admin env s) (\<lambda>_.
          if check_paused s ''release'' then Inl (Contract FundsPaused)
          else if st_claims s bounty_id \<noteq> None then Inl (Contract RefundNotApproved)
          else
            bnd (ok_or (st_escrows s bounty_id) (Contract BountyNotFound)) (\<lambda>esc.
              if status esc \<noteq> Locked then Inl (Contract FundsNotLocked)
              else if payout_amount \<le> 0 then Inl (Contract InvalidAmount)
              else if remaining_amount esc < payout_amount
              then Inl (Contract InsufficientFunds)
              else
                bnd (check_release_approval s bounty_id (amount esc)) (\<lambda>_.
                  if st_reentrancy_guard s then Inl (Panic Reentrancy_detected)
                  else
                    bnd (execute_token_transfer env (s\<lparr>st_reentrancy_guard := True\<rparr>)
                           (current_contract_address env) contributor payout_amount
                           ''release'') (\<lambda>s1.
                      let remaining = remaining_amount esc - payout_amount;
                          finished = (remaining = 0);
                          esc' = esc\<lparr>remaining_amount := remaining,
                                     status := (if finished then Released else status esc)\<rparr>;
                          s2 = s1\<lparr>st_escrows := (st_escrows s1)(bounty_id \<mapsto> esc')\<rparr>
                      in
                        bnd (map_overflow (update_analytics_on_release (st_metrics s2)
                               bounty_id payout_amount (timestamp env))) (\<lambda>m.
                          let s3 = partial_release_from_locked payout_amount
                                     (s2\<lparr>st_metrics := m\<rparr>);
                              s4 = (if finished then finalize_partial_release_to_released s3
                                    else s3);
                              s5 = emit (FundsReleased bounty_id payout_amount contributor
                                     (timestamp env)) s4
                          in Inr (clear_release_approval bounty_id
                                    (s5\<lparr>st_reentrancy_guard := False\<rparr>))))))))))"

end
