(* ===== verification/BountyRefund.thy ===== *)
theory BountyRefund
  imports BountyEscrow
begin

text \<open>
  Refunds of the bounty escrow contract: the admin's approval, the permissionless refund of
  one bounty and the sweep of a batch of expired bounties.
\<close>

section \<open>Approval\<close>

definition approve_refund ::
    "'w env \<Rightarrow> 'w state \<Rightarrow> u64 \<Rightarrow> i128 \<Rightarrow> addr \<Rightarrow> refund_mode \<Rightarrow> 'w state bres" where
  "approve_refund env s bounty_id amt recipient mode =
     bnd (require_admin env s) (\<lambda>admin.
     bnd (ok_or (st_escrows s bounty_id) (Contract BountyNotFound)) (\<lambda>esc.
       if status esc \<noteq> Locked \<and> status esc \<noteq> PartiallyRefunded
       then Inl (Contract FundsNotLocked)
       else if amt \<le> 0 \<or> remaining_amount esc < amt then Inl (Contract InvalidAmount)
       else Inr (s\<lparr>st_refund_approvals := (st_refund_approvals s)
              (bounty_id \<mapsto> \<lparr>ap_bounty_id = bounty_id, ap_amount = amt,
                 ap_recipient = recipient, ap_mode = mode, approved_by = admin,
                 approved_at = timestamp env\<rparr>)\<rparr>)))"

section \<open>Validation\<close>

definition load_refundable_escrow :: "'w state \<Rightarrow> u64 \<Rightarrow> escrow bres" where
  "load_refundable_escrow s bounty_id =
     (case st_escrows s bounty_id of
        None \<Rightarrow> Inl (Contract BountyNotFound)
      | Some esc \<Rightarrow>
          if st_claims s bounty_id \<noteq> None then Inl (Contract RefundNotApproved)
          else if status esc \<noteq> Locked \<and> status esc \<noteq> PartiallyRefunded
          then Inl (Contract FundsNotLocked)
          else Inr esc)"

text \<open>The map \<open>seen\<close> of the loop is the set of keys met so far.\<close>

fun unique_ids_from :: "u64 list \<Rightarrow> (u64 \<rightharpoonup> bool) \<Rightarrow> unit bres" where
  "unique_ids_from [] seen = Inr ()"
| "unique_ids_from (bounty_id # ids) seen =
     (if seen bounty_id \<noteq> None then Inl (Contract DuplicateBountyId)
      else unique_ids_from ids (seen(bounty_id \<mapsto> True)))"

definition validate_unique_bounty_ids :: "u64 list \<Rightarrow> unit bres" where
  "validate_unique_bounty_ids ids = unique_ids_from ids Map.empty"

section \<open>Refund of one bounty\<close>

text \<open>The amount, the recipient and whether the refund counts as full.\<close>

definition refund_terms :: "escrow \<Rightarrow> refund_approval option \<Rightarrow> i128 \<times> addr \<times> bool" where
  "refund_terms esc approval =
     (case approval of
        Some app \<Rightarrow>
          (ap_amount app, ap_recipient app,
           ap_mode app = Full \<or> remaining_amount esc \<le> ap_amount app)
      | None \<Rightarrow> (remaining_amount esc, depositor esc, True))"

definition refund_counters ::
    "escrow_status \<Rightarrow> escrow_status \<Rightarrow> i128 \<Rightarrow> 'w state \<Rightarrow> 'w state" where
  "refund_counters original_status new_status refund_amount s =
     (case (original_status, new_status) of
        (Locked, Refunded) \<Rightarrow> transition_locked_to_refunded refund_amount s
      | (Locked, PartiallyRefunded) \<Rightarrow> partial_refund_from_locked refund_amount s
      | (PartiallyRefunded, Refunded) \<Rightarrow>
          transition_partially_refunded_to_refunded refund_amount s
      | (PartiallyRefunded, PartiallyRefunded) \<Rightarrow> partial_refund_from_locked refund_amount s
      | _ \<Rightarrow> s)"

definition refund :: "'w env \<Rightarrow> 'w state \<Rightarrow> u64 \<Rightarrow> 'w state bres" where
  "refund env s bounty_id =
     bnd (breaker_gate env s) (\<lambda>_.
     bnd (check_governance_requirements env s) (\<lambda>_.
     bnd (load_refundable_escrow s bounty_id) (\<lambda>esc.
       let now = timestamp env;
           approval = st_refund_approvals s bounty_id in
       if now < deadline esc \<and> approval = None then Inl (Contract DeadlineNotPassed)
       else
         let (refund_amount, refund_to, is_full) = refund_terms esc approval in
         if refund_amount \<le> 0 \<or> remaining_amount esc < refund_amount
         then Inl (Contract InvalidAmount)
         else if st_reentrancy_guard s then Inl (Panic Reentrancy_detected)
         else
           bnd (execute_token_transfer env (s\<lparr>st_reentrancy_guard := True\<rparr>)
                  (current_contract_address env) refund_to refund_amount ''refund'') (\<lambda>s1.
             let remaining = remaining_amount esc - refund_amount;
                 new_status = (if is_full \<or> remaining = 0 then Refunded
                               else PartiallyRefunded);
                 entry = \<lparr>rr_amount = refund_amount, rr_recipient = refund_to,
                          rr_timestamp = now,
                          rr_mode = (if is_full then Full else Partial)\<rparr>;
                 esc' = esc\<lparr>remaining_amount := remaining, status := new_status,
                            refund_history := refund_history esc @ [entry]\<rparr>;
                 s2 = s1\<lparr>st_escrows := (st_escrows s1)(bounty_id \<mapsto> esc')\<rparr>
             in
               bnd (map_overflow (update_analytics_on_refund (st_metrics s2) bounty_id
                      refund_amount now)) (\<lambda>m.
                 let s3 = refund_counters (status esc) new_status refund_amount
                            (s2\<lparr>st_metrics := m\<rparr>);
                     s4 = emit (BountyActivityEvent bounty_id
                                 (if is_full then ''refunded'' else ''part_ref'')
                                 refund_amount now)
                         (emit (BountyStateTransitioned bounty_id ''locked''
                                 (if is_full \<or> remaining = 0 then ''refunded''
                                  else ''partial_r'')
                                 refund_amount refund_to now) s3);
                     s5 = (if approval \<noteq> None
                           then s4\<lparr>st_refund_approvals :=
                                    (st_refund_approvals s4)(bounty_id := None)\<rparr>
                           else s4)
                 in Inr ((emit (FundsRefunded bounty_id refund_amount refund_to now) s5)
                           \<lparr>st_reentrancy_guard := False\<rparr>))))))"

section \<open>Sweep of expired bounties\<close>

fun sweep_validate :: "'w env \<Rightarrow> 'w state \<Rightarrow> u64 list \<Rightarrow> unit bres" where
  "sweep_validate env s [] = Inr ()"
| "sweep_validate env s (bounty_id # ids) =
     bnd (load_refundable_escrow s bounty_id) (\<lambda>esc.
       if timestamp env < deadline esc then Inl (Contract DeadlineNotPassed)
       else if remaining_amount esc \<le> 0 then Inl (Contract InvalidAmount)
       else sweep_validate env s ids)"

definition sweep_one :: "'w env \<Rightarrow> 'w state \<Rightarrow> u64 \<Rightarrow> 'w state bres" where
  "sweep_one env s bounty_id =
     bnd (ok_or (st_escrows s bounty_id) (Panic Unwrap_none)) (\<lambda>esc.
       let now = timestamp env;
           refund_amount = remaining_amount esc;
           refund_to = depositor esc;
           previous_state = (if status esc = PartiallyRefunded then ''partial_r''
                             else ''locked'')
       in
         bnd (token_transfer env s (current_contract_address env) refund_to refund_amount)
           (\<lambda>s1.
              let esc' = esc\<lparr>remaining_amount := 0, status := Refunded,
                     refund_history := refund_history esc @
                       [\<lparr>rr_amount = refund_amount, rr_recipient = refund_to,
                         rr_timestamp = now, rr_mode = Full\<rparr>]\<rparr>;
                  s2 = (if status esc = Locked
                        then transition_locked_to_refunded refund_amount s1
                        else if status esc = PartiallyRefunded
                        then transition_partially_refunded_to_refunded refund_amount s1
                        else s1);
                  s3 = s2\<lparr>st_escrows := (st_escrows s2)(bounty_id \<mapsto> esc')\<rparr>
              in
                bnd (map_overflow (update_analytics_on_refund (st_metrics s3) bounty_id
                       refund_amount now)) (\<lambda>m.
                  Inr (emit (FundsRefunded bounty_id refund_amount refund_to now)
                      (emit (BountyExpired bounty_id refund_to refund_amount
                               (deadline esc) now)
                      (emit (BountyActivityEvent bounty_id ''refunded'' refund_amount now)
                      (emit (BountyStateTransitioned bounty_id previous_state ''refunded''
                               refund_amount refund_to now)
                        (s3\<lparr>st_metrics := m\<rparr>))))))))"

fun sweep_all :: "'w env \<Rightarrow> 'w state \<Rightarrow> u64 list \<Rightarrow> u32 \<Rightarrow> ('w state \<times> u32) bres" where
  "sweep_all env s [] n = Inr (s, n)"
| "sweep_all env s (bounty_id # ids) n =
     bnd (sweep_one env s bounty_id) (\<lambda>s1.
     bnd (ok_or (checked_add_u32 n 1) (Panic Arithmetic_overflow)) (\<lambda>n1.
       sweep_all env s1 ids n1))"

definition sweep_expired_refunds ::
    "'w env \<Rightarrow> 'w state \<Rightarrow> u64 list \<Rightarrow> ('w state \<times> u32) bres" where
  "sweep_expired_refunds env s bounty_ids =
     bnd (breaker_gate env s) (\<lambda>_.
     bnd (check_governance_requirements env s) (\<lambda>_.
       let batch_size = length bounty_ids in
       if batch_size = 0 \<or> MAX_BATCH_SIZE < batch_size then Inl (Contract InvalidBatchSize)
       else
         bnd (validate_unique_bounty_ids bounty_ids) (\<lambda>_.
         bnd (sweep_validate env s bounty_ids) (\<lambda>_.
           if check_paused s ''refund'' then Inl (Contract FundsPaused)
           else if st_reentrancy_guard s then Inl (Panic Reentrancy_detected)
           else
             bnd (ok_or (st_token s) (Panic Unwrap_none)) (\<lambda>_.
             bnd (sweep_all env (s\<lparr>st_reentrancy_guard := True\<rparr>) bounty_ids 0) (\<lambda>(s1, n).
               Inr (s1\<lparr>st_reentrancy_guard := False\<rparr>, n)))))))"

section \<open>Eligibility views\<close>

definition get_refund_eligibility ::
    "'w env \<Rightarrow> 'w state \<Rightarrow> u64 \<Rightarrow> (bool \<times> bool \<times> i128 \<times> refund_approval option) bres" where
  "get_refund_eligibility env s bounty_id =
     bnd (ok_or (st_escrows s bounty_id) (Contract BountyNotFound)) (\<lambda>esc.
       let deadline_passed = (deadline esc \<le> timestamp env);
           approval = st_refund_approvals s bounty_id;
           can_refund = ((status esc = Locked \<or> status esc = PartiallyRefunded) \<and>
                         (deadline_passed \<or> approval \<noteq> None))
       in Inr (can_refund, deadline_passed, remaining_amount esc, approval))"

definition get_refund_history :: "'w state \<Rightarrow> u64 \<Rightarrow> refund_record list bres" where
  "get_refund_history s bounty_id =
     bnd (ok_or (st_escrows s bounty_id) (Contract BountyNotFound))
       (\<lambda>esc. Inr (refund_history esc))"

definition get_escrow_info :: "'w state \<Rightarrow> u64 \<Rightarrow> escrow bres" where
  "get_escrow_info s bounty_id =
     bnd (ok_or (st_escrows s bounty_id) (Contract BountyNotFound)) (\<lambda>esc. Inr esc)"

definition get_balance :: "'w env \<Rightarrow> 'w state \<Rightarrow> i128 bres" where
  "get_balance env s =
     bnd (ok_or (st_token s) (Contract NotInitialized)) (\<lambda>token_addr.
       ok_or (tk_balance env token_addr (current_contract_address env) (st_world s))
         (Panic Token_trap))"

end
