(* ===== verification/BountyBatch.thy ===== *)
theory BountyBatch
  imports BountyRefund
begin

text \<open>
  The batch entrypoints of the bounty escrow contract. Both validate every item before
  they move any token; a failure in the processing loop reverts the whole call.
\<close>

section \<open>Batch lock\<close>

fun lock_validate :: "'w env \<Rightarrow> 'w state \<Rightarrow> lock_funds_item list \<Rightarrow> unit bres" where
  "lock_validate env s [] = Inr ()"
| "lock_validate env s (item # items) =
     (if st_escrows s (li_bounty_id item) \<noteq> None then Inl (Contract BountyExists)
      else if li_amount item \<le> 0 then Inl (Contract InvalidAmount)
      else
        bnd (check_amount_policy s (li_amount item)) (\<lambda>_.
          if li_deadline item \<le> timestamp env then Inl (Contract InvalidDeadline)
          else lock_validate env s items))"

text \<open>One \<open>require_auth\<close> per distinct depositor, in order of first appearance.\<close>

fun auth_depositors :: "'w env \<Rightarrow> lock_funds_item list \<Rightarrow> addr list \<Rightarrow> unit bres" where
  "auth_depositors env [] seen = Inr ()"
| "auth_depositors env (item # items) seen =
     (if li_depositor item \<in> set seen then auth_depositors env items seen
      else bnd (require_auth env (li_depositor item))
             (\<lambda>_. auth_depositors env items (seen @ [li_depositor item])))"

definition lock_one :: "'w env \<Rightarrow> 'w state \<Rightarrow> lock_funds_item \<Rightarrow> 'w state bres" where
  "lock_one env s item =
     bnd (token_transfer env s (li_depositor item) (current_contract_address env)
            (li_amount item)) (\<lambda>s1.
       Inr (emit (FundsLocked (li_bounty_id item) (li_amount item) (li_depositor item)
                    (li_deadline item))
              (store_new_escrow env (li_depositor item) (li_bounty_id item) (li_amount item)
                 (li_deadline item) s1)))"

fun lock_all ::
    "'w env \<Rightarrow> 'w state \<Rightarrow> lock_funds_item list \<Rightarrow> u32 \<Rightarrow> ('w state \<times> u32) bres" where
  "lock_all env s [] n = Inr (s, n)"
| "lock_all env s (item # items) n =
     bnd (lock_one env s item) (\<lambda>s1.
     bnd (ok_or (checked_add_u32 n 1) (Panic Arithmetic_overflow)) (\<lambda>n1.
       lock_all env s1 items n1))"

text \<open>\<open>iter().sum()\<close>, which panics when a partial sum leaves the range.\<close>

fun sum_i128 :: "i128 list \<Rightarrow> i128 \<Rightarrow> i128 bres" where
  "sum_i128 [] acc = Inr acc"
| "sum_i128 (x # xs) acc =
     bnd (ok_or (checked_add_i128 acc x) (Panic Arithmetic_overflow)) (\<lambda>acc'. sum_i128 xs acc')"

definition batch_lock_funds ::
    "'w env \<Rightarrow> 'w state \<Rightarrow> lock_funds_item list \<Rightarrow> ('w state \<times> u32) bres" where
  "batch_lock_funds env s items =
     bnd (breaker_gate env s) (\<lambda>_.
       let batch_size = length items in
       if batch_size = 0 then Inl (Contract InvalidBatchSize)
       else if MAX_BATCH_SIZE < batch_size then Inl (Contract InvalidBatchSize)
       else if st_admin s = None then Inl (Contract NotInitialized)
       else
         bnd (validate_unique_bounty_ids (map li_bounty_id items)) (\<lambda>_.
           if check_paused s ''lock'' then Inl (Contract FundsPaused)
           else
             bnd (ok_or (st_token s) (Panic Unwrap_none)) (\<lambda>_.
             bnd (lock_validate env s items) (\<lambda>_.
             bnd (auth_depositors env items []) (\<lambda>_.
             bnd (lock_all env s items 0) (\<lambda>(s1, locked_count).
             bnd (sum_i128 (map li_amount items) 0) (\<lambda>total.
               Inr (emit (BatchFundsLocked locked_count total (timestamp env)) s1,
                    locked_count))))))))"

section \<open>Batch release\<close>

fun release_validate ::
    "'w state \<Rightarrow> release_funds_item list \<Rightarrow> i128 \<Rightarrow> i128 bres" where
  "release_validate s [] acc = Inr acc"
| "release_validate s (item # items) acc =
     bnd (ok_or (st_escrows s (ri_bounty_id item)) (Contract BountyNotFound)) (\<lambda>esc.
       if status esc \<noteq> Locked then Inl (Contract FundsNotLocked)
       else if st_claims s (ri_bounty_id item) \<noteq> None then Inl (Contract RefundNotApproved)
       else bnd (ok_or (checked_add_i128 acc (amount esc)) (Contract InvalidAmount))
              (\<lambda>acc'. release_validate s items acc'))"

definition release_one :: "'w env \<Rightarrow> 'w state \<Rightarrow> release_funds_item \<Rightarrow> 'w state bres" where
  "release_one env s item =
     (let bounty_id = ri_bounty_id item in
      bnd (ok_or (st_escrows s bounty_id) (Panic Unwrap_none)) (\<lambda>esc.
      bnd (token_transfer env s (current_contract_address env) (ri_contributor item)
             (amount esc)) (\<lambda>s1.
        let s2 = s1\<lparr>st_escrows := (st_escrows s1)
               (bounty_id \<mapsto> esc\<lparr>status := Released, remaining_amount := 0\<rparr>)\<rparr>;
            s3 = transition_locked_to_released (amount esc) s2
        in
          bnd (map_overflow (update_analytics_on_release (st_metrics s3) bounty_id
                 (amount esc) (timestamp env))) (\<lambda>m.
            Inr (emit (FundsReleased bounty_id (amount esc) (ri_contributor item)
                         (timestamp env))
                   (s3\<lparr>st_metrics := m\<rparr>))))))"

fun release_all ::
    "'w env \<Rightarrow> 'w state \<Rightarrow> release_funds_item list \<Rightarrow> u32 \<Rightarrow> ('w state \<times> u32) bres" where
  "release_all env s [] n = Inr (s, n)"
| "release_all env s (item # items) n =
     bnd (release_one env s item) (\<lambda>s1.
     bnd (ok_or (checked_add_u32 n 1) (Panic Arithmetic_overflow)) (\<lambda>n1.
       release_all env s1 items n1))"

definition batch_release_funds ::
    "'w env \<Rightarrow> 'w state \<Rightarrow> release_funds_item list \<Rightarrow> ('w state \<times> u32) bres" where
  "batch_release_funds env s items =
     bnd (breaker_gate env s) (\<lambda>_.
     bnd (check_governance_requirements env s) (\<lambda>_.
       let batch_size = length items in
       if batch_size = 0 then Inl (Contract InvalidBatchSize)
       else if MAX_BATCH_SIZE < batch_size then Inl (Contract InvalidBatchSize)
       else
         bnd (require_admin env s) (\<lambda>_.
         bnd (validate_unique_bounty_ids (map ri_bounty_id items)) (\<lambda>_.
           if check_paused s ''release'' then Inl (Contract FundsPaused)
           else
             bnd (ok_or (st_token s) (Panic Unwrap_none)) (\<lambda>_.
             bnd (release_validate s items 0) (\<lambda>total_amount.
             bnd (release_all env s items 0) (\<lambda>(s1, released_count).
               Inr (emit (BatchFundsReleased released_count total_amount (timestamp env)) s1,
                    released_count))))))))"

end
