(* ===== verification/BountyQueries.thy ===== *)
theory BountyQueries
  imports BountyBatch
begin

text \<open>
  The read-only side of the bounty escrow contract: the paginated scans over the escrow
  index, the aggregate statistics from the counters and from a full scan, and the
  per-status and per-depositor summaries.
\<close>

section \<open>Paginated scans\<close>

text \<open>
  The loop that six queries repeat: it stops once \<open>limit\<close> results are collected, looks
  each id of the index up, and skips the first \<open>offset\<close> matches. \<open>out\<close> builds what is
  pushed on the result.
\<close>

fun scan_loop ::
    "'w state \<Rightarrow> (escrow \<Rightarrow> bool) \<Rightarrow> (u64 \<Rightarrow> escrow \<Rightarrow> 'r) \<Rightarrow> u32 \<Rightarrow> u32 \<Rightarrow> u64 list
      \<Rightarrow> u32 \<Rightarrow> u32 \<Rightarrow> 'r list \<Rightarrow> 'r list" where
  "scan_loop s keep out offset limit [] count skipped results = results"
| "scan_loop s keep out offset limit (bounty_id # ids) count skipped results =
     (if limit \<le> count then results
      else case st_escrows s bounty_id of
          None \<Rightarrow> scan_loop s keep out offset limit ids count skipped results
        | Some esc \<Rightarrow>
            if keep esc then
              if skipped < offset
              then scan_loop s keep out offset limit ids count (skipped + 1) results
              else scan_loop s keep out offset limit ids (count + 1) skipped
                     (results @ [out bounty_id esc])
            else scan_loop s keep out offset limit ids count skipped results)"

definition with_id :: "u64 \<Rightarrow> escrow \<Rightarrow> escrow_with_id" where
  "with_id bounty_id esc = \<lparr>ewi_bounty_id = bounty_id, ewi_escrow = esc\<rparr>"

definition query_escrows_by_status ::
    "'w state \<Rightarrow> escrow_status \<Rightarrow> u32 \<Rightarrow> u32 \<Rightarrow> escrow_with_id list" where
  "query_escrows_by_status s st offset limit =
     scan_loop s (\<lambda>esc. status esc = st) with_id offset (min limit MAX_QUERY_LIMIT)
       (escrow_index s) 0 0 []"

definition query_escrows_by_amount ::
    "'w state \<Rightarrow> i128 \<Rightarrow> i128 \<Rightarrow> u32 \<Rightarrow> u32 \<Rightarrow> escrow_with_id list" where
  "query_escrows_by_amount s min_amt max_amt offset limit =
     scan_loop s (\<lambda>esc. min_amt \<le> amount esc \<and> amount esc \<le> max_amt) with_id offset
       (min limit MAX_QUERY_LIMIT) (escrow_index s) 0 0 []"

definition query_escrows_by_deadline ::
    "'w state \<Rightarrow> u64 \<Rightarrow> u64 \<Rightarrow> u32 \<Rightarrow> u32 \<Rightarrow> escrow_with_id list" where
  "query_escrows_by_deadline s min_dl max_dl offset limit =
     scan_loop s (\<lambda>esc. min_dl \<le> deadline esc \<and> deadline esc \<le> max_dl) with_id offset
       (min limit MAX_QUERY_LIMIT) (escrow_index s) 0 0 []"

definition get_escrow_ids_by_status ::
    "'w state \<Rightarrow> escrow_status \<Rightarrow> u32 \<Rightarrow> u32 \<Rightarrow> u64 list" where
  "get_escrow_ids_by_status s st offset limit =
     scan_loop s (\<lambda>esc. status esc = st) (\<lambda>bounty_id esc. bounty_id) offset
       (min limit MAX_QUERY_LIMIT) (escrow_index s) 0 0 []"

definition query_expiring_bounties :: "'w state \<Rightarrow> u64 \<Rightarrow> u32 \<Rightarrow> u32 \<Rightarrow> u64 list" where
  "query_expiring_bounties s max_dl offset limit =
     scan_loop s
       (\<lambda>esc. (status esc = Locked \<or> status esc = PartiallyRefunded) \<and> deadline esc \<le> max_dl)
       (\<lambda>bounty_id esc. bounty_id) offset (min limit MAX_QUERY_LIMIT) (escrow_index s) 0 0 []"

text \<open>This loop has no offset; it never skips.\<close>

definition get_high_value_bounties :: "'w state \<Rightarrow> i128 \<Rightarrow> u32 \<Rightarrow> u64 list" where
  "get_high_value_bounties s min_amt limit =
     scan_loop s
       (\<lambda>esc. (status esc = Locked \<or> status esc = PartiallyRefunded) \<and>
              min_amt \<le> remaining_amount esc)
       (\<lambda>bounty_id esc. bounty_id) 0 (min limit MAX_QUERY_LIMIT) (escrow_index s) 0 0 []"

definition filter_matches :: "escrow_query_filter \<Rightarrow> escrow \<Rightarrow> bool" where
  "filter_matches f esc \<longleftrightarrow>
     \<not> (has_status_filter f \<and> status esc \<noteq> f_status f) \<and>
     \<not> (has_depositor_filter f \<and> depositor esc \<noteq> f_depositor f) \<and>
     \<not> (0 < min_amount f \<and> amount esc < min_amount f) \<and>
     \<not> (max_amount f < i128_max \<and> max_amount f < amount esc) \<and>
     \<not> (0 < min_deadline f \<and> deadline esc < min_deadline f) \<and>
     \<not> (max_deadline f < u64_max \<and> max_deadline f < deadline esc)"

definition query_escrows ::
    "'w state \<Rightarrow> escrow_query_filter \<Rightarrow> u32 \<Rightarrow> u32 \<Rightarrow> escrow_with_id list" where
  "query_escrows s f offset limit =
     scan_loop s (filter_matches f) with_id offset (min limit MAX_QUERY_LIMIT)
       (if has_depositor_filter f then depositor_index s (f_depositor f) else escrow_index s)
       0 0 []"

text \<open>
  \<open>query_escrows_by_depositor\<close> pages over positions of the depositor's index; the sum
  \<open>offset + limit\<close> is a checked \<open>u32\<close> addition, and \<open>limit\<close> is not capped.
\<close>

fun collect_escrows :: "'w state \<Rightarrow> u64 list \<Rightarrow> escrow_with_id list" where
  "collect_escrows s [] = []"
| "collect_escrows s (bounty_id # ids) =
     (case st_escrows s bounty_id of
        None \<Rightarrow> collect_escrows s ids
      | Some esc \<Rightarrow> with_id bounty_id esc # collect_escrows s ids)"

definition query_escrows_by_depositor ::
    "'w state \<Rightarrow> addr \<Rightarrow> u32 \<Rightarrow> u32 \<Rightarrow> escrow_with_id list bres" where
  "query_escrows_by_depositor s dep offset limit =
     (let index = depositor_index s dep;
          start = min offset (length index)
      in bnd (ok_or (checked_add_u32 offset limit) (Panic Arithmetic_overflow)) (\<lambda>upto.
           let stop = min upto (length index)
           in Inr (collect_escrows s (take (stop - start) (drop start index)))))"

section \<open>Aggregate statistics\<close>

definition get_aggregate_stats :: "'w state \<Rightarrow> aggregate_stats" where
  "get_aggregate_stats s = get_counters s"

fun sum_refunds :: "refund_record list \<Rightarrow> i128 \<Rightarrow> i128 bres" where
  "sum_refunds [] acc = Inr acc"
| "sum_refunds (r # rs) acc =
     bnd (ok_or (checked_add_i128 acc (rr_amount r)) (Panic Arithmetic_overflow))
       (\<lambda>acc'. sum_refunds rs acc')"

definition scan_stats_one :: "escrow \<Rightarrow> aggregate_stats \<Rightarrow> aggregate_stats bres" where
  "scan_stats_one esc stats =
     bnd (sum_refunds (refund_history esc) 0) (\<lambda>refund_sum.
     bnd (sub_i128 (amount esc) (remaining_amount esc)) (\<lambda>gone.
     bnd (sub_i128 gone refund_sum) (\<lambda>released_sum.
     bnd (add_i128 (total_released stats) released_sum) (\<lambda>released.
     bnd (add_i128 (total_refunded stats) refund_sum) (\<lambda>refunded.
       let stats1 = stats\<lparr>total_released := released, total_refunded := refunded\<rparr> in
       if status esc = Locked \<or> status esc = PartiallyRefunded then
         bnd (add_i128 (total_locked stats1) (remaining_amount esc)) (\<lambda>locked.
         bnd (add_u32 (count_locked stats1) 1) (\<lambda>n.
           Inr (stats1\<lparr>total_locked := locked, count_locked := n\<rparr>)))
       else if status esc = Released then
         bnd (add_u32 (count_released stats1) 1) (\<lambda>n. Inr (stats1\<lparr>count_released := n\<rparr>))
       else
         bnd (add_u32 (count_refunded stats1) 1) (\<lambda>n. Inr (stats1\<lparr>count_refunded := n\<rparr>)))))))"

fun scan_stats :: "'w state \<Rightarrow> u64 list \<Rightarrow> aggregate_stats \<Rightarrow> aggregate_stats bres" where
  "scan_stats s [] stats = Inr stats"
| "scan_stats s (bounty_id # ids) stats =
     (case st_escrows s bounty_id of
        None \<Rightarrow> scan_stats s ids stats
      | Some esc \<Rightarrow> bnd (scan_stats_one esc stats) (\<lambda>stats'. scan_stats s ids stats'))"

definition get_aggregate_stats_full_scan :: "'w state \<Rightarrow> aggregate_stats bres" where
  "get_aggregate_stats_full_scan s = scan_stats s (escrow_index s) zero_stats"

definition get_total_bounties_created :: "'w state \<Rightarrow> u32" where
  "get_total_bounties_created s = length (escrow_index s)"

definition get_escrow_count :: "'w state \<Rightarrow> u32" where
  "get_escrow_count s = get_total_bounties_created s"

section \<open>Analytics views\<close>

definition get_bounty_analytics :: "'w state \<Rightarrow> u64 \<Rightarrow> bounty_analytics bres" where
  "get_bounty_analytics s bounty_id =
     ok_or (lookup_bounty_analytics (st_metrics s) bounty_id) (Contract BountyNotFound)"

definition get_contract_analytics :: "'w env \<Rightarrow> 'w state \<Rightarrow> contract_analytics" where
  "get_contract_analytics env s =
     (let stats = get_counters s;
          total_count = sat_add_i128 (sat_add_i128 (int (count_locked stats))
                          (int (count_released stats))) (int (count_refunded stats));
          average = (if 0 < total_count
             then sat_add_i128 (sat_add_i128 (total_locked stats) (total_released stats))
                    (total_refunded stats) sdiv total_count
             else 0)
      in \<lparr>active_bounty_count = count_locked stats,
          released_bounty_count = count_released stats,
          refunded_bounty_count = count_refunded stats,
          ca_total_locked = total_locked stats,
          ca_total_released = total_released stats,
          ca_total_refunded = total_refunded stats,
          average_bounty_amount = average,
          snapshot_timestamp = timestamp env\<rparr>)"

definition emit_analytics_snapshot_event :: "'w env \<Rightarrow> 'w state \<Rightarrow> 'w state" where
  "emit_analytics_snapshot_event env s =
     emit (AnalyticsSnapshot (get_contract_analytics env s)) s"

fun count_status :: "'w state \<Rightarrow> escrow_status \<Rightarrow> u64 list \<Rightarrow> u32 \<Rightarrow> u32 bres" where
  "count_status s st [] count = Inr count"
| "count_status s st (bounty_id # ids) count =
     (case st_escrows s bounty_id of
        None \<Rightarrow> count_status s st ids count
      | Some esc \<Rightarrow>
          if status esc = st then bnd (add_u32 count 1) (\<lambda>n. count_status s st ids n)
          else count_status s st ids count)"

definition count_by_status_full_scan :: "'w state \<Rightarrow> escrow_status \<Rightarrow> u32 bres" where
  "count_by_status_full_scan s st = count_status s st (escrow_index s) 0"

definition count_bounties_by_status :: "'w state \<Rightarrow> escrow_status \<Rightarrow> u32 bres" where
  "count_bounties_by_status s st =
     (let stats = get_counters s in
      case st of
        Locked \<Rightarrow> Inr (count_locked stats)
      | Released \<Rightarrow> Inr (count_released stats)
      | Refunded \<Rightarrow> Inr (count_refunded stats)
      | PartiallyRefunded \<Rightarrow> count_by_status_full_scan s st)"

fun volume_status :: "'w state \<Rightarrow> escrow_status \<Rightarrow> u64 list \<Rightarrow> i128 \<Rightarrow> i128" where
  "volume_status s st [] acc = acc"
| "volume_status s st (bounty_id # ids) acc =
     (case st_escrows s bounty_id of
        None \<Rightarrow> volume_status s st ids acc
      | Some esc \<Rightarrow>
          if status esc = st then
            volume_status s st ids (sat_add_i128 acc
              (if st = Locked \<or> st = PartiallyRefunded then remaining_amount esc
               else amount esc))
          else volume_status s st ids acc)"

definition volume_by_status_full_scan :: "'w state \<Rightarrow> escrow_status \<Rightarrow> i128" where
  "volume_by_status_full_scan s st = volume_status s st (escrow_index s) 0"

definition get_volume_by_status :: "'w state \<Rightarrow> escrow_status \<Rightarrow> i128" where
  "get_volume_by_status s st =
     (let stats = get_counters s in
      case st of
        Locked \<Rightarrow> total_locked stats
      | Released \<Rightarrow> total_released stats
      | Refunded \<Rightarrow> total_refunded stats
      | PartiallyRefunded \<Rightarrow> volume_by_status_full_scan s st)"

text \<open>The tuple of counts and amounts, in the order the function returns it.\<close>

type_synonym depositor_stats = "u32 \<times> i128 \<times> u32 \<times> i128 \<times> u32 \<times> i128"

fun depositor_scan :: "'w state \<Rightarrow> u64 list \<Rightarrow> depositor_stats \<Rightarrow> depositor_stats bres" where
  "depositor_scan s [] acc = Inr acc"
| "depositor_scan s (bounty_id # ids) (lc, la, rc, ra, fc, fa) =
     (case st_escrows s bounty_id of
        None \<Rightarrow> depositor_scan s ids (lc, la, rc, ra, fc, fa)
      | Some esc \<Rightarrow>
          if status esc = Locked \<or> status esc = PartiallyRefunded then
            bnd (add_u32 lc 1) (\<lambda>n. depositor_scan s ids
              (n, sat_add_i128 la (remaining_amount esc), rc, ra, fc, fa))
          else if status esc = Released then
            bnd (add_u32 rc 1) (\<lambda>n. depositor_scan s ids
              (lc, la, n, sat_add_i128 ra (amount esc), fc, fa))
          else
            bnd (add_u32 fc 1) (\<lambda>n. depositor_scan s ids
              (lc, la, rc, ra, n, sat_add_i128 fa (amount esc))))"

definition get_depositor_stats :: "'w state \<Rightarrow> addr \<Rightarrow> depositor_stats bres" where
  "get_depositor_stats s dep =
     depositor_scan s (depositor_index s dep) (0, 0, 0, 0, 0, 0)"

section \<open>What the scans compute\<close>

definition matches :: "'w state \<Rightarrow> (escrow \<Rightarrow> bool) \<Rightarrow> u64 \<Rightarrow> bool" where
  "matches s keep b \<longleftrightarrow> (case st_escrows s b of None \<Rightarrow> False | Some e \<Rightarrow> keep e)"

abbreviation escrow_at :: "'w state \<Rightarrow> u64 \<Rightarrow> escrow" where
  "escrow_at s b \<equiv> the (st_escrows s b)"

definition page ::
    "'w state \<Rightarrow> (escrow \<Rightarrow> bool) \<Rightarrow> u32 \<Rightarrow> u32 \<Rightarrow> u64 list \<Rightarrow> u64 list" where
  "page s keep offset limit ids = take limit (drop offset (filter (matches s keep) ids))"

lemma scan_loop_page:
  "count \<le> limit \<Longrightarrow> skipped \<le> offset \<Longrightarrow>
   scan_loop s keep out offset limit ids count skipped results =
     results @ map (\<lambda>b. out b (escrow_at s b))
       (page s keep (offset - skipped) (limit - count) ids)"
proof (induction ids arbitrary: count skipped results)
  case (Cons b ids)
  show ?case
  proof (cases "limit \<le> count")
    case False
    then show ?thesis
    proof (cases "matches s keep b")
      case True
      then obtain e where e: "st_escrows s b = Some e" "keep e"
        by (auto simp: matches_def split: option.splits)
      show ?thesis
      proof (cases "skipped < offset")
        case True
        then show ?thesis
          using Cons.IH [of count "skipped + 1" results] Cons.prems False e
          by (simp add: page_def matches_def drop_Cons' )
      next
        case no_skip: False
        have "limit - count = Suc (limit - (count + 1))" using False by simp
        then show ?thesis
          using Cons.IH [of "count + 1" skipped "results @ [out b e]"] Cons.prems False e no_skip
          by (simp add: page_def matches_def)
      qed
    next
      case no_match: False
      then show ?thesis
        using Cons False by (auto simp: page_def matches_def split: option.splits)
    qed
  qed (use Cons.prems in \<open>simp add: page_def\<close>)
qed (simp add: page_def)

lemma scan_loop_start:
  "scan_loop s keep out offset limit ids 0 0 [] =
     map (\<lambda>b. out b (escrow_at s b)) (page s keep offset limit ids)"
  by (simp add: scan_loop_page)

lemma collect_escrows_map:
  "collect_escrows s ids = map (\<lambda>b. with_id b (escrow_at s b)) (filter (matches s (\<lambda>_. True)) ids)"
  by (induction ids) (auto simp: matches_def split: option.splits)

lemmas query_defs = query_escrows_by_status_def query_escrows_by_amount_def
  query_escrows_by_deadline_def get_escrow_ids_by_status_def query_expiring_bounties_def
  get_high_value_bounties_def query_escrows_def

section \<open>Properties\<close>

text \<open>
  Every paginated query returns exactly the page of the index it is asked for: the
  matching ids in index order, the first \<open>offset\<close> of them skipped, then as many as the
  limit allows, and never more than 100.
\<close>

theorem paginated_queries_exact:
  "map ewi_bounty_id (query_escrows_by_status s st offset limit) =
     page s (\<lambda>e. status e = st) offset (min limit 100) (escrow_index s) \<and>
   map ewi_bounty_id (query_escrows_by_amount s lo hi offset limit) =
     page s (\<lambda>e. lo \<le> amount e \<and> amount e \<le> hi) offset (min limit 100) (escrow_index s) \<and>
   map ewi_bounty_id (query_escrows_by_deadline s d1 d2 offset limit) =
     page s (\<lambda>e. d1 \<le> deadline e \<and> deadline e \<le> d2) offset (min limit 100)
       (escrow_index s) \<and>
   get_escrow_ids_by_status s st offset limit =
     page s (\<lambda>e. status e = st) offset (min limit 100) (escrow_index s) \<and>
   query_expiring_bounties s d2 offset limit =
     page s (\<lambda>e. (status e = Locked \<or> status e = PartiallyRefunded) \<and> deadline e \<le> d2)
       offset (min limit 100) (escrow_index s) \<and>
   get_high_value_bounties s lo limit =
     page s (\<lambda>e. (status e = Locked \<or> status e = PartiallyRefunded) \<and>
         lo \<le> remaining_amount e) 0 (min limit 100) (escrow_index s)"
  by (simp add: query_defs scan_loop_start with_id_def MAX_QUERY_LIMIT_def comp_def)

text \<open>
  The pages of a status query tile the result: the page at \<open>offset\<close> followed by the page
  right after it is the page of the two lengths together, so a client that advances by the
  page size sees every match once.
\<close>

theorem status_pages_tile:
  assumes "n + m \<le> 100"
  shows "get_escrow_ids_by_status s st offset n @ get_escrow_ids_by_status s st (offset + n) m =
    get_escrow_ids_by_status s st offset (n + m)"
  using assms
  by (simp add: query_defs scan_loop_start MAX_QUERY_LIMIT_def page_def take_add drop_drop
      add.commute [of offset n])

definition three_escrows :: "unit state" where
  "three_escrows = (initial_state ())\<lparr>st_index := Some [4, 5, 6],
    st_escrows := (\<lambda>b. Some \<lparr>depositor = 2, amount = 9, remaining_amount = 9, status = Locked,
      deadline = 50, refund_history = []\<rparr>)\<rparr>"

lemma status_pages_tile_witness:
  "get_escrow_ids_by_status three_escrows Locked 0 2 = [4, 5] \<and>
   get_escrow_ids_by_status three_escrows Locked 0 2 @
     get_escrow_ids_by_status three_escrows Locked 2 1 = [4, 5, 6]"
  using status_pages_tile [of 2 1 three_escrows Locked 0]
  by (simp add: query_defs scan_loop_start page_def matches_def MAX_QUERY_LIMIT_def
      three_escrows_def escrow_index_def)

end
