(* ===== verification/BountyLedger.thy ===== *)
theory BountyLedger
  imports BountyRefund
begin

text \<open>
  The abstract contract of the fund-moving entrypoints: a book of escrows with its indexes,
  pending claims, counters and the token balance that backs it, and the moves that may
  change it. Every call of the contract is a sequence of these moves (BountySystem), so what
  holds of the book is proved once per move: well-formedness, the life cycle of an escrow,
  solvency and the agreement of the counters with a scan.
\<close>

section \<open>The book\<close>

record book =
  bk_escrows :: "u64 \<rightharpoonup> escrow"
  bk_index :: "u64 list"
  bk_depositor :: "addr \<Rightarrow> u64 list"
  bk_claims :: "u64 \<rightharpoonup> claim_record"
  bk_counters :: aggregate_stats
  bk_held :: int

text \<open>
  A move carries what decides whether it is clean: the amount a release pays out against
  what remained, and the amount of a refund that counts as full.
\<close>

datatype move =
    M_idle
  | M_lock u64 addr i128 u64
  | M_authorize u64
  | M_cancel u64
  | M_claim u64 i128
  | M_release u64 i128 i128
  | M_pay u64 i128
  | M_refund u64 i128 bool i128

fun clean :: "move \<Rightarrow> bool" where
  "clean (M_release b paid remaining) \<longleftrightarrow> paid = remaining"
| "clean (M_refund b amt is_full remaining) \<longleftrightarrow> (is_full \<longrightarrow> amt = remaining)"
| "clean _ \<longleftrightarrow> True"

definition released_status :: "i128 \<Rightarrow> escrow_status" where
  "released_status remaining = (if remaining = 0 then Released else Locked)"

definition pay_stats :: "i128 \<Rightarrow> i128 \<Rightarrow> aggregate_stats \<Rightarrow> aggregate_stats" where
  "pay_stats amt remaining c =
     (if remaining = 0 then finalized_stats (part_released_stats amt c)
      else part_released_stats amt c)"

definition refund_stats ::
    "escrow_status \<Rightarrow> escrow_status \<Rightarrow> i128 \<Rightarrow> aggregate_stats \<Rightarrow> aggregate_stats" where
  "refund_stats st st' amt c =
     (if st' = Refunded
      then (if st = Locked then refunded_stats amt c else final_refunded_stats amt c)
      else part_refunded_stats amt c)"

definition live :: "escrow \<Rightarrow> bool" where
  "live e \<longleftrightarrow> status e = Locked \<or> status e = PartiallyRefunded"

definition new_escrow :: "addr \<Rightarrow> i128 \<Rightarrow> u64 \<Rightarrow> escrow" where
  "new_escrow dep amt dl =
     \<lparr>depositor = dep, amount = amt, remaining_amount = amt, status = Locked, deadline = dl,
      refund_history = []\<rparr>"

definition paid_out :: "escrow \<Rightarrow> escrow" where
  "paid_out e = e\<lparr>status := Released, remaining_amount := 0\<rparr>"

definition after_pay :: "escrow \<Rightarrow> i128 \<Rightarrow> escrow" where
  "after_pay e amt =
     e\<lparr>remaining_amount := remaining_amount e - amt,
       status := released_status (remaining_amount e - amt)\<rparr>"

definition refund_status :: "escrow \<Rightarrow> i128 \<Rightarrow> bool \<Rightarrow> escrow_status" where
  "refund_status e amt is_full =
     (if is_full \<or> remaining_amount e - amt = 0 then Refunded else PartiallyRefunded)"

definition after_refund :: "escrow \<Rightarrow> i128 \<Rightarrow> bool \<Rightarrow> refund_record \<Rightarrow> escrow" where
  "after_refund e amt is_full entry =
     e\<lparr>remaining_amount := remaining_amount e - amt,
       status := refund_status e amt is_full,
       refund_history := refund_history e @ [entry]\<rparr>"

inductive bstep :: "book \<Rightarrow> move \<Rightarrow> book \<Rightarrow> bool" where
  idle: "bk_held k \<le> h \<Longrightarrow> bstep k M_idle (k\<lparr>bk_held := h\<rparr>)"
| lock: "bk_escrows k b = None \<Longrightarrow> 0 \<le> amt \<Longrightarrow> h = bk_held k + amt \<Longrightarrow>
    bstep k (M_lock b dep amt dl)
      (k\<lparr>bk_escrows := (bk_escrows k)(b \<mapsto> new_escrow dep amt dl),
         bk_index := bk_index k @ [b],
         bk_depositor := (bk_depositor k)(dep := bk_depositor k dep @ [b]),
         bk_counters := locked_stats amt (bk_counters k), bk_held := h\<rparr>)"
| authorize: "bk_escrows k b = Some e \<Longrightarrow> status e = Locked \<Longrightarrow> \<not> claimed cl \<Longrightarrow>
    cl_amount cl = remaining_amount e \<Longrightarrow>
    bstep k (M_authorize b) (k\<lparr>bk_claims := (bk_claims k)(b \<mapsto> cl)\<rparr>)"
| cancel: "bk_claims k b = Some cl \<Longrightarrow> \<not> claimed cl \<Longrightarrow>
    bstep k (M_cancel b) (k\<lparr>bk_claims := (bk_claims k)(b := None)\<rparr>)"
| claim: "bk_claims k b = Some cl \<Longrightarrow> \<not> claimed cl \<Longrightarrow> bk_escrows k b = Some e \<Longrightarrow>
    0 \<le> cl_amount cl \<Longrightarrow> bk_held k - cl_amount cl \<le> h \<Longrightarrow>
    bstep k (M_claim b (cl_amount cl))
      (k\<lparr>bk_escrows := (bk_escrows k)(b \<mapsto> paid_out e),
         bk_claims := (bk_claims k)(b \<mapsto> cl\<lparr>claimed := True\<rparr>),
         bk_counters := released_stats (cl_amount cl) (bk_counters k), bk_held := h\<rparr>)"
| release: "bk_escrows k b = Some e \<Longrightarrow> status e = Locked \<Longrightarrow> bk_claims k b = None \<Longrightarrow>
    bk_held k - amount e \<le> h \<Longrightarrow>
    bstep k (M_release b (amount e) (remaining_amount e))
      (k\<lparr>bk_escrows := (bk_escrows k)(b \<mapsto> paid_out e),
         bk_counters := released_stats (amount e) (bk_counters k), bk_held := h\<rparr>)"
| pay: "bk_escrows k b = Some e \<Longrightarrow> status e = Locked \<Longrightarrow> bk_claims k b = None \<Longrightarrow>
    0 < amt \<Longrightarrow> amt \<le> remaining_amount e \<Longrightarrow> bk_held k - amt \<le> h \<Longrightarrow>
    bstep k (M_pay b amt)
      (k\<lparr>bk_escrows := (bk_escrows k)(b \<mapsto> after_pay e amt),
         bk_counters := pay_stats amt (remaining_amount e - amt) (bk_counters k),
         bk_held := h\<rparr>)"
| refund: "bk_escrows k b = Some e \<Longrightarrow> live e \<Longrightarrow> bk_claims k b = None \<Longrightarrow>
    0 < amt \<Longrightarrow> amt \<le> remaining_amount e \<Longrightarrow> rr_amount entry = amt \<Longrightarrow>
    bk_held k - amt \<le> h \<Longrightarrow>
    bstep k (M_refund b amt is_full (remaining_amount e))
      (k\<lparr>bk_escrows := (bk_escrows k)(b \<mapsto> after_refund e amt is_full entry),
         bk_counters := refund_stats (status e) (refund_status e amt is_full) amt
                          (bk_counters k),
         bk_held := h\<rparr>)"

inductive bsteps :: "book \<Rightarrow> move list \<Rightarrow> book \<Rightarrow> bool" where
  done_moves: "bsteps k [] k"
| more_moves: "bstep k m k1 \<Longrightarrow> bsteps k1 ms k2 \<Longrightarrow> bsteps k (m # ms) k2"

lemmas move_defs = new_escrow_def paid_out_def after_pay_def after_refund_def
  released_status_def refund_status_def live_def

inductive_cases bstep_releaseE: "bstep k (M_release b p r) k'"
inductive_cases bstep_refundE: "bstep k (M_refund b a f r) k'"

lemma bsteps_single: "bstep k m k' \<Longrightarrow> bsteps k [m] k'"
  by (blast intro: done_moves more_moves)

lemma bsteps_append: "bsteps k ms k1 \<Longrightarrow> bsteps k1 ms' k2 \<Longrightarrow> bsteps k (ms @ ms') k2"
  by (induction rule: bsteps.induct) (auto intro: more_moves)

text \<open>A property that every move keeps, under a condition on the move, is kept by a run.\<close>

lemma bsteps_preserve:
  assumes "bsteps k ms k'" and "P k" and "list_all good ms"
    and "\<And>k m k'. bstep k m k' \<Longrightarrow> good m \<Longrightarrow> P k \<Longrightarrow> P k'"
  shows "P k'"
  using assms by (induction rule: bsteps.induct) auto

section \<open>Well-formed books\<close>

definition refund_sum :: "escrow \<Rightarrow> int" where
  "refund_sum e = (\<Sum>r\<leftarrow>refund_history e. rr_amount r)"

definition released_sum :: "escrow \<Rightarrow> int" where
  "released_sum e = amount e - remaining_amount e - refund_sum e"

definition escrow_ok :: "escrow \<Rightarrow> bool" where
  "escrow_ok e \<longleftrightarrow> 0 \<le> remaining_amount e \<and> 0 \<le> refund_sum e \<and> 0 \<le> released_sum e \<and>
     (status e = Locked \<longrightarrow> refund_history e = []) \<and>
     (status e = Released \<longrightarrow> remaining_amount e = 0) \<and>
     (status e = PartiallyRefunded \<longrightarrow> 0 < remaining_amount e)"

definition index_ok :: "book \<Rightarrow> bool" where
  "index_ok k \<longleftrightarrow> distinct (bk_index k) \<and> set (bk_index k) = dom (bk_escrows k)"

definition depositors_ok :: "book \<Rightarrow> bool" where
  "depositors_ok k \<longleftrightarrow> (\<forall>a. distinct (bk_depositor k a) \<and>
     set (bk_depositor k a) = {b. \<exists>e. bk_escrows k b = Some e \<and> depositor e = a})"

definition escrows_ok :: "book \<Rightarrow> bool" where
  "escrows_ok k \<longleftrightarrow> (\<forall>b e. bk_escrows k b = Some e \<longrightarrow> escrow_ok e)"

definition claims_ok :: "book \<Rightarrow> bool" where
  "claims_ok k \<longleftrightarrow> (\<forall>b cl. bk_claims k b = Some cl \<longrightarrow>
     (\<exists>e. bk_escrows k b = Some e \<and>
        (if claimed cl then status e = Released
         else status e = Locked \<and> remaining_amount e = cl_amount cl)))"

definition book_ok :: "book \<Rightarrow> bool" where
  "book_ok k \<longleftrightarrow> index_ok k \<and> depositors_ok k \<and> escrows_ok k \<and> claims_ok k"

lemma book_okD:
  "book_ok k \<Longrightarrow> index_ok k" "book_ok k \<Longrightarrow> depositors_ok k"
  "book_ok k \<Longrightarrow> escrows_ok k" "book_ok k \<Longrightarrow> claims_ok k"
  by (simp_all add: book_ok_def)

lemma index_ok_step: "bstep k m k' \<Longrightarrow> index_ok k \<Longrightarrow> index_ok k'"
  by (induction rule: bstep.induct) (auto simp: index_ok_def split: if_splits)

lemma depositors_ok_step: "bstep k m k' \<Longrightarrow> depositors_ok k \<Longrightarrow> depositors_ok k'"
proof (induction rule: bstep.induct)
  case (lock k b amt h dep dl)
  then show ?case
    by (auto simp: depositors_ok_def new_escrow_def)
qed (force simp: depositors_ok_def move_defs)+

lemma escrow_ok_moves:
  "0 \<le> amt \<Longrightarrow> escrow_ok (new_escrow dep amt dl)"
  "escrow_ok e \<Longrightarrow> escrow_ok (paid_out e)"
  "escrow_ok e \<Longrightarrow> status e = Locked \<Longrightarrow> 0 < amt \<Longrightarrow> amt \<le> remaining_amount e \<Longrightarrow>
     escrow_ok (after_pay e amt)"
  "escrow_ok e \<Longrightarrow> 0 < amt \<Longrightarrow> amt \<le> remaining_amount e \<Longrightarrow> rr_amount entry = amt \<Longrightarrow>
     escrow_ok (after_refund e amt f entry)"
  by (auto simp: escrow_ok_def move_defs refund_sum_def released_sum_def)

lemma escrows_ok_step: "bstep k m k' \<Longrightarrow> escrows_ok k \<Longrightarrow> escrows_ok k'"
  by (induction rule: bstep.induct) (auto simp: escrows_ok_def escrow_ok_moves)

lemma claims_ok_step: "bstep k m k' \<Longrightarrow> claims_ok k \<Longrightarrow> claims_ok k'"
  by (induction rule: bstep.induct) (force simp: claims_ok_def paid_out_def)+

lemma book_ok_step: "bstep k m k' \<Longrightarrow> book_ok k \<Longrightarrow> book_ok k'"
  by (simp add: book_ok_def index_ok_step depositors_ok_step escrows_ok_step claims_ok_step)

lemma book_ok_steps: "bsteps k ms k' \<Longrightarrow> book_ok k \<Longrightarrow> book_ok k'"
  by (induction rule: bsteps.induct) (auto intro: book_ok_step)

section \<open>Sums over the book\<close>

definition sum_over :: "(escrow \<Rightarrow> int) \<Rightarrow> (u64 \<rightharpoonup> escrow) \<Rightarrow> u64 list \<Rightarrow> int" where
  "sum_over f es ids = (\<Sum>b\<leftarrow>ids. case es b of None \<Rightarrow> 0 | Some e \<Rightarrow> f e)"

abbreviation book_sum :: "(escrow \<Rightarrow> int) \<Rightarrow> book \<Rightarrow> int" where
  "book_sum f k \<equiv> sum_over f (bk_escrows k) (bk_index k)"

lemma sum_over_simps [simp]:
  "sum_over f es [] = 0"
  "sum_over f es (b # ids) = (case es b of None \<Rightarrow> 0 | Some e \<Rightarrow> f e) + sum_over f es ids"
  by (simp_all add: sum_over_def)

lemma sum_over_append: "sum_over f es (ids @ ids') = sum_over f es ids + sum_over f es ids'"
  by (simp add: sum_over_def)

lemma sum_over_notin: "b \<notin> set ids \<Longrightarrow> sum_over f (es(b := v)) ids = sum_over f es ids"
  by (induction ids) auto

lemma sum_over_upd:
  "distinct ids \<Longrightarrow> b \<in> set ids \<Longrightarrow> es b = Some e \<Longrightarrow>
   sum_over f (es(b \<mapsto> e')) ids = sum_over f es ids - f e + f e'"
  by (induction ids) (auto simp: sum_over_notin split: option.splits)

lemma book_sum_upd:
  assumes "index_ok k" and "bk_escrows k b = Some e"
  shows "sum_over f ((bk_escrows k)(b \<mapsto> e')) (bk_index k) = book_sum f k - f e + f e'"
  using assms by (intro sum_over_upd) (auto simp: index_ok_def)

lemma book_sum_new:
  "index_ok k \<Longrightarrow> bk_escrows k b = None \<Longrightarrow>
   sum_over f ((bk_escrows k)(b \<mapsto> e')) (bk_index k @ [b]) = book_sum f k + f e'"
  by (auto simp: sum_over_append sum_over_notin index_ok_def domIff)

lemma sum_over_mono:
  "(\<And>b e. b \<in> set ids \<Longrightarrow> es b = Some e \<Longrightarrow> f e \<le> g e) \<Longrightarrow> sum_over f es ids \<le> sum_over g es ids"
  by (induction ids) (fastforce split: option.splits)+

lemma sum_over_nonneg:
  "(\<And>b e. b \<in> set ids \<Longrightarrow> es b = Some e \<Longrightarrow> 0 \<le> f e) \<Longrightarrow> 0 \<le> sum_over f es ids"
  by (induction ids) (fastforce split: option.splits)+

lemma sum_over_member_le:
  assumes "b \<in> set ids" and "es b = Some e"
    and "\<And>b e. b \<in> set ids \<Longrightarrow> es b = Some e \<Longrightarrow> 0 \<le> f e"
  shows "f e \<le> sum_over f es ids"
  using assms
proof (induction ids)
  case (Cons x xs)
  have "0 \<le> sum_over f es xs"
    using Cons.prems(3) by (intro sum_over_nonneg) auto
  moreover have "0 \<le> (case es x of None \<Rightarrow> 0 | Some e \<Rightarrow> f e)"
    using Cons.prems(3) by (auto split: option.splits)
  ultimately show ?case
    using Cons by (cases "x = b") force+
qed simp

section \<open>Solvency\<close>

definition solvent :: "book \<Rightarrow> bool" where
  "solvent k \<longleftrightarrow> book_sum remaining_amount k \<le> bk_held k"

lemma claim_amount_remaining:
  "claims_ok k \<Longrightarrow> bk_claims k b = Some cl \<Longrightarrow> \<not> claimed cl \<Longrightarrow> bk_escrows k b = Some e \<Longrightarrow>
   status e = Locked \<and> remaining_amount e = cl_amount cl"
  by (fastforce simp: claims_ok_def)

lemma solvent_step:
  assumes "bstep k m k'" and "clean m" and "book_ok k" and "solvent k"
  shows "solvent k'"
  using assms
proof (induction rule: bstep.induct)
  case (claim k b cl e h)
  from claim have "remaining_amount e = cl_amount cl"
    using claim_amount_remaining [OF book_okD(4)] by blast
  with claim show ?case
    by (simp add: solvent_def book_sum_upd [OF book_okD(1)] paid_out_def)
qed (auto simp: solvent_def book_sum_upd [OF book_okD(1)] book_sum_new [OF book_okD(1)] move_defs)

section \<open>Life cycle\<close>

text \<open>The statuses in the order in which an escrow can pass through them.\<close>

instantiation escrow_status :: order
begin

fun less_eq_escrow_status :: "escrow_status \<Rightarrow> escrow_status \<Rightarrow> bool" where
  "Locked \<le> (st :: escrow_status) \<longleftrightarrow> True"
| "PartiallyRefunded \<le> st \<longleftrightarrow> st = PartiallyRefunded \<or> st = Refunded"
| "Released \<le> st \<longleftrightarrow> st = Released"
| "Refunded \<le> st \<longleftrightarrow> st = Refunded"

definition less_escrow_status :: "escrow_status \<Rightarrow> escrow_status \<Rightarrow> bool" where
  "st < st' \<longleftrightarrow> st \<le> st' \<and> \<not> st' \<le> (st :: escrow_status)"

instance
proof
  fix a b c :: escrow_status
  show "a < b \<longleftrightarrow> a \<le> b \<and> \<not> b \<le> a" by (rule less_escrow_status_def)
  show "a \<le> a" by (cases a) simp_all
  show "a \<le> b \<Longrightarrow> b \<le> c \<Longrightarrow> a \<le> c" by (cases a; cases b; cases c) simp_all
  show "a \<le> b \<Longrightarrow> b \<le> a \<Longrightarrow> a = b" by (cases a; cases b) simp_all
qed

end

definition evolves :: "escrow \<Rightarrow> escrow \<Rightarrow> bool" where
  "evolves e e' \<longleftrightarrow> depositor e' = depositor e \<and> amount e' = amount e \<and>
     deadline e' = deadline e \<and> remaining_amount e' \<le> remaining_amount e \<and>
     status e \<le> status e' \<and>
     (\<exists>more. refund_history e' = refund_history e @ more)"

lemma evolves_refl [simp]: "evolves e e"
  by (simp add: evolves_def)

lemma evolves_trans: "evolves a b \<Longrightarrow> evolves b c \<Longrightarrow> evolves a c"
  by (auto simp: evolves_def intro: order_trans)

definition grows :: "book \<Rightarrow> book \<Rightarrow> bool" where
  "grows k k' \<longleftrightarrow>
     (\<forall>b e. bk_escrows k b = Some e \<longrightarrow> (\<exists>e'. bk_escrows k' b = Some e' \<and> evolves e e')) \<and>
     (\<exists>more. bk_index k' = bk_index k @ more)"

lemma grows_refl [simp]: "grows k k"
  by (simp add: grows_def)

lemma grows_trans: "grows a b \<Longrightarrow> grows b c \<Longrightarrow> grows a c"
  unfolding grows_def by (metis append.assoc evolves_trans)

lemma evolves_moves:
  "escrow_ok e \<Longrightarrow> status e = Locked \<Longrightarrow> evolves e (paid_out e)"
  "status e = Locked \<Longrightarrow> 0 < amt \<Longrightarrow> evolves e (after_pay e amt)"
  "live e \<Longrightarrow> 0 < amt \<Longrightarrow> evolves e (after_refund e amt f entry)"
  by (auto simp: evolves_def escrow_ok_def move_defs)

lemma grows_upd:
  "bk_escrows k b = Some e \<Longrightarrow> evolves e e' \<Longrightarrow>
   bk_escrows k' = (bk_escrows k)(b \<mapsto> e') \<Longrightarrow> bk_index k' = bk_index k \<Longrightarrow> grows k k'"
  by (auto simp: grows_def)

lemma grows_step: "bstep k m k' \<Longrightarrow> book_ok k \<Longrightarrow> grows k k'"
proof (induction rule: bstep.induct)
  case (claim k b cl e h)
  then have "status e = Locked" and "escrow_ok e"
    using claim_amount_remaining [OF book_okD(4)] by (auto simp: book_ok_def escrows_ok_def)
  then show ?case
    using claim by (intro grows_upd [OF _ evolves_moves(1)]) auto
next
  case (release k b e h)
  then show ?case
    by (intro grows_upd [OF _ evolves_moves(1)]) (auto simp: book_ok_def escrows_ok_def)
next
  case (pay k b e amt h)
  then show ?case by (intro grows_upd [OF _ evolves_moves(2)]) auto
next
  case (refund k b e amt entry h is_full)
  then show ?case by (intro grows_upd [OF _ evolves_moves(3)]) auto
qed (auto simp: grows_def)

lemma grows_steps: "bsteps k ms k' \<Longrightarrow> book_ok k \<Longrightarrow> grows k k'"
proof (induction rule: bsteps.induct)
  case (more_moves k m k1 ms k2)
  then show ?case by (blast intro: grows_trans grows_step book_ok_step)
qed simp

section \<open>Counters\<close>

text \<open>
  What a full scan adds up, as exact integers: the six tallies. The counters agree with
  them as long as the amounts ever locked fit \<open>i128\<close> and the number of bounties fits
  \<open>u32\<close>, because then no saturating operation saturates.
\<close>

definition locked_part :: "escrow \<Rightarrow> int" where
  "locked_part e = (if live e then remaining_amount e else 0)"

definition one_if :: "(escrow \<Rightarrow> bool) \<Rightarrow> escrow \<Rightarrow> int" where
  "one_if p e = (if p e then 1 else 0)"

abbreviation is_released :: "escrow \<Rightarrow> bool" where
  "is_released e \<equiv> status e = Released"

abbreviation is_refunded :: "escrow \<Rightarrow> bool" where
  "is_refunded e \<equiv> status e = Refunded"

definition tallies :: "aggregate_stats \<Rightarrow> int \<Rightarrow> int \<Rightarrow> int \<Rightarrow> int \<Rightarrow> int \<Rightarrow> int \<Rightarrow> bool" where
  "tallies c l r f nl nr nf \<longleftrightarrow>
     total_locked c = l \<and> total_released c = r \<and> total_refunded c = f \<and>
     int (count_locked c) = nl \<and> int (count_released c) = nr \<and> int (count_refunded c) = nf"

definition counters_ok :: "book \<Rightarrow> bool" where
  "counters_ok k \<longleftrightarrow> tallies (bk_counters k)
     (book_sum locked_part k) (book_sum released_sum k) (book_sum refund_sum k)
     (book_sum (one_if live) k) (book_sum (one_if is_released) k)
     (book_sum (one_if is_refunded) k)"

definition fits :: "book \<Rightarrow> bool" where
  "fits k \<longleftrightarrow> book_sum amount k \<le> i128_max \<and> length (bk_index k) \<le> u32_max"

definition in_bounds :: "int \<Rightarrow> int \<Rightarrow> int \<Rightarrow> int \<Rightarrow> int \<Rightarrow> int \<Rightarrow> bool" where
  "in_bounds l r f nl nr nf \<longleftrightarrow>
     (\<forall>x \<in> {l, r, f}. 0 \<le> x \<and> x \<le> i128_max) \<and>
     (\<forall>x \<in> {nl, nr, nf}. 0 \<le> x \<and> x \<le> int u32_max)"

lemma tallies_moves:
  assumes "tallies c l r f nl nr nf"
  shows "in_bounds (l + amt) r f (nl + 1) nr nf \<Longrightarrow>
      tallies (locked_stats amt c) (l + amt) r f (nl + 1) nr nf"
    and "in_bounds (l - amt) (r + amt) f (nl - 1) (nr + 1) nf \<Longrightarrow>
      tallies (released_stats amt c) (l - amt) (r + amt) f (nl - 1) (nr + 1) nf"
    and "in_bounds (l - amt) r (f + amt) (nl - 1) nr (nf + 1) \<Longrightarrow>
      tallies (refunded_stats amt c) (l - amt) r (f + amt) (nl - 1) nr (nf + 1)"
    and "in_bounds (l - amt) r (f + amt) (nl - 1) nr (nf + 1) \<Longrightarrow>
      tallies (final_refunded_stats amt c) (l - amt) r (f + amt) (nl - 1) nr (nf + 1)"
    and "in_bounds (l - amt) r (f + amt) nl nr nf \<Longrightarrow>
      tallies (part_refunded_stats amt c) (l - amt) r (f + amt) nl nr nf"
    and "in_bounds (l - amt) (r + amt) f nl nr nf \<Longrightarrow>
      tallies (part_released_stats amt c) (l - amt) (r + amt) f nl nr nf"
    and "in_bounds (l - amt) (r + amt) f (nl - 1) (nr + 1) nf \<Longrightarrow>
      tallies (finalized_stats (part_released_stats amt c))
        (l - amt) (r + amt) f (nl - 1) (nr + 1) nf"
  using assms
  by (auto simp: tallies_def in_bounds_def locked_stats_def released_stats_def
      refunded_stats_def final_refunded_stats_def part_refunded_stats_def
      part_released_stats_def finalized_stats_def arith_defs)

lemma book_sum_bounds:
  assumes "book_ok k" and "\<And>e. escrow_ok e \<Longrightarrow> 0 \<le> f e \<and> f e \<le> g e"
  shows "0 \<le> book_sum f k" and "book_sum f k \<le> book_sum g k"
proof -
  have *: "0 \<le> f e \<and> f e \<le> g e" if "bk_escrows k b = Some e" for b e
    using assms that by (auto simp: book_ok_def escrows_ok_def)
  show "0 \<le> book_sum f k" by (rule sum_over_nonneg) (use * in auto)
  show "book_sum f k \<le> book_sum g k" by (rule sum_over_mono) (use * in auto)
qed

lemma sum_over_one: "sum_over (\<lambda>_. 1) es ids \<le> int (length ids)"
  by (induction ids) (auto split: option.splits)

lemma escrow_parts:
  assumes "escrow_ok e"
  shows "0 \<le> locked_part e \<and> locked_part e \<le> amount e"
    and "0 \<le> released_sum e \<and> released_sum e \<le> amount e"
    and "0 \<le> refund_sum e \<and> refund_sum e \<le> amount e"
    and "0 \<le> one_if p e \<and> one_if p e \<le> 1"
  using assms by (auto simp: escrow_ok_def locked_part_def released_sum_def one_if_def)

lemma tallies_in_bounds:
  assumes "book_ok k" and "fits k"
  shows "in_bounds (book_sum locked_part k) (book_sum released_sum k) (book_sum refund_sum k)
    (book_sum (one_if live) k) (book_sum (one_if is_released) k)
    (book_sum (one_if is_refunded) k)"
proof -
  note bounds = book_sum_bounds [OF assms(1)]
  have amounts: "0 \<le> book_sum f k \<and> book_sum f k \<le> i128_max"
    if f: "\<And>e. escrow_ok e \<Longrightarrow> 0 \<le> f e \<and> f e \<le> amount e" for f
  proof -
    have "0 \<le> book_sum f k" "book_sum f k \<le> book_sum amount k"
      using bounds [of f amount] f by blast+
    with assms(2) show ?thesis unfolding fits_def by linarith
  qed
  have counts: "0 \<le> book_sum (one_if p) k \<and> book_sum (one_if p) k \<le> int u32_max" for p
  proof -
    have "0 \<le> book_sum (one_if p) k" "book_sum (one_if p) k \<le> book_sum (\<lambda>_. 1) k"
      using bounds [of "one_if p" "\<lambda>_. 1"] escrow_parts(4) by blast+
    moreover have "book_sum (\<lambda>_. 1) k \<le> int (length (bk_index k))"
      by (rule sum_over_one)
    moreover have "length (bk_index k) \<le> u32_max"
      using assms(2) by (simp add: fits_def)
    ultimately show ?thesis by linarith
  qed
  show ?thesis
    using amounts [OF escrow_parts(1)] amounts [OF escrow_parts(2)] amounts [OF escrow_parts(3)]
      counts
    by (simp add: in_bounds_def)
qed

text \<open>A clean refund leaves nothing when it settles the escrow.\<close>

lemma counters_ok_refund:
  assumes "bstep k (M_refund b amt is_full rest) k'" and "clean (M_refund b amt is_full rest)"
    and "book_ok k" and "fits k'" and "counters_ok k"
  shows "counters_ok k'"
proof -
  note sums = book_sum_upd [OF book_okD(1) [OF assms(3)]]
  note moves = tallies_moves [OF assms(5) [unfolded counters_ok_def]]
  note bounds = tallies_in_bounds [OF book_ok_step [OF assms(1,3)] assms(4)]
  note parts = locked_part_def released_sum_def refund_sum_def one_if_def move_defs
  show ?thesis
    using assms(1)
  proof cases
    case (refund e entry h)
    consider (locked) "is_full \<or> remaining_amount e = amt" "status e = Locked"
      | (partly) "is_full \<or> remaining_amount e = amt" "status e = PartiallyRefunded"
      | (part) "\<not> (is_full \<or> remaining_amount e = amt)"
      using refund by (auto simp: live_def)
    then show ?thesis
    proof cases
      case locked
      then have [simp]: "remaining_amount e = amt" using refund assms(2) by auto
      show ?thesis
        using locked refund bounds moves(3) [of amt] unfolding counters_ok_def refund_stats_def
        by (simp add: sums parts algebra_simps)
    next
      case partly
      then have [simp]: "remaining_amount e = amt" using refund assms(2) by auto
      show ?thesis
        using partly refund bounds moves(4) [of amt] unfolding counters_ok_def refund_stats_def
        by (simp add: sums parts algebra_simps)
    next
      case part
      then show ?thesis
        using refund bounds moves(5) [of amt] unfolding counters_ok_def refund_stats_def
        by (auto simp: sums parts algebra_simps)
    qed
  qed
qed

lemma counters_ok_step:
  assumes "bstep k m k'" and "clean m" and "book_ok k" and "fits k'" and "counters_ok k"
  shows "counters_ok k'"
proof -
  have ok': "book_ok k'" using assms(1,3) by (rule book_ok_step)
  note sums = book_sum_upd [OF book_okD(1) [OF assms(3)]]
    book_sum_new [OF book_okD(1) [OF assms(3)]]
  note moves = tallies_moves [OF assms(5) [unfolded counters_ok_def]]
  note bounds = tallies_in_bounds [OF ok' assms(4)]
  note parts = locked_part_def released_sum_def refund_sum_def one_if_def move_defs
  show ?thesis
    using assms(1,2) bounds assms(5)
  proof (cases rule: bstep.cases)
    case (lock b amt h dep dl)
    then show ?thesis
      using bounds moves(1) [of amt] unfolding counters_ok_def
      by (simp add: sums parts)
  next
    case (claim b cl e h)
    then have "status e = Locked" "remaining_amount e = cl_amount cl"
      using claim_amount_remaining [OF book_okD(4) [OF assms(3)]] by blast+
    then show ?thesis
      using claim bounds moves(2) [of "cl_amount cl"] unfolding counters_ok_def
      by (simp add: sums parts algebra_simps)
  next
    case (release b e h)
    then show ?thesis
      using bounds moves(2) [of "amount e"] assms(2) unfolding counters_ok_def
      by (simp add: sums parts algebra_simps)
  next
    case (pay b e amt h)
    then show ?thesis
      using bounds moves(6,7) [of amt] unfolding counters_ok_def pay_stats_def
      by (auto simp: sums parts algebra_simps split: if_splits)
  next
    case (refund b e amt entry h is_full)
    then show ?thesis using counters_ok_refund assms by metis
  qed (simp_all add: counters_ok_def)
qed

section \<open>Runs\<close>

lemma fits_back: "bstep k m k' \<Longrightarrow> book_ok k \<Longrightarrow> fits k' \<Longrightarrow> fits k"
  by (induction rule: bstep.induct)
    (auto simp: fits_def book_sum_upd [OF book_okD(1)] book_sum_new [OF book_okD(1)] move_defs)

lemma fits_back_steps: "bsteps k ms k' \<Longrightarrow> book_ok k \<Longrightarrow> fits k' \<Longrightarrow> fits k"
  by (induction rule: bsteps.induct) (auto dest: fits_back book_ok_step)

lemma solvent_steps:
  "bsteps k ms k' \<Longrightarrow> list_all clean ms \<Longrightarrow> book_ok k \<Longrightarrow> solvent k \<Longrightarrow> solvent k'"
  by (induction rule: bsteps.induct) (auto intro: solvent_step book_ok_step)

lemma counters_ok_steps:
  "bsteps k ms k' \<Longrightarrow> list_all clean ms \<Longrightarrow> book_ok k \<Longrightarrow> fits k' \<Longrightarrow> counters_ok k \<Longrightarrow>
   counters_ok k'"
proof (induction rule: bsteps.induct)
  case (more_moves k m k1 ms k2)
  have ok: "book_ok k1" using more_moves.hyps(1) more_moves.prems(2) by (rule book_ok_step)
  have "fits k1" using more_moves.hyps(2) ok more_moves.prems(3) by (rule fits_back_steps)
  then have "counters_ok k1"
    using more_moves.prems by (intro counters_ok_step [OF more_moves.hyps(1)]) auto
  then show ?case using more_moves.prems ok by (intro more_moves.IH) auto
qed

text \<open>
  A clean run never leaves money behind in a settled escrow either: a refunded escrow of a
  clean book has nothing remaining.
\<close>

definition settled_ok :: "book \<Rightarrow> bool" where
  "settled_ok k \<longleftrightarrow> (\<forall>b e. bk_escrows k b = Some e \<longrightarrow> \<not> live e \<longrightarrow> remaining_amount e = 0)"

lemma settled_ok_step: "bstep k m k' \<Longrightarrow> clean m \<Longrightarrow> settled_ok k \<Longrightarrow> settled_ok k'"
  by (induction rule: bstep.induct) (auto simp: settled_ok_def move_defs)

lemma settled_ok_steps:
  "bsteps k ms k' \<Longrightarrow> list_all clean ms \<Longrightarrow> settled_ok k \<Longrightarrow> settled_ok k'"
  by (induction rule: bsteps.induct) (auto intro: settled_ok_step)

end
