(* ===== verification/BountySystem.thy ===== *)
theory BountySystem
  imports BountyQueries BountyLedger
begin

text \<open>
  The bounty escrow contract as one machine: a call is one of the entrypoints that change
  the state, a step is a call that returns or a change of the world outside. Every call is
  simulated by moves of the book (BountyLedger), so the invariants of the book hold in every
  reachable state of the contract.
\<close>

section \<open>Calls\<close>

datatype call =
    Init addr addr
  | Update_fee_config "i128 option" "i128 option" "addr option" "bool option"
  | Upgrade bytes32
  | Set_paused "bool option" "bool option" "bool option"
  | Set_emergency_pause bool
  | Update_multisig_config i128 "addr list" u32
  | Approve_large_release u64 addr addr
  | Lock_funds addr u64 i128 u64
  | Release_funds u64 addr
  | Set_claim_window u64
  | Authorize_claim u64 addr
  | Claim u64
  | Cancel_pending_claim u64
  | Approve_refund u64 i128 addr refund_mode
  | Partial_release u64 addr i128
  | Refund u64
  | Sweep_expired_refunds "u64 list"
  | Set_amount_policy addr i128 i128
  | Set_anti_abuse_admin addr
  | Set_whitelist addr bool
  | Set_governance_contract addr
  | Set_min_governance_version u32
  | Execute_governance_proposal u32
  | Batch_lock_funds "lock_funds_item list"
  | Batch_release_funds "release_funds_item list"
  | Emit_analytics_snapshot_event
  | Set_circuit_breaker_admin addr
  | Set_circuit_breaker_config u32 u32 u32
  | Reset_circuit addr

definition drop_count :: "('w state \<times> u32) bres \<Rightarrow> 'w state bres" where
  "drop_count r = bnd r (\<lambda>(s, n). Inr s)"

lemma drop_count_Inr [res_simps]: "drop_count r = Inr s \<longleftrightarrow> (\<exists>n. r = Inr (s, n))"
  by (auto simp: drop_count_def res_simps)

fun exec :: "'w env \<Rightarrow> call \<Rightarrow> 'w state \<Rightarrow> 'w state bres" where
  "exec env (Init a t) s = init env s a t"
| "exec env (Update_fee_config l r a e) s = update_fee_config env s l r a e"
| "exec env (Upgrade h) s = upgrade env s h"
| "exec env (Set_paused l r f) s = set_paused env s l r f"
| "exec env (Set_emergency_pause p) s = set_emergency_pause env s p"
| "exec env (Update_multisig_config t ss n) s = update_multisig_config env s t ss n"
| "exec env (Approve_large_release b c a) s = approve_large_release env s b c a"
| "exec env (Lock_funds d b amt dl) s = lock_funds env s d b amt dl"
| "exec env (Release_funds b c) s = release_funds env s b c"
| "exec env (Set_claim_window w) s = set_claim_window env s w"
| "exec env (Authorize_claim b r) s = authorize_claim env s b r"
| "exec env (Claim b) s = claim env s b"
| "exec env (Cancel_pending_claim b) s = cancel_pending_claim env s b"
| "exec env (Approve_refund b amt r m) s = approve_refund env s b amt r m"
| "exec env (Partial_release b c amt) s = partial_release env s b c amt"
| "exec env (Refund b) s = refund env s b"
| "exec env (Sweep_expired_refunds bs) s = drop_count (sweep_expired_refunds env s bs)"
| "exec env (Set_amount_policy c lo hi) s = set_amount_policy env s c lo hi"
| "exec env (Set_anti_abuse_admin a) s = set_anti_abuse_admin env s a"
| "exec env (Set_whitelist a b) s = set_whitelist env s a b"
| "exec env (Set_governance_contract a) s = set_governance_contract env s a"
| "exec env (Set_min_governance_version v) s = set_min_governance_version env s v"
| "exec env (Execute_governance_proposal p) s = execute_governance_proposal env s p"
| "exec env (Batch_lock_funds items) s = drop_count (batch_lock_funds env s items)"
| "exec env (Batch_release_funds items) s = drop_count (batch_release_funds env s items)"
| "exec env Emit_analytics_snapshot_event s = Inr (emit_analytics_snapshot_event env s)"
| "exec env (Set_circuit_breaker_admin a) s = set_circuit_breaker_admin env s a"
| "exec env (Set_circuit_breaker_config f c l) s = set_circuit_breaker_config env s f c l"
| "exec env (Reset_circuit a) s = reset_circuit env s a"

section \<open>Steps\<close>

definition held :: "'w env \<Rightarrow> 'w state \<Rightarrow> int" where
  "held E s = (case st_token s of None \<Rightarrow> 0
     | Some t \<Rightarrow> balance_of E t (current_contract_address E) (st_world s))"

datatype 'w label = Invoke "'w env" call | Outside 'w

inductive step :: "'w env \<Rightarrow> 'w state \<Rightarrow> 'w label \<Rightarrow> 'w state \<Rightarrow> bool" for E where
  invoke: "valid_env E env \<Longrightarrow> exec env c s = Inr s' \<Longrightarrow> step E s (Invoke env c) s'"
| outside: "held E s \<le> held E (s\<lparr>st_world := w\<rparr>) \<Longrightarrow>
    step E s (Outside w) (s\<lparr>st_world := w\<rparr>)"

definition is_initial :: "'w state \<Rightarrow> bool" where
  "is_initial s \<longleftrightarrow> (\<exists>w. s = initial_state w)"

abbreviation reachable :: "'w env \<Rightarrow> 'w state \<Rightarrow> bool" where
  "reachable E \<equiv> reach is_initial (step E)"

inductive_cases step_invokeE: "step E s (Invoke env c) s'"

section \<open>The book of a state\<close>

definition book_of :: "'w env \<Rightarrow> 'w state \<Rightarrow> book" where
  "book_of E s = \<lparr>bk_escrows = st_escrows s, bk_index = escrow_index s,
     bk_depositor = depositor_index s, bk_claims = st_claims s,
     bk_counters = get_counters s, bk_held = held E s\<rparr>"

lemmas book_defs = book_of_def held_def escrow_index_def depositor_index_def get_counters_def

lemma book_of_simps [simp]:
  "bk_escrows (book_of E s) = st_escrows s"
  "bk_index (book_of E s) = escrow_index s"
  "bk_depositor (book_of E s) = depositor_index s"
  "bk_claims (book_of E s) = st_claims s"
  "bk_counters (book_of E s) = get_counters s"
  "bk_held (book_of E s) = held E s"
  by (simp_all add: book_of_def)

lemma token_transfer_Inr [res_simps]:
  "token_transfer env s f r a = Inr s' \<longleftrightarrow>
     (\<exists>t w. st_token s = Some t \<and> tk_transfer env t f r a (st_world s) = Some w \<and>
        s' = s\<lparr>st_world := w\<rparr>)"
  by (auto simp: token_transfer_def res_simps)

lemma execute_token_transfer_Inr [res_simps]:
  "execute_token_transfer env s f r a op = Inr s' \<longleftrightarrow>
     \<not> check_paused s op \<and> token_transfer env s f r a = Inr s'"
  by (simp add: execute_token_transfer_def res_simps)

lemma held_out:
  assumes "valid_env E env" and "st_token s = Some t"
    and "tk_transfer env t (current_contract_address env) r a (st_world s) = Some w"
  shows "0 \<le> a \<and> held E s - a \<le> held E (s\<lparr>st_world := w\<rparr>)"
proof -
  have sep: "sep41 env t" and me: "current_contract_address env = current_contract_address E"
    using assms(1) by (auto simp: valid_env_def)
  show ?thesis
    using sep41_nonneg [OF sep assms(3)] sep41_out [OF sep assms(3)] assms(2)
      valid_env_balance [OF assms(1)] me by (simp add: held_def)
qed

lemma held_in:
  assumes "valid_env E env" and "st_token s = Some t" and "authorized env f"
    and "tk_transfer env t f (current_contract_address env) a (st_world s) = Some w"
  shows "0 \<le> a \<and> held E (s\<lparr>st_world := w\<rparr>) = held E s + a"
proof -
  have sep: "sep41 env t" and me: "current_contract_address env = current_contract_address E"
    using assms(1) by (auto simp: valid_env_def)
  have "f \<noteq> current_contract_address env" using assms(1,3) by (auto simp: valid_env_def)
  then show ?thesis
    using sep41_nonneg [OF sep assms(4)] sep41_in [OF sep assms(4)] assms(2)
      valid_env_balance [OF assms(1)] me by (simp add: held_def)
qed

lemma held_cong:
  "st_token s' = st_token s \<Longrightarrow> st_world s' = st_world s \<Longrightarrow> held E s' = held E s"
  by (simp add: held_def split: option.split)

lemma held_mono:
  "(\<And>t. st_token s = Some t \<Longrightarrow> balance_of E t (current_contract_address E) (st_world s)
      \<le> balance_of E t (current_contract_address E) w) \<Longrightarrow>
   held E s \<le> held E (s\<lparr>st_world := w\<rparr>)"
  by (auto simp: held_def split: option.split)

lemma bstep_eq: "bstep k m k'' \<Longrightarrow> k' = k'' \<Longrightarrow> bstep k m k'"
  by simp

section \<open>Calls that leave the book alone\<close>

lemmas frame_defs = emit_def emit_pause_def clear_release_approval_def set_counters_def

lemma emit_book [simp]: "book_of E (emit e s) = book_of E s"
  by (simp add: book_defs emit_def fun_eq_iff split: option.split)

lemma emit_pause_book [simp]: "book_of E (emit_pause op f a s) = book_of E s"
  by (simp add: emit_pause_def split: option.splits)

lemma clear_release_approval_book [simp]:
  "book_of E (clear_release_approval b s) = book_of E s"
  by (simp add: book_defs clear_release_approval_def fun_eq_iff split: option.split)

lemma book_of_upd [simp]:
  "book_of E (s\<lparr>st_admin := x1\<rparr>) = book_of E s"
  "book_of E (s\<lparr>st_fee_config := x2\<rparr>) = book_of E s"
  "book_of E (s\<lparr>st_refund_approvals := x3\<rparr>) = book_of E s"
  "book_of E (s\<lparr>st_reentrancy_guard := x4\<rparr>) = book_of E s"
  "book_of E (s\<lparr>st_multisig := x5\<rparr>) = book_of E s"
  "book_of E (s\<lparr>st_release_approvals := x6\<rparr>) = book_of E s"
  "book_of E (s\<lparr>st_claim_window := x7\<rparr>) = book_of E s"
  "book_of E (s\<lparr>st_pause_flags := x8\<rparr>) = book_of E s"
  "book_of E (s\<lparr>st_amount_policy := x9\<rparr>) = book_of E s"
  "book_of E (s\<lparr>st_metrics := x10\<rparr>) = book_of E s"
  "book_of E (s\<lparr>st_abuse := x11\<rparr>) = book_of E s"
  "book_of E (s\<lparr>st_breaker := x12\<rparr>) = book_of E s"
  "book_of E (s\<lparr>st_gov := x13\<rparr>) = book_of E s"
  "book_of E (s\<lparr>st_wasm := x14\<rparr>) = book_of E s"
  "book_of E (s\<lparr>st_events := x15\<rparr>) = book_of E s"
  by (simp_all add: book_defs fun_eq_iff split: option.split)

fun admin_call :: "call \<Rightarrow> bool" where
  "admin_call (Init _ _) = False"
| "admin_call (Lock_funds _ _ _ _) = False"
| "admin_call (Release_funds _ _) = False"
| "admin_call (Authorize_claim _ _) = False"
| "admin_call (Claim _) = False"
| "admin_call (Cancel_pending_claim _) = False"
| "admin_call (Partial_release _ _ _) = False"
| "admin_call (Refund _) = False"
| "admin_call (Sweep_expired_refunds _) = False"
| "admin_call (Execute_governance_proposal _) = False"
| "admin_call (Batch_lock_funds _) = False"
| "admin_call (Batch_release_funds _) = False"
| "admin_call _ = True"

lemmas admin_defs = update_fee_config_def upgrade_def set_paused_def set_emergency_pause_def
  update_multisig_config_def approve_large_release_def set_claim_window_def
  approve_refund_def set_amount_policy_def set_anti_abuse_admin_def set_whitelist_def
  set_governance_contract_def set_min_governance_version_def set_circuit_breaker_admin_def
  set_circuit_breaker_config_def reset_circuit_def emit_analytics_snapshot_event_def

lemma admin_call_book: "admin_call c \<Longrightarrow> exec env c s = Inr s' \<Longrightarrow> book_of E s' = book_of E s"
  by (cases c) (auto simp: admin_defs res_simps Let_def split: if_splits)

lemma init_sim:
  assumes "valid_env E env" and "init env s a t = Inr s'" and "st_token s = None"
  shows "bstep (book_of E s) M_idle (book_of E s')"
proof -
  have "0 \<le> held E s'"
    using assms(1) by (auto simp: held_def valid_env_def balance_of_def split: option.splits)
  then show ?thesis
    using assms(2,3)
    by (intro bstep_eq [OF bstep.idle [where h = "held E s'"]])
      (auto simp: init_def res_simps book_defs emit_def)
qed

lemma governance_sim:
  assumes "valid_env E env" and "execute_governance_proposal env s p = Inr s'"
  shows "bstep (book_of E s) M_idle (book_of E s')"
proof -
  obtain w where w: "s' = s\<lparr>st_world := w\<rparr>" and exec: "w = st_world s \<or>
      (\<exists>g. w = snd (gv_execute_proposal env g p (st_world s)))"
    using assms(2)
    by (auto simp: execute_governance_proposal_def link_execute_governance_proposal_def
        res_simps Let_def split: if_splits option.splits prod.splits) (metis snd_conv)+
  have gov: "balance_of E t (current_contract_address E) (st_world s)
      \<le> balance_of E t (current_contract_address E) w" for t
    using exec assms(1) valid_env_balance [OF assms(1)]
    by (auto simp: valid_env_def gov_harmless_def)
  then have "held E s \<le> held E s'" unfolding w by (rule held_mono)
  then show ?thesis
    using w by (intro bstep_eq [OF bstep.idle [where h = "held E s'"]]) (auto simp: book_defs)
qed

section \<open>Calls that move funds\<close>

lemma store_new_escrow_book:
  "book_of E (store_new_escrow env dep b amt dl s) =
     (book_of E s)\<lparr>bk_escrows := (st_escrows s)(b \<mapsto> new_escrow dep amt dl),
       bk_index := escrow_index s @ [b],
       bk_depositor := (depositor_index s)(dep := depositor_index s dep @ [b]),
       bk_counters := locked_stats amt (get_counters s)\<rparr>"
  by (auto simp: store_new_escrow_def Let_def increment_locked_def set_counters_def book_defs
      new_escrow_def fun_eq_iff split: option.split)

lemma lock_sim:
  assumes "valid_env E env" and "authorized env dep" and "st_escrows s b = None"
    and "st_token s = Some t"
    and "tk_transfer env t dep (current_contract_address env) amt (st_world s) = Some w"
  shows "bstep (book_of E s) (M_lock b dep amt dl)
    (book_of E (store_new_escrow env dep b amt dl (s\<lparr>st_world := w\<rparr>)))"
  using held_in [OF assms(1,4,2,5)] assms(3)
  by (intro bstep_eq [OF bstep.lock [where h = "held E (s\<lparr>st_world := w\<rparr>)"]])
    (auto simp: store_new_escrow_book, auto simp: book_defs)

lemma lock_funds_sim:
  assumes "valid_env E env" and "lock_funds env s dep b amt dl = Inr s'"
  shows "bstep (book_of E s) (M_lock b dep amt dl) (book_of E s')"
proof -
  obtain abuse t w where *: "authorized env dep" "st_escrows s b = None" "st_token s = Some t"
      "tk_transfer env t dep (current_contract_address env) amt (st_world s) = Some w"
    and s': "book_of E s' =
      book_of E (store_new_escrow env dep b amt dl ((s\<lparr>st_abuse := abuse\<rparr>)\<lparr>st_world := w\<rparr>))"
    using assms(2) by (auto simp: lock_funds_def res_simps Let_def)
  show ?thesis
    using lock_sim [OF assms(1) *(1), of "s\<lparr>st_abuse := abuse\<rparr>"] * s' by simp
qed

text \<open>
  The five outgoing payments share one shape: the escrow entry, the claims and the counters
  are replaced, and the transfer takes at most the paid amount out of what is held.
\<close>

lemma book_eqI:
  "bk_escrows k = bk_escrows k' \<Longrightarrow> bk_index k = bk_index k' \<Longrightarrow>
   bk_depositor k = bk_depositor k' \<Longrightarrow> bk_claims k = bk_claims k' \<Longrightarrow>
   bk_counters k = bk_counters k' \<Longrightarrow> bk_held k = bk_held k' \<Longrightarrow> k = (k' :: book)"
  by (cases k; cases k') simp

lemmas view_defs = escrow_index_def depositor_index_def get_counters_def


lemmas counter_set_defs = transition_locked_to_released_def transition_locked_to_refunded_def
  partial_refund_from_locked_def transition_partially_refunded_to_refunded_def
  partial_release_from_locked_def finalize_partial_release_to_released_def

lemmas counter_defs = counter_set_defs set_counters_def

lemma set_counters_book: "book_of E (set_counters s c) = (book_of E s)\<lparr>bk_counters := c\<rparr>"
  by (auto intro!: book_eqI held_cong simp: set_counters_def view_defs fun_eq_iff)

lemma release_funds_sim:
  assumes "valid_env E env" and "release_funds env s b c = Inr s'"
    and "st_escrows s b = Some e"
  shows "bstep (book_of E s) (M_release b (amount e) (remaining_amount e)) (book_of E s')"
proof -
  obtain t w m where g: "status e = Locked" "st_claims s b = None" "st_token s = Some t"
      "tk_transfer env t (current_contract_address env) c (amount e) (st_world s) = Some w"
    and s': "book_of E s' = book_of E (transition_locked_to_released (amount e)
      (s\<lparr>st_reentrancy_guard := True, st_escrows := (st_escrows s)(b \<mapsto> paid_out e),
         st_world := w, st_metrics := m\<rparr>))"
    using assms(2,3) by (auto simp: release_funds_def res_simps Let_def paid_out_def)
  note h = held_out [OF assms(1) g(3,4)]
  show ?thesis unfolding s'
    by (rule bstep_eq [OF bstep.release [where h = "held E (s\<lparr>st_world := w\<rparr>)" and e = e]])
      (use g h assms(3) in \<open>auto intro!: book_eqI held_cong simp: counter_defs view_defs fun_eq_iff\<close>)
qed

lemma claim_sim:
  assumes "valid_env E env" and "claim env s b = Inr s'"
  shows "\<exists>amt. bstep (book_of E s) (M_claim b amt) (book_of E s')"
proof -
  obtain cl e t w where g: "st_claims s b = Some cl" "\<not> claimed cl" "st_escrows s b = Some e"
      "st_token s = Some t"
      "tk_transfer env t (current_contract_address env) (cl_recipient cl) (cl_amount cl)
         (st_world s) = Some w"
    and s': "book_of E s' = book_of E ((transition_locked_to_released (cl_amount cl)
      (s\<lparr>st_reentrancy_guard := True, st_escrows := (st_escrows s)(b \<mapsto> paid_out e)\<rparr>))
        \<lparr>st_claims := (st_claims s)(b \<mapsto> cl\<lparr>claimed := True\<rparr>), st_world := w\<rparr>)"
    using assms(2)
    by (auto simp: claim_def res_simps Let_def paid_out_def counter_defs get_counters_def)
  note h = held_out [OF assms(1) g(4,5)]
  have "bstep (book_of E s) (M_claim b (cl_amount cl)) (book_of E s')" unfolding s'
    by (rule bstep_eq [OF bstep.claim [where h = "held E (s\<lparr>st_world := w\<rparr>)" and e = e]])
      (use g h in \<open>auto intro!: book_eqI held_cong simp: counter_defs view_defs fun_eq_iff\<close>)
  then show ?thesis by blast
qed

lemma authorize_claim_sim:
  assumes "authorize_claim env s b r = Inr s'"
  shows "bstep (book_of E s) (M_authorize b) (book_of E s')"
proof -
  obtain e where e: "st_escrows s b = Some e" "status e = Locked"
    using assms by (auto simp: authorize_claim_def res_simps Let_def)
  define cl where "cl = \<lparr>cl_bounty_id = b, cl_recipient = r, cl_amount = remaining_amount e,
    expires_at = sat_add_u64 (timestamp env)
      (case st_claim_window s of None \<Rightarrow> 0 | Some w \<Rightarrow> w), claimed = False\<rparr>"
  have s': "book_of E s' = book_of E (s\<lparr>st_claims := (st_claims s)(b \<mapsto> cl)\<rparr>)"
    using assms e by (auto simp: authorize_claim_def res_simps Let_def cl_def)
  have "\<not> claimed cl" "cl_amount cl = remaining_amount e" by (simp_all add: cl_def)
  then show ?thesis unfolding s'
    by (intro bstep_eq [OF bstep.authorize [where e = e and cl = cl]])
      (use e in \<open>auto intro!: book_eqI held_cong simp: view_defs fun_eq_iff\<close>)
qed

lemma cancel_sim:
  assumes "cancel_pending_claim env s b = Inr s'"
  shows "bstep (book_of E s) (M_cancel b) (book_of E s')"
proof -
  obtain cl where g: "st_claims s b = Some cl" "\<not> claimed cl"
    and s': "book_of E s' = book_of E (s\<lparr>st_claims := (st_claims s)(b := None)\<rparr>)"
    using assms by (auto simp: cancel_pending_claim_def res_simps Let_def)
  show ?thesis unfolding s'
    by (rule bstep_eq [OF bstep.cancel [where cl = cl]])
      (use g in \<open>auto intro!: book_eqI held_cong simp: view_defs fun_eq_iff\<close>)
qed

lemma partial_release_sim:
  assumes "valid_env E env" and "partial_release env s b c amt = Inr s'"
  shows "bstep (book_of E s) (M_pay b amt) (book_of E s')"
proof -
  obtain e where e: "st_escrows s b = Some e" "status e = Locked" "st_claims s b = None"
      "0 < amt" "amt \<le> remaining_amount e"
    using assms(2) by (auto simp: partial_release_def res_simps)
  define X where "X w m = s\<lparr>st_reentrancy_guard := True, st_world := w,
    st_escrows := (st_escrows s)(b \<mapsto> after_pay e amt), st_metrics := m\<rparr>" for w m
  have "\<exists>t w m. st_token s = Some t \<and>
      tk_transfer env t (current_contract_address env) c amt (st_world s) = Some w \<and>
      book_of E s' = book_of E
        (if remaining_amount e = amt
         then finalize_partial_release_to_released (partial_release_from_locked amt (X w m))
         else partial_release_from_locked amt (X w m))"
  proof (cases "remaining_amount e = amt")
    case True
    then show ?thesis
      using assms(2) e
      by (auto simp: partial_release_def res_simps Let_def X_def after_pay_def
          released_status_def)
  next
    case False
    then show ?thesis
      using assms(2) e
      by (auto simp: partial_release_def res_simps Let_def X_def after_pay_def
          released_status_def)
  qed
  then obtain t w m where g: "st_token s = Some t"
      "tk_transfer env t (current_contract_address env) c amt (st_world s) = Some w"
    and s': "book_of E s' = book_of E
        (if remaining_amount e = amt
         then finalize_partial_release_to_released (partial_release_from_locked amt (X w m))
         else partial_release_from_locked amt (X w m))"
    by blast
  note h = held_out [OF assms(1) g]
  show ?thesis unfolding s'
    by (rule bstep_eq [OF bstep.pay [where h = "held E (s\<lparr>st_world := w\<rparr>)" and e = e]])
      (use e h in \<open>auto intro!: book_eqI held_cong
        simp: counter_defs view_defs fun_eq_iff pay_stats_def X_def\<close>)
qed

lemma refund_counters_book:
  assumes "st = Locked \<or> st = PartiallyRefunded" and "st' = Refunded \<or> st' = PartiallyRefunded"
  shows "book_of E (refund_counters st st' amt s) =
    (book_of E s)\<lparr>bk_counters := refund_stats st st' amt (get_counters s)\<rparr>"
  using assms
  by (auto simp: refund_counters_def refund_stats_def counter_set_defs set_counters_book)

lemma load_refundable_Inr [res_simps]:
  "load_refundable_escrow s b = Inr e \<longleftrightarrow>
     st_escrows s b = Some e \<and> st_claims s b = None \<and> live e"
  by (auto simp: load_refundable_escrow_def live_def split: option.splits)

lemma refund_sim:
  assumes "valid_env E env" and "refund env s b = Inr s'" and "st_escrows s b = Some e"
  shows "bstep (book_of E s)
    (M_refund b (fst (refund_terms e (st_refund_approvals s b)))
       (snd (snd (refund_terms e (st_refund_approvals s b)))) (remaining_amount e))
    (book_of E s')"
proof -
  obtain amt r full where terms: "refund_terms e (st_refund_approvals s b) = (amt, r, full)"
    by (cases "refund_terms e (st_refund_approvals s b)") auto
  have g: "st_claims s b = None" "live e" "0 < amt" "amt \<le> remaining_amount e"
    using assms(2,3) terms by (auto simp: refund_def res_simps Let_def)
  define entry where "entry = \<lparr>rr_amount = amt, rr_recipient = r,
    rr_timestamp = timestamp env, rr_mode = (if full then Full else Partial)\<rparr>"
  define X where "X w m = s\<lparr>st_reentrancy_guard := True, st_world := w,
    st_escrows := (st_escrows s)(b \<mapsto> after_refund e amt full entry), st_metrics := m\<rparr>"
    for w m
  obtain t w m where tok: "st_token s = Some t"
      "tk_transfer env t (current_contract_address env) r amt (st_world s) = Some w"
    and s': "book_of E s' =
      book_of E (refund_counters (status e) (refund_status e amt full) amt (X w m))"
    using assms(2,3) terms
    by (auto simp: refund_def res_simps Let_def after_refund_def refund_status_def entry_def
        X_def if_distrib [where f = "book_of E"] cong: if_cong)
  note h = held_out [OF assms(1) tok]
  have st: "status e = Locked \<or> status e = PartiallyRefunded"
      "refund_status e amt full = Refunded \<or> refund_status e amt full = PartiallyRefunded"
    using g(2) by (auto simp: live_def refund_status_def)
  have "bstep (book_of E s) (M_refund b amt full (remaining_amount e)) (book_of E s')"
    unfolding s' refund_counters_book [OF st]
    by (rule bstep_eq [OF bstep.refund
          [where h = "held E (s\<lparr>st_world := w\<rparr>)" and e = e and entry = entry]])
      (use g h assms(3) in \<open>auto intro!: book_eqI held_cong
        simp: view_defs fun_eq_iff X_def entry_def\<close>)
  then show ?thesis by (simp add: terms)
qed

section \<open>Batches\<close>

text \<open>What the validation loops establish, and what one processing step keeps of it.\<close>

definition refundable :: "'w state \<Rightarrow> u64 \<Rightarrow> bool" where
  "refundable s b \<longleftrightarrow> st_claims s b = None \<and>
     (\<exists>e. st_escrows s b = Some e \<and> live e \<and> 0 < remaining_amount e)"

definition releasable :: "'w state \<Rightarrow> u64 \<Rightarrow> bool" where
  "releasable s b \<longleftrightarrow> st_claims s b = None \<and>
     (\<exists>e. st_escrows s b = Some e \<and> status e = Locked)"

lemma unique_ids_Inr:
  "unique_ids_from ids seen = Inr u \<longleftrightarrow> distinct ids \<and> (\<forall>b \<in> set ids. seen b = None)"
  by (induction ids arbitrary: seen) (auto split: if_splits)

lemma validate_unique_Inr [res_simps]:
  "validate_unique_bounty_ids ids = Inr u \<longleftrightarrow> distinct ids"
  by (simp add: validate_unique_bounty_ids_def unique_ids_Inr)

lemma sweep_validate_Inr:
  "sweep_validate env s ids = Inr u \<longleftrightarrow>
     (\<forall>b \<in> set ids. refundable s b \<and> deadline (the (st_escrows s b)) \<le> timestamp env)"
  by (induction ids) (auto simp: res_simps refundable_def)

lemma sweep_one_sim:
  assumes "valid_env E env" and "refundable s b" and "sweep_one env s b = Inr s'"
  shows "bstep (book_of E s) (M_refund b (remaining_amount (the (st_escrows s b))) True
      (remaining_amount (the (st_escrows s b)))) (book_of E s')"
    and "b' \<noteq> b \<Longrightarrow> refundable s' b' = refundable s b'"
proof -
  obtain e where e: "st_escrows s b = Some e" "live e" "st_claims s b = None"
      "0 < remaining_amount e"
    using assms(2) by (auto simp: refundable_def)
  define entry where "entry = \<lparr>rr_amount = remaining_amount e, rr_recipient = depositor e,
    rr_timestamp = timestamp env, rr_mode = Full\<rparr>"
  define C where "C w = (if status e = Locked
    then transition_locked_to_refunded (remaining_amount e) (s\<lparr>st_world := w\<rparr>)
    else transition_partially_refunded_to_refunded (remaining_amount e) (s\<lparr>st_world := w\<rparr>))"
    for w
  obtain t w m where tok: "st_token s = Some t"
      "tk_transfer env t (current_contract_address env) (depositor e) (remaining_amount e)
         (st_world s) = Some w"
    and s': "book_of E s' = book_of E ((C w)\<lparr>st_escrows := (st_escrows s)
         (b \<mapsto> after_refund e (remaining_amount e) True entry), st_metrics := m\<rparr>)"
    and same: "st_escrows s' = (st_escrows s)
         (b \<mapsto> after_refund e (remaining_amount e) True entry)" "st_claims s' = st_claims s"
  proof (cases "status e = Locked")
    case True
    then show ?thesis
      using assms(3) e that
      by (auto simp: sweep_one_def res_simps Let_def C_def entry_def after_refund_def
          refund_status_def counter_defs emit_def)
  next
    case False
    with e(2) have "status e = PartiallyRefunded" by (simp add: live_def)
    then show ?thesis
      using assms(3) e that
      by (auto simp: sweep_one_def res_simps Let_def C_def entry_def after_refund_def
          refund_status_def counter_defs emit_def)
  qed
  note h = held_out [OF assms(1) tok]
  show "bstep (book_of E s) (M_refund b (remaining_amount (the (st_escrows s b))) True
      (remaining_amount (the (st_escrows s b)))) (book_of E s')"
    unfolding s' e(1) option.sel
    by (rule bstep_eq [OF bstep.refund
          [where h = "held E (s\<lparr>st_world := w\<rparr>)" and e = e and entry = entry]])
      (use e h in \<open>auto intro!: book_eqI held_cong simp: counter_defs view_defs fun_eq_iff
        C_def entry_def refund_stats_def refund_status_def live_def\<close>)
  show "b' \<noteq> b \<Longrightarrow> refundable s' b' = refundable s b'"
    using same by (simp add: refundable_def)
qed

lemma sim_Cons:
  "bstep k m k1 \<Longrightarrow> (C1 \<longrightarrow> clean m) \<Longrightarrow> bsteps k1 ms k2 \<Longrightarrow> (C2 \<longrightarrow> list_all clean ms) \<Longrightarrow>
   \<exists>ms. bsteps k ms k2 \<and> (C1 \<and> C2 \<longrightarrow> list_all clean ms)"
  by (rule exI [of _ "m # ms"]) (auto intro: more_moves)

lemma distinct_map_head:
  "distinct (map f (x # xs)) \<Longrightarrow> y \<in> set xs \<Longrightarrow> f y \<noteq> f x"
  by (metis distinct.simps(2) image_eqI list.set_map list.simps(9))

lemma sweep_all_sim:
  assumes "valid_env E env" and "distinct ids" and "\<forall>b \<in> set ids. refundable s b"
    and "sweep_all env s ids n = Inr (s', n')"
  shows "\<exists>ms. bsteps (book_of E s) ms (book_of E s') \<and> list_all clean ms"
  using assms(2-)
proof (induction ids arbitrary: s n)
  case Nil
  then show ?case by (auto intro: done_moves exI [of _ "[]"])
next
  case (Cons b ids)
  obtain s1 where one: "sweep_one env s b = Inr s1"
    and rest: "sweep_all env s1 ids (n + 1) = Inr (s', n')"
    using Cons.prems(3) by (auto simp: res_simps)
  have b: "refundable s b" using Cons.prems(2) by simp
  have "\<forall>b' \<in> set ids. refundable s1 b'"
    using Cons.prems(1,2) sweep_one_sim(2) [OF assms(1) b one]
    by (metis distinct.simps(2) list.set_intros(2))
  then obtain ms where "bsteps (book_of E s1) ms (book_of E s')" "list_all clean ms"
    using Cons.IH [OF _ _ rest] Cons.prems(1) by auto
  then show ?case
    using sim_Cons [OF sweep_one_sim(1) [OF assms(1) b one], of True ms _ True] by simp
qed

lemma sweep_sim:
  assumes "valid_env E env" and "sweep_expired_refunds env s bs = Inr (s', n)"
  shows "\<exists>ms. bsteps (book_of E s) ms (book_of E s') \<and> list_all clean ms"
proof -
  obtain s1 where "distinct bs" "sweep_validate env s bs = Inr ()"
    and all: "sweep_all env (s\<lparr>st_reentrancy_guard := True\<rparr>) bs 0 = Inr (s1, n)"
    and s': "s' = s1\<lparr>st_reentrancy_guard := False\<rparr>"
    using assms(2) by (auto simp: sweep_expired_refunds_def res_simps Let_def)
  moreover have "\<forall>b \<in> set bs. refundable (s\<lparr>st_reentrancy_guard := True\<rparr>) b"
    using calculation(2) by (auto simp: sweep_validate_Inr refundable_def)
  ultimately show ?thesis
    using sweep_all_sim [OF assms(1) _ _ all] by simp
qed

lemma lock_one_sim:
  assumes "valid_env E env" and "authorized env (li_depositor item)"
    and "st_escrows s (li_bounty_id item) = None" and "lock_one env s item = Inr s'"
  shows "bstep (book_of E s)
      (M_lock (li_bounty_id item) (li_depositor item) (li_amount item) (li_deadline item))
      (book_of E s')"
    and "b \<noteq> li_bounty_id item \<Longrightarrow> st_escrows s' b = st_escrows s b"
proof -
  obtain t w where tok: "st_token s = Some t"
      "tk_transfer env t (li_depositor item) (current_contract_address env) (li_amount item)
         (st_world s) = Some w"
    and s': "s' = emit (FundsLocked (li_bounty_id item) (li_amount item) (li_depositor item)
         (li_deadline item)) (store_new_escrow env (li_depositor item) (li_bounty_id item)
         (li_amount item) (li_deadline item) (s\<lparr>st_world := w\<rparr>))"
    using assms(4) by (auto simp: lock_one_def res_simps)
  show "bstep (book_of E s)
      (M_lock (li_bounty_id item) (li_depositor item) (li_amount item) (li_deadline item))
      (book_of E s')"
    using lock_sim [OF assms(1-3) tok] by (simp add: s')
  show "b \<noteq> li_bounty_id item \<Longrightarrow> st_escrows s' b = st_escrows s b"
    by (simp add: s' emit_def store_new_escrow_def increment_locked_def set_counters_def Let_def)
qed

lemma lock_all_sim:
  assumes "valid_env E env" and "distinct (map li_bounty_id items)"
    and "\<forall>i \<in> set items. st_escrows s (li_bounty_id i) = None \<and>
           authorized env (li_depositor i)"
    and "lock_all env s items n = Inr (s', n')"
  shows "\<exists>ms. bsteps (book_of E s) ms (book_of E s') \<and> list_all clean ms"
  using assms(2-)
proof (induction items arbitrary: s n)
  case Nil
  then show ?case by (auto intro: done_moves exI [of _ "[]"])
next
  case (Cons item items)
  obtain s1 where one: "lock_one env s item = Inr s1"
    and rest: "lock_all env s1 items (n + 1) = Inr (s', n')"
    using Cons.prems(3) by (auto simp: res_simps)
  have i: "authorized env (li_depositor item)" "st_escrows s (li_bounty_id item) = None"
    using Cons.prems(2) by simp_all
  have "\<forall>i \<in> set items. st_escrows s1 (li_bounty_id i) = None \<and>
      authorized env (li_depositor i)"
  proof
    fix i assume "i \<in> set items"
    then show "st_escrows s1 (li_bounty_id i) = None \<and> authorized env (li_depositor i)"
      using Cons.prems(2) lock_one_sim(2) [OF assms(1) i one, of "li_bounty_id i"]
        distinct_map_head [OF Cons.prems(1)] by simp
  qed
  then obtain ms where "bsteps (book_of E s1) ms (book_of E s')" "list_all clean ms"
    using Cons.IH [OF _ _ rest] Cons.prems(1) by auto
  then show ?case
    using sim_Cons [OF lock_one_sim(1) [OF assms(1) i one], of True ms _ True] by simp
qed

lemma lock_validate_Inr:
  "lock_validate env s items = Inr u \<longleftrightarrow>
     (\<forall>i \<in> set items. st_escrows s (li_bounty_id i) = None \<and> 0 < li_amount i \<and>
        check_amount_policy s (li_amount i) = Inr () \<and> timestamp env < li_deadline i)"
  by (induction items) (auto simp: res_simps)

lemma auth_depositors_Inr:
  "auth_depositors env items seen = Inr u \<longleftrightarrow>
     (\<forall>i \<in> set items. li_depositor i \<in> set seen \<or> authorized env (li_depositor i))"
  by (induction items arbitrary: seen) (auto simp: res_simps split: if_splits)

lemma batch_lock_sim:
  assumes "valid_env E env" and "batch_lock_funds env s items = Inr (s', n)"
  shows "\<exists>ms. bsteps (book_of E s) ms (book_of E s') \<and> list_all clean ms"
proof -
  obtain s1 tot where *: "distinct (map li_bounty_id items)"
      "lock_validate env s items = Inr ()" "auth_depositors env items [] = Inr ()"
    and all: "lock_all env s items 0 = Inr (s1, n)"
    and s': "s' = emit (BatchFundsLocked n tot (timestamp env)) s1"
    using assms(2) by (auto simp: batch_lock_funds_def res_simps Let_def)
  then show ?thesis
    using lock_all_sim [OF assms(1) *(1) _ all] *(2,3)
    by (auto simp: lock_validate_Inr auth_depositors_Inr)
qed

lemma release_one_sim:
  assumes "valid_env E env" and "releasable s (ri_bounty_id item)"
    and "release_one env s item = Inr s'"
  shows "bstep (book_of E s) (M_release (ri_bounty_id item)
      (amount (the (st_escrows s (ri_bounty_id item))))
      (remaining_amount (the (st_escrows s (ri_bounty_id item))))) (book_of E s')"
    and "b \<noteq> ri_bounty_id item \<Longrightarrow> st_escrows s' b = st_escrows s b"
    and "st_claims s' = st_claims s"
proof -
  define b0 where "b0 = ri_bounty_id item"
  obtain e where e: "st_escrows s b0 = Some e" "status e = Locked" "st_claims s b0 = None"
    using assms(2) by (auto simp: releasable_def b0_def)
  obtain t w m where tok: "st_token s = Some t"
      "tk_transfer env t (current_contract_address env) (ri_contributor item) (amount e)
         (st_world s) = Some w"
    and s': "s' = emit (FundsReleased b0 (amount e) (ri_contributor item) (timestamp env))
      ((transition_locked_to_released (amount e) (s\<lparr>st_world := w,
         st_escrows := (st_escrows s)(b0 \<mapsto> paid_out e)\<rparr>))\<lparr>st_metrics := m\<rparr>)"
    using assms(3) e by (auto simp: release_one_def res_simps Let_def paid_out_def b0_def)
  note h = held_out [OF assms(1) tok]
  show "bstep (book_of E s) (M_release (ri_bounty_id item)
      (amount (the (st_escrows s (ri_bounty_id item))))
      (remaining_amount (the (st_escrows s (ri_bounty_id item))))) (book_of E s')"
    unfolding s' b0_def [symmetric] e(1) option.sel
    by (rule bstep_eq [OF bstep.release [where h = "held E (s\<lparr>st_world := w\<rparr>)" and e = e]])
      (use e h in \<open>auto intro!: book_eqI held_cong simp: counter_defs view_defs fun_eq_iff\<close>)
  show "b \<noteq> ri_bounty_id item \<Longrightarrow> st_escrows s' b = st_escrows s b"
    and "st_claims s' = st_claims s"
    by (simp_all add: s' emit_def counter_defs b0_def)
qed

text \<open>A batch release is clean when every item's escrow still holds its full amount.\<close>

definition untouched :: "'w state \<Rightarrow> u64 \<Rightarrow> bool" where
  "untouched s b \<longleftrightarrow> (\<forall>e. st_escrows s b = Some e \<longrightarrow> amount e = remaining_amount e)"

lemma release_all_sim:
  assumes "valid_env E env" and "distinct (map ri_bounty_id items)"
    and "\<forall>i \<in> set items. releasable s (ri_bounty_id i)"
    and "release_all env s items n = Inr (s', n')"
  shows "\<exists>ms. bsteps (book_of E s) ms (book_of E s') \<and>
    ((\<forall>i \<in> set items. untouched s (ri_bounty_id i)) \<longrightarrow> list_all clean ms)"
  using assms(2-)
proof (induction items arbitrary: s n)
  case Nil
  then show ?case by (auto intro: done_moves exI [of _ "[]"])
next
  case (Cons item items)
  obtain s1 where one: "release_one env s item = Inr s1"
    and rest: "release_all env s1 items (n + 1) = Inr (s', n')"
    using Cons.prems(3) by (auto simp: res_simps)
  have i: "releasable s (ri_bounty_id item)" using Cons.prems(2) by simp
  note sim = release_one_sim [OF assms(1) i one]
  have same: "st_escrows s1 (ri_bounty_id j) = st_escrows s (ri_bounty_id j)"
    if "j \<in> set items" for j
    using sim(2) [of "ri_bounty_id j"] distinct_map_head [OF Cons.prems(1) that] by simp
  have rel: "\<forall>j \<in> set items. releasable s1 (ri_bounty_id j)"
    using Cons.prems(2) same sim(3) by (simp add: releasable_def)
  obtain ms where ms: "bsteps (book_of E s1) ms (book_of E s')"
      "(\<forall>j \<in> set items. untouched s1 (ri_bounty_id j)) \<longrightarrow> list_all clean ms"
    using Cons.IH [OF _ rel rest] Cons.prems(1) by auto
  have "clean (M_release b (amount (the (st_escrows s (ri_bounty_id item))))
      (remaining_amount (the (st_escrows s (ri_bounty_id item)))))"
    if "untouched s (ri_bounty_id item)" for b
    using that i by (auto simp: untouched_def releasable_def)
  then show ?case
    using sim_Cons [OF sim(1) _ ms, of "untouched s (ri_bounty_id item)"] same
    by (simp add: untouched_def)
qed

lemma release_validate_Inr:
  "release_validate s items acc = Inr r \<Longrightarrow> \<forall>i \<in> set items. releasable s (ri_bounty_id i)"
  by (induction items arbitrary: acc) (auto simp: res_simps releasable_def)

lemma batch_release_sim:
  assumes "valid_env E env" and "batch_release_funds env s items = Inr (s', n)"
  shows "\<exists>ms. bsteps (book_of E s) ms (book_of E s') \<and>
    ((\<forall>i \<in> set items. untouched s (ri_bounty_id i)) \<longrightarrow> list_all clean ms)"
proof -
  obtain s1 tot where *: "distinct (map ri_bounty_id items)"
      "release_validate s items 0 = Inr tot"
    and all: "release_all env s items 0 = Inr (s1, n)"
    and s': "s' = emit (BatchFundsReleased n tot (timestamp env)) s1"
    using assms(2) by (auto simp: batch_release_funds_def res_simps Let_def)
  then show ?thesis
    using release_all_sim [OF assms(1) *(1) release_validate_Inr [OF *(2)] all] by simp
qed

section \<open>Simulation\<close>

text \<open>
  When a call is clean: a full release only meets escrows nothing was paid out of, and a
  refund approved as \<open>Full\<close> is approved for everything that remains.
\<close>

fun clean_call :: "'w state \<Rightarrow> call \<Rightarrow> bool" where
  "clean_call s (Release_funds b c) \<longleftrightarrow> untouched s b"
| "clean_call s (Batch_release_funds items) \<longleftrightarrow>
     (\<forall>i \<in> set items. untouched s (ri_bounty_id i))"
| "clean_call s (Refund b) \<longleftrightarrow>
     (\<forall>e app. st_escrows s b = Some e \<longrightarrow> st_refund_approvals s b = Some app \<longrightarrow>
        ap_mode app = Full \<longrightarrow> ap_amount app = remaining_amount e)"
| "clean_call s _ \<longleftrightarrow> True"

lemma single_move:
  "bstep k m k' \<Longrightarrow> (C \<longrightarrow> clean m) \<Longrightarrow> \<exists>ms. bsteps k ms k' \<and> (C \<longrightarrow> list_all clean ms)"
  by (rule exI [of _ "[m]"]) (auto intro: bsteps_single)

lemma no_move: "k' = k \<Longrightarrow> \<exists>ms. bsteps k ms k' \<and> (C \<longrightarrow> list_all clean ms)"
  by (rule exI [of _ "[]"]) (auto intro: done_moves)

lemma refund_call_sim:
  assumes "valid_env E env" and "refund env s b = Inr s'"
  shows "\<exists>ms. bsteps (book_of E s) ms (book_of E s') \<and>
    (clean_call s (Refund b) \<longrightarrow> list_all clean ms)"
proof -
  obtain e where e: "st_escrows s b = Some e"
    using assms(2) by (auto simp: refund_def res_simps)
  have "0 < fst (refund_terms e (st_refund_approvals s b)) \<and>
      fst (refund_terms e (st_refund_approvals s b)) \<le> remaining_amount e"
    using assms(2) e by (auto simp: refund_def res_simps Let_def split: prod.splits)
  then show ?thesis
    by (intro single_move [OF refund_sim [OF assms e]])
      (auto simp: e refund_terms_def split: option.splits)
qed

lemma release_call_sim:
  assumes "valid_env E env" and "release_funds env s b r = Inr s'"
  shows "\<exists>ms. bsteps (book_of E s) ms (book_of E s') \<and>
    (clean_call s (Release_funds b r) \<longrightarrow> list_all clean ms)"
proof -
  obtain e where e: "st_escrows s b = Some e"
    using assms(2) by (auto simp: release_funds_def res_simps)
  show ?thesis
    by (intro single_move [OF release_funds_sim [OF assms e]]) (auto simp: untouched_def e)
qed

lemma claim_call_sim:
  assumes "valid_env E env" and "claim env s b = Inr s'"
  shows "\<exists>ms. bsteps (book_of E s) ms (book_of E s') \<and> (C \<longrightarrow> list_all clean ms)"
  using claim_sim [OF assms] by (auto intro: single_move)

lemma init_call_sim:
  assumes "valid_env E env" and "init env s a t = Inr s'"
    and "st_admin s = None \<longleftrightarrow> st_token s = None"
  shows "\<exists>ms. bsteps (book_of E s) ms (book_of E s') \<and> (C \<longrightarrow> list_all clean ms)"
proof -
  have "st_token s = None" using assms(2,3) by (auto simp: init_def split: if_splits)
  then show ?thesis by (intro single_move [OF init_sim [OF assms(1,2)]]) simp_all
qed

lemma batch_release_call_sim:
  assumes "valid_env E env" and "batch_release_funds env s items = Inr (s', n)"
  shows "\<exists>ms. bsteps (book_of E s) ms (book_of E s') \<and>
    (clean_call s (Batch_release_funds items) \<longrightarrow> list_all clean ms)"
  using batch_release_sim [OF assms] by simp

theorem exec_sim:
  assumes "valid_env E env" and "exec env c s = Inr s'"
    and "st_admin s = None \<longleftrightarrow> st_token s = None"
  shows "\<exists>ms. bsteps (book_of E s) ms (book_of E s') \<and> (clean_call s c \<longrightarrow> list_all clean ms)"
proof (cases "admin_call c")
  case True
  then show ?thesis using assms(2) by (intro no_move admin_call_book)
next
  case False
  show ?thesis
    using assms False
    by (cases c)
      (auto simp del: clean_call.simps simp: drop_count_Inr
        intro: init_call_sim release_call_sim claim_call_sim refund_call_sim
          single_move [OF lock_funds_sim] single_move [OF authorize_claim_sim]
          single_move [OF cancel_sim] single_move [OF partial_release_sim]
          single_move [OF governance_sim] batch_release_call_sim
        dest: sweep_sim batch_lock_sim)
qed

section \<open>Frame of the fund-moving calls\<close>

definition settings_same :: "'w state \<Rightarrow> 'w state \<Rightarrow> bool" where
  "settings_same s s' \<longleftrightarrow>
     st_admin s' = st_admin s \<and> st_token s' = st_token s \<and>
     st_fee_config s' = st_fee_config s \<and> st_multisig s' = st_multisig s \<and>
     st_claim_window s' = st_claim_window s \<and> st_pause_flags s' = st_pause_flags s \<and>
     st_amount_policy s' = st_amount_policy s \<and> st_breaker s' = st_breaker s \<and>
     st_gov s' = st_gov s \<and> st_wasm s' = st_wasm s \<and>
     aa_config (st_abuse s') = aa_config (st_abuse s) \<and>
     aa_whitelist (st_abuse s') = aa_whitelist (st_abuse s) \<and>
     st_reentrancy_guard s' = st_reentrancy_guard s"

lemma settings_same_refl [simp]: "settings_same s s"
  by (simp add: settings_same_def)

lemma settings_same_trans: "settings_same a b \<Longrightarrow> settings_same b c \<Longrightarrow> settings_same a c"
  by (simp add: settings_same_def)

lemma settings_same_simps [simp]:
  "settings_same a (emit e s) = settings_same a s"
  "settings_same a (set_counters s c) = settings_same a s"
  "settings_same a (clear_release_approval b s) = settings_same a s"
  "settings_same a (s\<lparr>st_escrows := x1\<rparr>) = settings_same a s"
  "settings_same a (s\<lparr>st_index := x2\<rparr>) = settings_same a s"
  "settings_same a (s\<lparr>st_depositor_index := x3\<rparr>) = settings_same a s"
  "settings_same a (s\<lparr>st_refund_approvals := x4\<rparr>) = settings_same a s"
  "settings_same a (s\<lparr>st_claims := x5\<rparr>) = settings_same a s"
  "settings_same a (s\<lparr>st_metrics := x6\<rparr>) = settings_same a s"
  "settings_same a (s\<lparr>st_world := x7\<rparr>) = settings_same a s"
  by (simp_all add: settings_same_def emit_def set_counters_def clear_release_approval_def)

lemma settings_same_guard:
  "\<not> st_reentrancy_guard a \<Longrightarrow> settings_same (a\<lparr>st_reentrancy_guard := True\<rparr>) s \<Longrightarrow>
   settings_same a (s\<lparr>st_reentrancy_guard := False\<rparr>)"
  by (simp add: settings_same_def)

lemma settings_same_store [simp]:
  "settings_same a (store_new_escrow env d b amt dl s) = settings_same a s"
  by (simp add: store_new_escrow_def increment_locked_def Let_def)

lemma settings_same_refund_counters [simp]:
  "settings_same a (refund_counters st st' amt s) = settings_same a s"
  by (cases st; cases st') (simp_all add: refund_counters_def counter_set_defs)

lemma settings_same_if [simp]:
  "settings_same a (if c then s else s') = (if c then settings_same a s else settings_same a s')"
  by simp

lemma sweep_one_settings: "sweep_one env s b = Inr s' \<Longrightarrow> settings_same s s'"
  by (auto simp: sweep_one_def res_simps Let_def counter_set_defs)

lemma lock_one_settings: "lock_one env s i = Inr s' \<Longrightarrow> settings_same s s'"
  by (auto simp: lock_one_def res_simps)

lemma release_one_settings: "release_one env s i = Inr s' \<Longrightarrow> settings_same s s'"
  by (auto simp: release_one_def res_simps Let_def counter_set_defs)

lemma sweep_all_settings: "sweep_all env s ids n = Inr (s', n') \<Longrightarrow> settings_same s s'"
  by (induction ids arbitrary: s n)
    (auto simp: res_simps intro: settings_same_trans sweep_one_settings)

lemma lock_all_settings: "lock_all env s items n = Inr (s', n') \<Longrightarrow> settings_same s s'"
  by (induction items arbitrary: s n)
    (auto simp: res_simps intro: settings_same_trans lock_one_settings)

lemma release_all_settings: "release_all env s items n = Inr (s', n') \<Longrightarrow> settings_same s s'"
  by (induction items arbitrary: s n)
    (auto simp: res_simps intro: settings_same_trans release_one_settings)

lemma check_rate_limit_frame:
  "check_rate_limit now a s = Inr s' \<Longrightarrow>
   aa_config s' = aa_config s \<and> aa_whitelist s' = aa_whitelist s"
  by (auto simp: check_rate_limit_def res_simps Let_def split: if_splits)

fun fund_call :: "call \<Rightarrow> bool" where
  "fund_call (Lock_funds _ _ _ _) = True"
| "fund_call (Release_funds _ _) = True"
| "fund_call (Authorize_claim _ _) = True"
| "fund_call (Claim _) = True"
| "fund_call (Cancel_pending_claim _) = True"
| "fund_call (Approve_refund _ _ _ _) = True"
| "fund_call (Partial_release _ _ _) = True"
| "fund_call (Refund _) = True"
| "fund_call (Sweep_expired_refunds _) = True"
| "fund_call (Batch_lock_funds _) = True"
| "fund_call (Batch_release_funds _) = True"
| "fund_call _ = False"

lemma refund_settings:
  assumes "refund env s b = Inr s'"
  shows "settings_same s s'"
proof -
  obtain e where e: "load_refundable_escrow s b = Inr e"
    using assms by (auto simp: refund_def bnd_Inr)
  obtain amt r full where terms: "refund_terms e (st_refund_approvals s b) = (amt, r, full)"
    by (cases "refund_terms e (st_refund_approvals s b)") auto
  show ?thesis
    using assms e terms
    by (auto simp: refund_def res_simps Let_def intro!: settings_same_guard)
qed

lemma sweep_settings: "sweep_expired_refunds env s bs = Inr (s', n) \<Longrightarrow> settings_same s s'"
  by (auto simp: sweep_expired_refunds_def res_simps Let_def
      intro!: settings_same_guard dest!: sweep_all_settings)

lemma batch_settings:
  "batch_lock_funds env s items = Inr (s', n) \<Longrightarrow> settings_same s s'"
  "batch_release_funds env s rel = Inr (s', n) \<Longrightarrow> settings_same s s'"
  by (auto simp: batch_lock_funds_def batch_release_funds_def res_simps Let_def
      dest!: lock_all_settings release_all_settings)

lemma lock_funds_settings: "lock_funds env s d b amt dl = Inr s' \<Longrightarrow> settings_same s s'"
  by (auto simp: lock_funds_def res_simps Let_def dest!: check_rate_limit_frame)
    (simp add: settings_same_def)

lemma release_claim_settings:
  "release_funds env s b r = Inr s' \<Longrightarrow> settings_same s s'"
  "claim env s b = Inr s' \<Longrightarrow> settings_same s s'"
  "partial_release env s b r amt = Inr s' \<Longrightarrow> settings_same s s'"
  "authorize_claim env s b r = Inr s' \<Longrightarrow> settings_same s s'"
  "cancel_pending_claim env s b = Inr s' \<Longrightarrow> settings_same s s'"
  "approve_refund env s b amt r mode = Inr s' \<Longrightarrow> settings_same s s'"
  by (auto simp: release_funds_def claim_def partial_release_def authorize_claim_def
      cancel_pending_claim_def approve_refund_def res_simps Let_def counter_set_defs
      intro!: settings_same_guard)

lemma fund_call_settings: "fund_call c \<Longrightarrow> exec env c s = Inr s' \<Longrightarrow> settings_same s s'"
  by (cases c)
    (auto simp: drop_count_Inr intro: refund_settings sweep_settings batch_settings
      lock_funds_settings release_claim_settings)

section \<open>Invariants of the reachable states\<close>

text \<open>
  The first invariant ties the token to the admin (they are set together); the book's
  well-formedness needs it, so it is interpreted relative to it. The other three are about
  settings that no call sequence can bring about: a leaked reentrancy guard, an open circuit
  breaker and a rate limit other than the default.
\<close>

definition token_ok :: "'w state \<Rightarrow> bool" where
  "token_ok s \<longleftrightarrow> (st_admin s = None \<longleftrightarrow> st_token s = None)"

lemma admin_call_token: "admin_call c \<Longrightarrow> exec env c s = Inr s' \<Longrightarrow>
    (case c of Set_anti_abuse_admin a \<Rightarrow> st_admin s \<noteq> None \<and> st_admin s' = Some a
      | _ \<Rightarrow> st_admin s' = st_admin s) \<and>
    st_token s' = st_token s \<and>
    st_reentrancy_guard s' = st_reentrancy_guard s \<and> st_escrows s' = st_escrows s \<and>
    aa_config (st_abuse s') = aa_config (st_abuse s)"
  by (cases c)
    (auto simp: admin_defs res_simps Let_def emit_def emit_pause_def aa_set_admin_def
      aa_set_whitelist_def split: if_splits option.splits)

lemma other_calls:
  "\<not> fund_call c \<Longrightarrow> \<not> admin_call c \<Longrightarrow>
   (\<exists>a t. c = Init a t) \<or> (\<exists>p. c = Execute_governance_proposal p)"
  by (cases c) auto

lemma governance_world:
  "execute_governance_proposal env s p = Inr s' \<Longrightarrow> \<exists>w. s' = s\<lparr>st_world := w\<rparr>"
  by (auto simp: execute_governance_proposal_def res_simps split: if_splits)

lemma init_Inr:
  "init env s a t = Inr s' \<longleftrightarrow> st_admin s = None \<and> authorized env a \<and>
     s' = emit (BountyEscrowInitialized a t (timestamp env))
       (s\<lparr>st_admin := Some a, st_token := Some t\<rparr>)"
  by (auto simp: init_def res_simps)

text \<open>A property of the settings is kept once every call that is not a fund call keeps it.\<close>

lemma exec_cases:
  assumes "exec env c s = Inr s'"
  obtains "settings_same s s'" "fund_call c"
  | "admin_call c" "\<not> fund_call c" "exec env c s = Inr s'"
  | a t where "c = Init a t" "st_admin s = None" "authorized env a"
      "s' = emit (BountyEscrowInitialized a t (timestamp env))
         (s\<lparr>st_admin := Some a, st_token := Some t\<rparr>)"
  | w where "s' = s\<lparr>st_world := w\<rparr>"
proof (cases "fund_call c")
  case True
  then show ?thesis using that(1) fund_call_settings assms by blast
next
  case False
  show ?thesis
  proof (cases "admin_call c")
    case True
    then show ?thesis using that(2) False assms by blast
  next
    case no: False
    then show ?thesis
      using other_calls [OF False no] assms that(3,4)
      by (auto simp: init_Inr dest!: governance_world)
  qed
qed

lemma token_ok_exec: "exec env c s = Inr s' \<Longrightarrow> token_ok s \<Longrightarrow> token_ok s'"
  by (erule exec_cases)
    (auto simp: token_ok_def settings_same_def emit_def split: call.splits dest!: admin_call_token)

lemma guard_exec: "exec env c s = Inr s' \<Longrightarrow> st_reentrancy_guard s' = st_reentrancy_guard s"
  by (erule exec_cases) (auto simp: settings_same_def emit_def dest: admin_call_token)

lemma limiter_exec:
  "exec env c s = Inr s' \<Longrightarrow> aa_config (st_abuse s') = aa_config (st_abuse s)"
  by (erule exec_cases) (auto simp: settings_same_def emit_def dest: admin_call_token)

lemma breaker_admin_calls:
  "admin_call c \<Longrightarrow> exec env c s = Inr s' \<Longrightarrow> get_state (st_breaker s) = Closed \<Longrightarrow>
   get_state (st_breaker s') = Closed"
  by (cases c)
    (auto simp: admin_defs res_simps Let_def emit_def emit_pause_def set_circuit_admin_def
      reset_circuit_breaker_def set_config_def close_circuit_def emit_circuit_event_def
      get_state_def split: if_splits option.splits)

lemma breaker_exec:
  "exec env c s = Inr s' \<Longrightarrow> get_state (st_breaker s) = Closed \<Longrightarrow>
   get_state (st_breaker s') = Closed"
  by (erule exec_cases) (auto simp: settings_same_def emit_def dest: breaker_admin_calls)

interpretation token_inv: invariant_system is_initial "step E" token_ok
  for E :: "'w env"
proof unfold_locales
  show "token_ok s" if "is_initial s" for s :: "'w state"
    using that by (auto simp: is_initial_def token_ok_def initial_state_def)
  show "token_ok t" if "token_ok s" "step E s l t" for s t :: "'w state" and l
    using that(2,1)
  proof (induction rule: step.induct)
    case (invoke env c s s')
    then show ?case using token_ok_exec by blast
  next
    case (outside s w)
    then show ?case by (simp add: token_ok_def)
  qed
qed

interpretation book_inv: relative_invariant is_initial "step E" token_ok
    "\<lambda>s. book_ok (book_of E s)"
  for E :: "'w env"
proof unfold_locales
  show "book_ok (book_of E s)" if "is_initial s" for s :: "'w state"
    using that
    by (auto simp: is_initial_def initial_state_def book_ok_def index_ok_def depositors_ok_def
        escrows_ok_def claims_ok_def view_defs)
  show "book_ok (book_of E t)"
    if "token_ok s" "book_ok (book_of E s)" "step E s l t" for s t :: "'w state" and l
    using that(3,1,2)
  proof (induction rule: step.induct)
    case (invoke env c s s')
    then show ?case
      using exec_sim [OF invoke.hyps] by (auto simp: token_ok_def intro: book_ok_steps)
  next
    case (outside s w)
    then show ?case
      by (auto simp: book_ok_def index_ok_def depositors_ok_def escrows_ok_def claims_ok_def
          view_defs)
  qed
qed

interpretation guard_inv: invariant_system is_initial "step E"
    "\<lambda>s. \<not> st_reentrancy_guard s"
  for E :: "'w env"
proof unfold_locales
  show "\<not> st_reentrancy_guard s" if "is_initial s" for s :: "'w state"
    using that by (auto simp: is_initial_def initial_state_def)
  show "\<not> st_reentrancy_guard t" if "\<not> st_reentrancy_guard s" "step E s l t"
    for s t :: "'w state" and l
    using that(2,1) by (induction rule: step.induct) (auto dest: guard_exec)
qed

interpretation breaker_inv: invariant_system is_initial "step E"
    "\<lambda>s. get_state (st_breaker s) = Closed"
  for E :: "'w env"
proof unfold_locales
  show "get_state (st_breaker s) = Closed" if "is_initial s" for s :: "'w state"
    using that by (auto simp: is_initial_def initial_state_def empty_breaker_def get_state_def)
  show "get_state (st_breaker t) = Closed" if "get_state (st_breaker s) = Closed" "step E s l t"
    for s t :: "'w state" and l
    using that(2,1) by (induction rule: step.induct) (auto dest: breaker_exec)
qed

interpretation limiter_inv: invariant_system is_initial "step E"
    "\<lambda>s. aa_config (st_abuse s) = None"
  for E :: "'w env"
proof unfold_locales
  show "aa_config (st_abuse s) = None" if "is_initial s" for s :: "'w state"
    using that by (auto simp: is_initial_def initial_state_def empty_anti_abuse_def)
  show "aa_config (st_abuse t) = None" if "aa_config (st_abuse s) = None" "step E s l t"
    for s t :: "'w state" and l
    using that(2,1) by (induction rule: step.induct) (auto dest: limiter_exec)
qed

section \<open>Runs that only make clean calls\<close>

inductive clean_reach :: "'w env \<Rightarrow> 'w state \<Rightarrow> bool" for E where
  clean_init: "is_initial s \<Longrightarrow> clean_reach E s"
| clean_invoke: "clean_reach E s \<Longrightarrow> valid_env E env \<Longrightarrow> clean_call s c \<Longrightarrow>
    exec env c s = Inr s' \<Longrightarrow> clean_reach E s'"
| clean_outside: "clean_reach E s \<Longrightarrow> held E s \<le> held E (s\<lparr>st_world := w\<rparr>) \<Longrightarrow>
    clean_reach E (s\<lparr>st_world := w\<rparr>)"

lemma clean_reach_reachable: "clean_reach E s \<Longrightarrow> reachable E s"
  by (induction rule: clean_reach.induct)
    (auto intro: reach_init reach_step step.intros)

text \<open>What the moves of a clean run keep, from the empty book on.\<close>

lemma clean_run_moves:
  "clean_reach E s \<Longrightarrow>
   \<exists>w ms. bsteps (book_of E (initial_state w)) ms (book_of E s) \<and> list_all clean ms"
proof (induction rule: clean_reach.induct)
  case (clean_init s)
  then obtain w where "s = initial_state w" by (auto simp: is_initial_def)
  then show ?case by (intro exI [of _ w] exI [of _ "[]"]) (simp add: done_moves)
next
  case (clean_invoke s env c s')
  have tok: "st_admin s = None \<longleftrightarrow> st_token s = None"
    using token_inv.reach_inv [OF clean_reach_reachable [OF clean_invoke.hyps(1)]]
    unfolding token_ok_def .
  obtain ms where "bsteps (book_of E s) ms (book_of E s')" "list_all clean ms"
    using exec_sim [OF clean_invoke.hyps(2,4) tok] clean_invoke.hyps(3) by (elim exE conjE) simp
  then show ?case using clean_invoke.IH bsteps_append by (metis list_all_append)
next
  case (clean_outside s w)
  have "bstep (book_of E s) M_idle (book_of E (s\<lparr>st_world := w\<rparr>))"
    using clean_outside.hyps(2)
    by (intro bstep_eq [OF bstep.idle [where h = "held E (s\<lparr>st_world := w\<rparr>)"]])
      (auto intro!: book_eqI simp: view_defs fun_eq_iff)
  then have one: "bsteps (book_of E s) [M_idle] (book_of E (s\<lparr>st_world := w\<rparr>))"
    by (rule bsteps_single)
  obtain w0 ms where "bsteps (book_of E (initial_state w0)) ms (book_of E s)"
      "list_all clean ms"
    using clean_outside.IH by blast
  then show ?case
    using bsteps_append [OF _ one] by (intro exI [of _ w0] exI [of _ "ms @ [M_idle]"]) simp
qed

lemma initial_book:
  "book_ok (book_of E (initial_state w))" "solvent (book_of E (initial_state w))"
  "counters_ok (book_of E (initial_state w))" "settled_ok (book_of E (initial_state w))"
  by (simp_all add: initial_state_def book_ok_def index_ok_def depositors_ok_def escrows_ok_def
      claims_ok_def view_defs solvent_def held_def counters_ok_def tallies_def zero_stats_def
      settled_ok_def)

lemma clean_reach_ok:
  assumes "clean_reach E s"
  shows "solvent (book_of E s)" and "settled_ok (book_of E s)"
    and "fits (book_of E s) \<Longrightarrow> counters_ok (book_of E s)"
proof -
  obtain w ms where run: "bsteps (book_of E (initial_state w)) ms (book_of E s)"
      "list_all clean ms"
    using clean_run_moves [OF assms] by blast
  show "solvent (book_of E s)" by (rule solvent_steps [OF run initial_book(1,2)])
  show "settled_ok (book_of E s)" by (rule settled_ok_steps [OF run initial_book(4)])
  show "fits (book_of E s) \<Longrightarrow> counters_ok (book_of E s)"
    by (rule counters_ok_steps [OF run initial_book(1) _ initial_book(3)])
qed

end
