(* ===== verification/BountyScenario.thy ===== *)
theory BountyScenario
  imports BountySystem
begin

text \<open>
  Concrete runs of the contract on the sample host. The witnesses of the properties and the
  closed theorems about what a sequence of calls can bring about evaluate these runs.
\<close>

section \<open>Runs\<close>

definition call_in :: "'w env \<times> call \<Rightarrow> 'w state \<Rightarrow> 'w state bres" where
  "call_in = (\<lambda>(env, c). exec env c)"

definition run :: "('w env \<times> call) list \<Rightarrow> 'w state \<Rightarrow> 'w state bres" where
  "run = fold_res call_in"

lemma run_simps [simp]:
  "run [] s = Inr s"
  "run ((env, c) # cs) s = bnd (exec env c s) (run cs)"
  by (simp_all add: run_def call_in_def)

lemma run_reachable:
  "run cs s = Inr s' \<Longrightarrow> list_all (\<lambda>(env, c). valid_env E env) cs \<Longrightarrow> reachable E s \<Longrightarrow>
   reachable E s'"
proof (induction cs arbitrary: s)
  case (Cons x cs)
  obtain env c where x: "x = (env, c)" by (cases x)
  then obtain s1 where "exec env c s = Inr s1" "run cs s1 = Inr s'" "valid_env E env"
    using Cons.prems by (auto simp: bnd_Inr)
  then show ?case using Cons by (auto simp: x intro: reach_step step.invoke)
qed simp

text \<open>Everybody starts with 1000 tokens; the contract, address 0, with none.\<close>

definition start :: "ledger state" where
  "start = initial_state (\<lambda>a. if a = 0 then 0 else 1000)"

abbreviation sample :: "ledger env" where
  "sample \<equiv> sample_env 0 []"

lemma start_initial [simp]: "is_initial start"
  by (auto simp: is_initial_def start_def)

lemma start_reachable [simp]: "reachable sample start"
  by (rule reach_init) simp

lemmas eval_defs = start_def initial_state_def init_def require_auth_def require_admin_def
  lock_funds_def check_rate_limit_def empty_anti_abuse_def is_whitelisted_def aa_get_config_def
  initial_address_state_def breaker_gate_def check_and_allow_def empty_breaker_def get_state_def
  check_amount_policy_def execute_token_transfer_def check_paused_def get_pause_flags_def
  no_pause_def token_transfer_def ledger_transfer_def store_new_escrow_def increment_locked_def
  escrow_index_def depositor_index_def init_bounty_analytics_def set_counters_def get_counters_def
  zero_stats_def locked_stats_def emit_def arith_defs Let_def
  check_governance_requirements_def check_governance_version_def empty_gov_link_def
  link_get_governance_contract_def check_release_approval_def get_multisig_config_def
  default_multisig_def release_funds_def partial_release_def clear_release_approval_def
  update_analytics_on_release_def map_overflow_def transition_locked_to_released_def
  released_stats_def partial_release_from_locked_def part_released_stats_def
  finalize_partial_release_to_released_def finalized_stats_def set_claim_window_def
  authorize_claim_def claim_def cancel_pending_claim_def approve_refund_def refund_def
  load_refundable_escrow_def refund_terms_def refund_counters_def
  transition_locked_to_refunded_def refunded_stats_def partial_refund_from_locked_def
  part_refunded_stats_def transition_partially_refunded_to_refunded_def
  final_refunded_stats_def update_analytics_on_refund_def sweep_expired_refunds_def
  validate_unique_bounty_ids_def sweep_one_def batch_lock_funds_def lock_one_def
  batch_release_funds_def release_one_def drop_count_def MAX_BATCH_SIZE_def
  update_multisig_config_def set_emergency_pause_def

definition two_locks :: "(ledger env \<times> call) list" where
  "two_locks =
     [(sample_env 100 [1], Init 1 9),
      (sample_env 100 [2], Lock_funds 2 71 100 500),
      (sample_env 110 [3], Lock_funds 3 72 100 500)]"

text \<open>Calls that are clean in every state, so a run of them is a clean run.\<close>

definition always_clean :: "'w env \<times> call \<Rightarrow> bool" where
  "always_clean x \<longleftrightarrow> (\<forall>s :: 'w state. clean_call s (snd x))"

lemma run_clean_reach:
  "run cs s = Inr s' \<Longrightarrow> list_all (\<lambda>x. valid_env E (fst x) \<and> always_clean x) cs \<Longrightarrow>
   clean_reach E s \<Longrightarrow> clean_reach E s'"
proof (induction cs arbitrary: s)
  case (Cons x cs)
  obtain env c where x: "x = (env, c)" by (cases x)
  then obtain s1 where "exec env c s = Inr s1" "run cs s1 = Inr s'" "valid_env E env"
      "clean_call s c"
    using Cons.prems by (auto simp: bnd_Inr always_clean_def)
  then show ?case using Cons by (auto simp: x intro: clean_invoke)
qed simp

lemma start_clean [simp]: "clean_reach sample start"
  by (rule clean_init) simp

text \<open>The sample states after a list of calls.\<close>

definition after :: "(ledger env \<times> call) list \<Rightarrow> ledger state" where
  "after cs = (case run cs start of Inl _ \<Rightarrow> start | Inr s \<Rightarrow> s)"

lemma after_run: "is_ok (run cs start) \<Longrightarrow> run cs start = Inr (after cs)"
  by (auto simp: after_def is_ok_def split: sum.splits)

lemma after_reachable:
  "is_ok (run cs start) \<Longrightarrow> list_all (\<lambda>(env, c). valid_env sample env) cs \<Longrightarrow>
   reachable sample (after cs)"
  by (rule run_reachable [OF after_run]) simp_all

definition paid_in_parts :: "(ledger env \<times> call) list" where
  "paid_in_parts = two_locks @ [(sample_env 120 [1], Partial_release 71 5 60)]"

lemma paid_in_parts_ok: "is_ok (run paid_in_parts start)"
  by (simp add: paid_in_parts_def two_locks_def eval_defs)

lemma paid_in_parts_clean: "clean_reach sample (after paid_in_parts)"
  by (rule run_clean_reach [OF after_run [OF paid_in_parts_ok]])
    (simp_all add: paid_in_parts_def two_locks_def always_clean_def)

lemma paid_in_parts_reachable: "reachable sample (after paid_in_parts)"
  by (rule clean_reach_reachable [OF paid_in_parts_clean])

section \<open>Further runs\<close>

text \<open>A pending claim, an approved refund, and the states the closed theorems are about.\<close>

definition claimable :: "(ledger env \<times> call) list" where
  "claimable = two_locks @
     [(sample_env 120 [1], Set_claim_window 50),
      (sample_env 130 [1], Authorize_claim 71 5)]"

definition approved_refund :: "(ledger env \<times> call) list" where
  "approved_refund = two_locks @ [(sample_env 120 [1], Approve_refund 71 30 6 Partial)]"

definition guarded :: "(ledger env \<times> call) list" where
  "guarded = two_locks @ [(sample_env 120 [1], Update_multisig_config 50 [4] 1)]"

definition stranded :: "(ledger env \<times> call) list" where
  "stranded = two_locks @
     [(sample_env 120 [1], Approve_refund 71 30 6 Full), (sample_env 130 [], Refund 71)]"

lemma claimable_reachable: "reachable sample (after claimable)"
  by (rule after_reachable) (simp_all add: claimable_def two_locks_def eval_defs)

lemma guarded_reachable: "reachable sample (after guarded)"
  by (rule after_reachable) (simp_all add: guarded_def two_locks_def eval_defs)

lemma stranded_reachable: "reachable sample (after stranded)"
  by (rule after_reachable) (simp_all add: stranded_def two_locks_def eval_defs)

end
