(* ===== verification/BountyProps.thy ===== *)
theory BountyProps
  imports BountyScenario
begin

text \<open>
  What each fund-moving entrypoint does when it returns: the authorisation and the guards it
  has passed, the one transfer it makes and the state it leaves. The properties are about one
  call in any state; the ones about sequences of calls are in the root theory.
\<close>

section \<open>Frame\<close>

named_theorems frame_simps \<open>the fields that the bookkeeping helpers leave alone\<close>

lemma emit_frame [frame_simps]:
  "st_admin (emit ev s) = st_admin s"
  "st_token (emit ev s) = st_token s"
  "st_escrows (emit ev s) = st_escrows s"
  "st_claims (emit ev s) = st_claims s"
  "st_release_approvals (emit ev s) = st_release_approvals s"
  "st_refund_approvals (emit ev s) = st_refund_approvals s"
  "st_world (emit ev s) = st_world s"
  "st_index (emit ev s) = st_index s"
  "st_depositor_index (emit ev s) = st_depositor_index s"
  by (simp_all add: emit_def)

lemma set_counters_frame [frame_simps]:
  "st_admin (set_counters s c) = st_admin s"
  "st_token (set_counters s c) = st_token s"
  "st_escrows (set_counters s c) = st_escrows s"
  "st_claims (set_counters s c) = st_claims s"
  "st_release_approvals (set_counters s c) = st_release_approvals s"
  "st_refund_approvals (set_counters s c) = st_refund_approvals s"
  "st_world (set_counters s c) = st_world s"
  "st_index (set_counters s c) = st_index s"
  "st_depositor_index (set_counters s c) = st_depositor_index s"
  by (simp_all add: set_counters_def)

lemma clear_frame [frame_simps]:
  "st_admin (clear_release_approval b s) = st_admin s"
  "st_token (clear_release_approval b s) = st_token s"
  "st_escrows (clear_release_approval b s) = st_escrows s"
  "st_claims (clear_release_approval b s) = st_claims s"
  "st_refund_approvals (clear_release_approval b s) = st_refund_approvals s"
  "st_world (clear_release_approval b s) = st_world s"
  "st_index (clear_release_approval b s) = st_index s"
  "st_depositor_index (clear_release_approval b s) = st_depositor_index s"
  by (simp_all add: clear_release_approval_def)

lemma clear_approval [frame_simps]: "st_release_approvals (clear_release_approval b s) b = None"
  by (simp add: clear_release_approval_def)

lemma escrow_index_frame [frame_simps]:
  "escrow_index (emit ev s) = escrow_index s"
  "escrow_index (set_counters s c) = escrow_index s"
  "depositor_index (emit ev s) = depositor_index s"
  "depositor_index (set_counters s c) = depositor_index s"
  "escrow_index (s\<lparr>st_abuse := x1\<rparr>) = escrow_index s"
  "depositor_index (s\<lparr>st_abuse := x1\<rparr>) = depositor_index s"
  "escrow_index (s\<lparr>st_world := x2\<rparr>) = escrow_index s"
  "depositor_index (s\<lparr>st_world := x2\<rparr>) = depositor_index s"
  by (simp_all add: escrow_index_def depositor_index_def fun_eq_iff emit_def set_counters_def)

lemma store_new_escrow_frame [frame_simps]:
  "st_world (store_new_escrow env dep b amt dl s) = st_world s"
  "st_token (store_new_escrow env dep b amt dl s) = st_token s"
  "st_escrows (store_new_escrow env dep b amt dl s) =
     (st_escrows s)(b \<mapsto> new_escrow dep amt dl)"
  "escrow_index (store_new_escrow env dep b amt dl s) = escrow_index s @ [b]"
  "depositor_index (store_new_escrow env dep b amt dl s) =
     (depositor_index s)(dep := depositor_index s dep @ [b])"
  by (simp_all add: store_new_escrow_def increment_locked_def frame_simps new_escrow_def Let_def)
    (simp_all add: escrow_index_def depositor_index_def fun_eq_iff)

lemma check_amount_policy_Inr [res_simps]:
  "check_amount_policy s amt = Inr u \<longleftrightarrow>
     (\<forall>lo hi. st_amount_policy s = Some (lo, hi) \<longrightarrow> lo \<le> amt \<and> amt \<le> hi)"
  by (auto simp: check_amount_policy_def split: option.splits if_splits)

lemma check_release_approval_Inr [res_simps]:
  "check_release_approval s b amt = Inr u \<longleftrightarrow>
     (threshold_amount (get_multisig_config s) \<le> amt \<longrightarrow>
        (\<exists>ra. st_release_approvals s b = Some ra \<and>
           required_signatures (get_multisig_config s) \<le> length (approvals ra)))"
  by (auto simp: check_release_approval_def res_simps Let_def not_less)

section \<open>Lock, release, claim and partial release\<close>

text \<open>
  A lock that returns was authorised by the depositor, used an unused bounty id and a
  future deadline, met the amount policy, moved exactly the amount to the contract and stored
  a fresh escrow for it, appending the id to both indexes and leaving all other escrows alone.
\<close>

theorem lock_funds_effect:
  assumes "lock_funds env s dep b amt dl = Inr s'"
  shows "authorized env dep \<and> st_admin s \<noteq> None \<and> st_escrows s b = None \<and>
    timestamp env < dl \<and> \<not> check_paused s ''lock'' \<and>
    (\<forall>lo hi. st_amount_policy s = Some (lo, hi) \<longrightarrow> lo \<le> amt \<and> amt \<le> hi) \<and>
    (\<exists>t. st_token s = Some t \<and> tk_transfer env t dep (current_contract_address env) amt
       (st_world s) = Some (st_world s')) \<and>
    st_escrows s' = (st_escrows s)(b \<mapsto> \<lparr>depositor = dep, amount = amt, remaining_amount = amt,
       status = Locked, deadline = dl, refund_history = []\<rparr>) \<and>
    escrow_index s' = escrow_index s @ [b] \<and>
    depositor_index s' = (depositor_index s)(dep := depositor_index s dep @ [b])"
proof -
  obtain abuse t w where *: "authorized env dep" "st_admin s \<noteq> None" "st_escrows s b = None"
      "timestamp env < dl" "\<not> check_paused s ''lock''"
      "\<forall>lo hi. st_amount_policy s = Some (lo, hi) \<longrightarrow> lo \<le> amt \<and> amt \<le> hi" "st_token s = Some t"
      "tk_transfer env t dep (current_contract_address env) amt (st_world s) = Some w"
    and s': "s' = emit (FundsLocked b amt dep dl)
      (emit (BountyActivityEvent b ''created'' amt (timestamp env))
      (emit (BountyStateTransitioned b ''new'' ''locked'' amt dep (timestamp env))
        (store_new_escrow env dep b amt dl (s\<lparr>st_abuse := abuse, st_world := w\<rparr>))))"
    using assms by (auto simp: lock_funds_def res_simps Let_def)
  show ?thesis
    using * by (simp add: s' frame_simps new_escrow_def)
qed

lemma lock_funds_effect_witness:
  "\<exists>s0 s'. run [(sample_env 100 [1], Init 1 9)] start = Inr s0 \<and>
     lock_funds (sample_env 100 [2]) s0 2 71 100 500 = Inr s' \<and> escrow_index s' = [71]"
proof -
  obtain s0 s' where run: "run [(sample_env 100 [1], Init 1 9)] start = Inr s0"
    and lock: "lock_funds (sample_env 100 [2]) s0 2 71 100 500 = Inr s'"
    and "escrow_index s0 = []"
    by (simp add: eval_defs)
  with lock_funds_effect [OF lock] show ?thesis by auto
qed

text \<open>
  A release that returns was authorised by the admin, met the governance requirements,
  found the bounty locked and without a pending claim, had the approvals its amount needs,
  and paid the escrow's original amount to the contributor, whatever remained of it.
\<close>

theorem release_funds_effect:
  assumes "release_funds env s b c = Inr s'"
  shows "\<exists>e a t. st_escrows s b = Some e \<and> status e = Locked \<and> st_claims s b = None \<and>
    st_admin s = Some a \<and> authorized env a \<and> \<not> check_paused s ''release'' \<and>
    check_governance_requirements env s = Inr () \<and>
    (threshold_amount (get_multisig_config s) \<le> amount e \<longrightarrow>
       (\<exists>ra. st_release_approvals s b = Some ra \<and>
          required_signatures (get_multisig_config s) \<le> length (approvals ra))) \<and>
    st_token s = Some t \<and>
    tk_transfer env t (current_contract_address env) c (amount e) (st_world s)
      = Some (st_world s') \<and>
    st_escrows s' = (st_escrows s)(b \<mapsto> e\<lparr>status := Released, remaining_amount := 0\<rparr>) \<and>
    st_release_approvals s' b = None"
proof -
  define X where "X w m e a = clear_release_approval b
      ((emit (FundsReleased b (amount e) c (timestamp env))
       (emit (BountyActivityEvent b ''released'' (amount e) (timestamp env))
       (emit (BountyStateTransitioned b ''locked'' ''released'' (amount e) a (timestamp env))
        (transition_locked_to_released (amount e)
          (s\<lparr>st_reentrancy_guard := True, st_escrows := (st_escrows s)
             (b \<mapsto> e\<lparr>status := Released, remaining_amount := 0\<rparr>), st_world := w,
             st_metrics := m\<rparr>)))))\<lparr>st_reentrancy_guard := False\<rparr>)" for w m e a
  obtain e a t w m where *: "st_escrows s b = Some e" "status e = Locked" "st_claims s b = None"
      "st_admin s = Some a" "authorized env a" "\<not> check_paused s ''release''"
      "check_governance_requirements env s = Inr ()"
      "check_release_approval s b (amount e) = Inr ()" "st_token s = Some t"
      "tk_transfer env t (current_contract_address env) c (amount e) (st_world s) = Some w"
    and s': "s' = X w m e a"
    unfolding X_def using assms
    by (auto simp: release_funds_def bnd_Inr ok_or_Inr if_Inl_Inr require_admin_Inr
        execute_token_transfer_Inr token_transfer_Inr map_overflow_Inr Let_def)
  show ?thesis
    using * by (auto simp: s' X_def frame_simps res_simps transition_locked_to_released_def)
qed

lemma release_funds_effect_witness:
  "\<exists>s0 s'. run two_locks start = Inr s0 \<and> release_funds (sample_env 130 [1]) s0 71 5 = Inr s' \<and>
     (\<exists>e. st_escrows s' 71 = Some e \<and> status e = Released)"
proof -
  obtain s0 s' where run: "run two_locks start = Inr s0"
    and rel: "release_funds (sample_env 130 [1]) s0 71 5 = Inr s'"
    by (simp add: two_locks_def eval_defs)
  with release_funds_effect [OF rel] show ?thesis by auto
qed

text \<open>
  A claim that returns was made by the recipient before the authorisation expired, on an
  authorisation not used before; it pays the authorised amount once, releases the escrow and
  marks the authorisation used, after which no claim of the bounty succeeds.
\<close>

theorem claim_effect:
  assumes "claim env s b = Inr s'"
  shows "(\<exists>cl e t. st_claims s b = Some cl \<and> authorized env (cl_recipient cl) \<and>
      timestamp env \<le> expires_at cl \<and> \<not> claimed cl \<and> st_escrows s b = Some e \<and>
      \<not> check_paused s ''release'' \<and> st_token s = Some t \<and>
      tk_transfer env t (current_contract_address env) (cl_recipient cl) (cl_amount cl)
        (st_world s) = Some (st_world s') \<and>
      st_escrows s' = (st_escrows s)(b \<mapsto> e\<lparr>status := Released, remaining_amount := 0\<rparr>) \<and>
      st_claims s' = (st_claims s)(b \<mapsto> cl\<lparr>claimed := True\<rparr>)) \<and>
    (\<forall>env'. \<not> is_ok (claim env' s' b))"
proof -
  define X where "X w cl e = (emit (DisputeResolved b Claimed (cl_recipient cl)
        (cl_recipient cl) (cl_amount cl) (timestamp env))
      (emit (ClaimExecuted b (cl_recipient cl) (cl_amount cl) (timestamp env))
        ((transition_locked_to_released (cl_amount cl)
          (s\<lparr>st_reentrancy_guard := True, st_escrows := (st_escrows s)
             (b \<mapsto> e\<lparr>status := Released, remaining_amount := 0\<rparr>)\<rparr>))
           \<lparr>st_claims := (st_claims s)(b \<mapsto> cl\<lparr>claimed := True\<rparr>), st_world := w\<rparr>)))
      \<lparr>st_reentrancy_guard := False\<rparr>" for w cl e
  obtain cl e t w where *: "st_claims s b = Some cl" "authorized env (cl_recipient cl)"
      "timestamp env \<le> expires_at cl" "\<not> claimed cl" "st_escrows s b = Some e"
      "\<not> check_paused s ''release''" "st_token s = Some t"
      "tk_transfer env t (current_contract_address env) (cl_recipient cl) (cl_amount cl)
        (st_world s) = Some w"
    and s': "s' = X w cl e"
    unfolding X_def using assms
    by (auto simp: claim_def res_simps Let_def transition_locked_to_released_def
        set_counters_def not_less)
  have claims: "st_claims s' = (st_claims s)(b \<mapsto> cl\<lparr>claimed := True\<rparr>)"
    by (simp add: s' X_def frame_simps)
  then have "\<not> is_ok (claim env' s' b)" for env'
    by (simp add: claim_def is_ok_def bnd_def Let_def split: sum.split)
  with claims * show ?thesis
    by (auto simp: s' X_def frame_simps transition_locked_to_released_def)
qed

lemma claim_effect_witness:
  "\<exists>s0 s'. run claimable start = Inr s0 \<and> claim (sample_env 180 [5]) s0 71 = Inr s' \<and>
     st_world s' 5 = 1100 \<and> \<not> is_ok (claim (sample_env 180 [5]) s' 71)"
proof -
  obtain s0 s' where "run claimable start = Inr s0"
    and cl: "claim (sample_env 180 [5]) s0 71 = Inr s'" and "st_world s' 5 = 1100"
    by (simp add: claimable_def two_locks_def eval_defs)
  with claim_effect [OF cl] show ?thesis by blast
qed

text \<open>
  C16: a partial release that returns was authorised by the admin and pays the given positive
  amount out of what remains; the escrow stays locked with the rest and becomes released
  exactly when nothing is left, and its original amount, depositor and deadline stay.
\<close>

theorem partial_release_effect:
  assumes "partial_release env s b c amt = Inr s'"
  shows "\<exists>e a t. st_escrows s b = Some e \<and> status e = Locked \<and> st_claims s b = None \<and>
    st_admin s = Some a \<and> authorized env a \<and> \<not> check_paused s ''release'' \<and>
    0 < amt \<and> amt \<le> remaining_amount e \<and>
    check_release_approval s b (amount e) = Inr () \<and> st_token s = Some t \<and>
    tk_transfer env t (current_contract_address env) c amt (st_world s) = Some (st_world s') \<and>
    st_escrows s' = (st_escrows s)(b \<mapsto> e\<lparr>remaining_amount := remaining_amount e - amt,
       status := (if amt = remaining_amount e then Released else Locked)\<rparr>) \<and>
    st_release_approvals s' b = None"
proof -
  obtain e a where *: "st_escrows s b = Some e" "status e = Locked" "st_claims s b = None"
      "st_admin s = Some a" "authorized env a" "\<not> check_paused s ''release''"
      "0 < amt" "amt \<le> remaining_amount e" "check_release_approval s b (amount e) = Inr ()"
    using assms by (auto simp: partial_release_def bnd_Inr ok_or_Inr if_Inl_Inr
        require_admin_Inr Let_def not_less not_le)
  have "\<exists>t. st_token s = Some t \<and>
      tk_transfer env t (current_contract_address env) c amt (st_world s) = Some (st_world s') \<and>
      st_escrows s' = (st_escrows s)(b \<mapsto> e\<lparr>remaining_amount := remaining_amount e - amt,
        status := (if amt = remaining_amount e then Released else Locked)\<rparr>) \<and>
      st_release_approvals s' b = None"
  proof (cases "remaining_amount e = amt")
    case True
    then show ?thesis
      using assms * by (auto simp: partial_release_def bnd_Inr ok_or_Inr if_Inl_Inr
          execute_token_transfer_Inr token_transfer_Inr Let_def frame_simps counter_set_defs)
  next
    case False
    then show ?thesis
      using assms * by (auto simp: partial_release_def bnd_Inr ok_or_Inr if_Inl_Inr
          execute_token_transfer_Inr token_transfer_Inr Let_def frame_simps counter_set_defs
          intro!: arg_cong [where f = "\<lambda>x. (st_escrows s)(b \<mapsto> x)"])
  qed
  with * show ?thesis by blast
qed

lemma partial_release_effect_witness:
  "\<exists>s0 s'. run two_locks start = Inr s0 \<and>
     partial_release (sample_env 130 [1]) s0 71 5 60 = Inr s' \<and>
     (\<exists>e. st_escrows s' 71 = Some e \<and> status e = Locked)"
proof -
  obtain s0 s' e0 where run: "run two_locks start = Inr s0"
    and rel: "partial_release (sample_env 130 [1]) s0 71 5 60 = Inr s'"
    and "st_escrows s0 71 = Some e0" "remaining_amount e0 = 100"
    by (simp add: two_locks_def eval_defs)
  with partial_release_effect [OF rel] show ?thesis by auto
qed

section \<open>Refunds\<close>

lemma refund_counters_frame [frame_simps]:
  "st_world (refund_counters st st' amt s) = st_world s"
  "st_escrows (refund_counters st st' amt s) = st_escrows s"
  "st_refund_approvals (refund_counters st st' amt s) = st_refund_approvals s"
  by (simp_all add: refund_counters_def counter_set_defs frame_simps
      split: escrow_status.split)

text \<open>
  A refund that returns pays, without an approval, all that remains to the depositor and
  only once the deadline has passed; with an approval, exactly the approved amount to the
  approved recipient, and the approval is used up. The amount is positive and covered by what
  remains, the escrow is locked or partly refunded and has no pending claim, and the payment
  is appended to its history.
\<close>

theorem refund_effect:
  assumes "refund env s b = Inr s'"
  shows "\<exists>e amt to full t. st_escrows s b = Some e \<and> live e \<and> st_claims s b = None \<and>
    (case st_refund_approvals s b of
       None \<Rightarrow> deadline e \<le> timestamp env \<and> amt = remaining_amount e \<and> to = depositor e \<and> full
     | Some ap \<Rightarrow> amt = ap_amount ap \<and> to = ap_recipient ap \<and> (full \<longleftrightarrow> ap_mode ap = Full \<or>
         remaining_amount e \<le> ap_amount ap)) \<and>
    0 < amt \<and> amt \<le> remaining_amount e \<and> \<not> check_paused s ''refund'' \<and> st_token s = Some t \<and>
    tk_transfer env t (current_contract_address env) to amt (st_world s) = Some (st_world s') \<and>
    st_escrows s' = (st_escrows s)(b \<mapsto> after_refund e amt full \<lparr>rr_amount = amt,
      rr_recipient = to, rr_timestamp = timestamp env,
      rr_mode = (if full then Full else Partial)\<rparr>) \<and>
    st_refund_approvals s' b = None"
proof -
  obtain e where e: "load_refundable_escrow s b = Inr e"
    using assms by (auto simp: refund_def bnd_Inr)
  obtain amt to full where terms: "refund_terms e (st_refund_approvals s b) = (amt, to, full)"
    by (cases "refund_terms e (st_refund_approvals s b)") auto
  have g: "0 < amt" "amt \<le> remaining_amount e" "\<not> check_paused s ''refund''"
      "st_refund_approvals s b = None \<longrightarrow> deadline e \<le> timestamp env"
    using assms e terms by (auto simp: refund_def res_simps Let_def not_less not_le)
  have t: "\<exists>t. st_token s = Some t \<and>
      tk_transfer env t (current_contract_address env) to amt (st_world s) = Some (st_world s') \<and>
      st_escrows s' = (st_escrows s)(b \<mapsto> after_refund e amt full \<lparr>rr_amount = amt,
        rr_recipient = to, rr_timestamp = timestamp env,
        rr_mode = (if full then Full else Partial)\<rparr>) \<and>
      st_refund_approvals s' b = None"
    using assms e terms
    by (cases "st_refund_approvals s b") (auto simp: refund_def bnd_Inr ok_or_Inr if_Inl_Inr
        execute_token_transfer_Inr token_transfer_Inr Let_def frame_simps after_refund_def
        refund_status_def)
  have "case st_refund_approvals s b of
       None \<Rightarrow> deadline e \<le> timestamp env \<and> amt = remaining_amount e \<and> to = depositor e \<and> full
     | Some ap \<Rightarrow> amt = ap_amount ap \<and> to = ap_recipient ap \<and> (full \<longleftrightarrow> ap_mode ap = Full \<or>
         remaining_amount e \<le> ap_amount ap)"
    using terms g(4) by (auto simp: refund_terms_def split: option.splits)
  moreover have "st_escrows s b = Some e \<and> live e \<and> st_claims s b = None"
    using e by (simp add: load_refundable_Inr)
  ultimately show ?thesis
    using t g(1-3)
    by - (rule exI [of _ e], rule exI [of _ amt], rule exI [of _ to], rule exI [of _ full], blast)
qed

lemma refund_effect_witness:
  "\<exists>s0 s'. run approved_refund start = Inr s0 \<and> refund (sample_env 130 []) s0 71 = Inr s' \<and>
     st_world s' 6 = 1030 \<and> st_refund_approvals s' 71 = None"
proof -
  obtain s0 s' where "run approved_refund start = Inr s0"
    and ok: "refund (sample_env 130 []) s0 71 = Inr s'" and "st_world s' 6 = 1030"
    by (simp add: approved_refund_def two_locks_def eval_defs)
  with refund_effect [OF ok] show ?thesis by blast
qed

text \<open>
  The eligibility view is a necessary condition: a refund that returns was announced as
  possible by \<open>get_refund_eligibility\<close>, with the remaining amount and the approval it used.
\<close>

theorem refund_was_eligible:
  assumes "refund env s b = Inr s'"
  shows "\<exists>e. st_escrows s b = Some e \<and> get_refund_eligibility env s b =
    Inr (True, deadline e \<le> timestamp env, remaining_amount e, st_refund_approvals s b)"
proof -
  obtain e where e: "load_refundable_escrow s b = Inr e"
    and "\<not> (timestamp env < deadline e \<and> st_refund_approvals s b = None)"
    using assms by (auto simp: refund_def bnd_Inr if_Inl_Inr Let_def)
  then show ?thesis
    by (auto simp: load_refundable_Inr live_def get_refund_eligibility_def res_simps Let_def)
qed

lemma refund_was_eligible_witness:
  "\<exists>s0. run approved_refund start = Inr s0 \<and>
     (\<exists>d r ap. get_refund_eligibility (sample_env 130 []) s0 71 = Inr (True, d, r, ap))"
proof -
  obtain s0 s' where "run approved_refund start = Inr s0"
    and ok: "refund (sample_env 130 []) s0 71 = Inr s'"
    by (simp add: approved_refund_def two_locks_def eval_defs)
  with refund_was_eligible [OF ok] show ?thesis by blast
qed

section \<open>Batches\<close>

text \<open>A list of transfers, from, to and amount, made one after the other.\<close>

fun transfers :: "'w env \<Rightarrow> addr \<Rightarrow> (addr \<times> addr \<times> i128) list \<Rightarrow> 'w \<Rightarrow> 'w option" where
  "transfers env t [] w = Some w"
| "transfers env t ((from, to, amt) # ps) w =
     (case tk_transfer env t from to amt w of
        None \<Rightarrow> None
      | Some w' \<Rightarrow> transfers env t ps w')"

definition swept :: "'w env \<Rightarrow> escrow \<Rightarrow> escrow" where
  "swept env e = e\<lparr>remaining_amount := 0, status := Refunded,
     refund_history := refund_history e @ [\<lparr>rr_amount = remaining_amount e,
       rr_recipient = depositor e, rr_timestamp = timestamp env, rr_mode = Full\<rparr>]\<rparr>"

definition released :: "escrow \<Rightarrow> escrow" where
  "released e = e\<lparr>status := Released, remaining_amount := 0\<rparr>"

text \<open>The payments a sweep and a batch release make, read off the state before the call.\<close>

definition refund_payments ::
    "'w env \<Rightarrow> 'w state \<Rightarrow> u64 list \<Rightarrow> (addr \<times> addr \<times> i128) list" where
  "refund_payments env s = map (\<lambda>b. (current_contract_address env,
     depositor (escrow_at s b), remaining_amount (escrow_at s b)))"

definition release_payments ::
    "'w env \<Rightarrow> 'w state \<Rightarrow> release_funds_item list \<Rightarrow> (addr \<times> addr \<times> i128) list" where
  "release_payments env s = map (\<lambda>i. (current_contract_address env, ri_contributor i,
     amount (escrow_at s (ri_bounty_id i))))"

definition lock_payments ::
    "'w env \<Rightarrow> lock_funds_item list \<Rightarrow> (addr \<times> addr \<times> i128) list" where
  "lock_payments env = map (\<lambda>i. (li_depositor i, current_contract_address env, li_amount i))"

lemma payments_cong:
  "(\<And>b. b \<in> set ids \<Longrightarrow> st_escrows s1 b = st_escrows s b) \<Longrightarrow>
     refund_payments env s1 ids = refund_payments env s ids"
  "(\<And>i. i \<in> set items \<Longrightarrow> st_escrows s1 (ri_bounty_id i) = st_escrows s (ri_bounty_id i)) \<Longrightarrow>
     release_payments env s1 items = release_payments env s items"
  by (simp_all add: refund_payments_def release_payments_def)

lemma payments_Cons [simp]:
  "refund_payments env s [] = []" "release_payments env s [] = []" "lock_payments env [] = []"
  "refund_payments env s (b # ids) = (current_contract_address env, depositor (escrow_at s b),
     remaining_amount (escrow_at s b)) # refund_payments env s ids"
  "release_payments env s (i # items) = (current_contract_address env, ri_contributor i,
     amount (escrow_at s (ri_bounty_id i))) # release_payments env s items"
  "lock_payments env (l # ls) =
     (li_depositor l, current_contract_address env, li_amount l) # lock_payments env ls"
  by (simp_all add: refund_payments_def release_payments_def lock_payments_def)

lemma sweep_one_effect:
  assumes "sweep_one env s b = Inr s'" and "st_token s = Some t"
  shows "\<exists>e. st_escrows s b = Some e \<and> st_escrows s' = (st_escrows s)(b \<mapsto> swept env e) \<and>
    st_token s' = Some t \<and>
    tk_transfer env t (current_contract_address env) (depositor e) (remaining_amount e)
      (st_world s) = Some (st_world s')"
proof -
  obtain e where e: "st_escrows s b = Some e"
    using assms by (auto simp: sweep_one_def bnd_Inr ok_or_Inr)
  show ?thesis
    using assms e
    by (cases "status e = Locked"; cases "status e = PartiallyRefunded")
      (auto simp: sweep_one_def bnd_Inr ok_or_Inr token_transfer_Inr Let_def frame_simps
        counter_set_defs swept_def)
qed

lemma sweep_all_effect:
  "sweep_all env s ids n = Inr (s', n') \<Longrightarrow> distinct ids \<Longrightarrow> st_token s = Some t \<Longrightarrow>
   (\<forall>b. st_escrows s' b =
      (if b \<in> set ids then map_option (swept env) (st_escrows s b) else st_escrows s b)) \<and>
   n' = n + length ids \<and>
   transfers env t (refund_payments env s ids) (st_world s) = Some (st_world s')"
proof (induction ids arbitrary: s n)
  case (Cons b ids)
  obtain s1 where one: "sweep_one env s b = Inr s1"
    and rest: "sweep_all env s1 ids (n + 1) = Inr (s', n')"
    using Cons.prems(1) by (auto simp: res_simps)
  obtain e where e: "st_escrows s b = Some e"
      "st_escrows s1 = (st_escrows s)(b \<mapsto> swept env e)" "st_token s1 = Some t"
      "tk_transfer env t (current_contract_address env) (depositor e) (remaining_amount e)
         (st_world s) = Some (st_world s1)"
    using sweep_one_effect [OF one Cons.prems(3)] by blast
  have same: "refund_payments env s1 ids = refund_payments env s ids"
    using Cons.prems(2) e(2) by (intro payments_cong) auto
  show ?case
    using Cons.IH [OF rest _ e(3)] Cons.prems(2) e same by auto
qed simp

text \<open>
  A sweep that returns has refunded every bounty of its list and no other: each was
  locked or partly refunded, past its deadline, unclaimed and with money left; each depositor
  is paid what remained of his escrow, in the order of the list, and the count returned is
  the length of the list, between 1 and 20.
\<close>

theorem sweep_effect:
  assumes "sweep_expired_refunds env s bs = Inr (s', n)"
  shows "n = length bs \<and> 1 \<le> n \<and> n \<le> 20 \<and> distinct bs \<and>
    (\<forall>b \<in> set bs. \<exists>e. st_escrows s b = Some e \<and> live e \<and> deadline e \<le> timestamp env \<and>
       0 < remaining_amount e \<and> st_claims s b = None \<and> st_escrows s' b = Some (swept env e)) \<and>
    (\<forall>b. b \<notin> set bs \<longrightarrow> st_escrows s' b = st_escrows s b) \<and>
    (\<exists>t. st_token s = Some t \<and>
       transfers env t (refund_payments env s bs) (st_world s) = Some (st_world s'))"
proof -
  obtain s1 t where *: "distinct bs" "sweep_validate env s bs = Inr ()" "bs \<noteq> []"
      "length bs \<le> 20" "st_token s = Some t"
    and all: "sweep_all env (s\<lparr>st_reentrancy_guard := True\<rparr>) bs 0 = Inr (s1, n)"
    and s': "s' = s1\<lparr>st_reentrancy_guard := False\<rparr>"
    using assms by (auto simp: sweep_expired_refunds_def res_simps Let_def not_less
        MAX_BATCH_SIZE_def split: prod.splits if_splits)
  have valid: "\<forall>b \<in> set bs. refundable s b \<and> deadline (the (st_escrows s b)) \<le> timestamp env"
    using *(2) by (simp only: sweep_validate_Inr)
  have eff: "\<forall>b. st_escrows s' b =
      (if b \<in> set bs then map_option (swept env) (st_escrows s b) else st_escrows s b)"
    and n: "n = length bs"
    and world: "transfers env t (refund_payments env s bs) (st_world s) = Some (st_world s')"
    using sweep_all_effect [OF all *(1)] *(5)
      payments_cong(1) [of bs "s\<lparr>st_reentrancy_guard := True\<rparr>" s env] by (simp_all add: s')
  have "\<exists>e. st_escrows s b = Some e \<and> live e \<and> deadline e \<le> timestamp env \<and>
      0 < remaining_amount e \<and> st_claims s b = None \<and> st_escrows s' b = Some (swept env e)"
    if "b \<in> set bs" for b
    using valid that eff by (auto simp: refundable_def)
  moreover have "1 \<le> n" using *(3) n by (simp add: Suc_le_eq)
  ultimately show ?thesis using * eff n world by auto
qed

lemma sweep_effect_witness:
  "\<exists>s0 s'. run two_locks start = Inr s0 \<and>
     sweep_expired_refunds (sample_env 500 []) s0 [72, 71] = Inr (s', 2) \<and>
     (\<exists>e. st_escrows s' 71 = Some e \<and> status e = Refunded)"
proof -
  obtain s0 s' where "run two_locks start = Inr s0"
    and ok: "sweep_expired_refunds (sample_env 500 []) s0 [72, 71] = Inr (s', 2)"
    by (simp add: two_locks_def eval_defs)
  with sweep_effect [OF ok] show ?thesis by (auto simp: swept_def)
qed

lemma release_one_effect:
  assumes "release_one env s i = Inr s'" and "st_token s = Some t"
  shows "\<exists>e. st_escrows s (ri_bounty_id i) = Some e \<and>
    st_escrows s' = (st_escrows s)(ri_bounty_id i \<mapsto> released e) \<and> st_token s' = Some t \<and>
    tk_transfer env t (current_contract_address env) (ri_contributor i) (amount e)
      (st_world s) = Some (st_world s')"
  using assms
  by (auto simp: release_one_def bnd_Inr ok_or_Inr token_transfer_Inr Let_def frame_simps
      counter_set_defs released_def)

lemma release_all_effect:
  "release_all env s items n = Inr (s', n') \<Longrightarrow> distinct (map ri_bounty_id items) \<Longrightarrow>
   st_token s = Some t \<Longrightarrow>
   (\<forall>b. st_escrows s' b =
      (if b \<in> ri_bounty_id ` set items then map_option released (st_escrows s b)
       else st_escrows s b)) \<and>
   n' = n + length items \<and>
   transfers env t (release_payments env s items) (st_world s) = Some (st_world s')"
proof (induction items arbitrary: s n)
  case (Cons i items)
  obtain s1 where one: "release_one env s i = Inr s1"
    and rest: "release_all env s1 items (n + 1) = Inr (s', n')"
    using Cons.prems(1) by (auto simp: res_simps)
  obtain e where e: "st_escrows s (ri_bounty_id i) = Some e"
      "st_escrows s1 = (st_escrows s)(ri_bounty_id i \<mapsto> released e)" "st_token s1 = Some t"
      "tk_transfer env t (current_contract_address env) (ri_contributor i) (amount e)
         (st_world s) = Some (st_world s1)"
    using release_one_effect [OF one Cons.prems(3)] by blast
  have same: "release_payments env s1 items = release_payments env s items"
    using Cons.prems(2) e(2) by (intro payments_cong) (auto simp: image_iff)
  show ?case
    using Cons.IH [OF rest _ e(3)] Cons.prems(2) e same by auto
qed simp

text \<open>
  A batch release that returns was authorised by the admin and has released every bounty
  of its list, all different, locked and unclaimed, paying each contributor the escrow's full
  original amount; no other escrow changes and the count is the length of the list. No
  multisig approval is asked for, whatever the amounts.
\<close>

theorem batch_release_effect:
  assumes "batch_release_funds env s items = Inr (s', n)"
  shows "n = length items \<and> 1 \<le> n \<and> n \<le> 20 \<and> distinct (map ri_bounty_id items) \<and>
    (\<exists>a. st_admin s = Some a \<and> authorized env a) \<and> \<not> check_paused s ''release'' \<and>
    (\<forall>i \<in> set items. \<exists>e. st_escrows s (ri_bounty_id i) = Some e \<and> status e = Locked \<and>
       st_claims s (ri_bounty_id i) = None \<and>
       st_escrows s' (ri_bounty_id i) = Some (released e)) \<and>
    (\<forall>b. b \<notin> ri_bounty_id ` set items \<longrightarrow> st_escrows s' b = st_escrows s b) \<and>
    (\<exists>t. st_token s = Some t \<and>
       transfers env t (release_payments env s items) (st_world s) = Some (st_world s'))"
proof -
  obtain s1 t tot a where *: "distinct (map ri_bounty_id items)"
      "release_validate s items 0 = Inr tot" "items \<noteq> []" "length items \<le> 20"
      "st_token s = Some t" "st_admin s = Some a" "authorized env a"
      "\<not> check_paused s ''release''"
    and all: "release_all env s items 0 = Inr (s1, n)"
    and s': "s' = emit (BatchFundsReleased n tot (timestamp env)) s1"
    using assms by (auto simp: batch_release_funds_def res_simps Let_def not_less
        MAX_BATCH_SIZE_def split: prod.splits if_splits)
  have valid: "\<forall>i \<in> set items. releasable s (ri_bounty_id i)"
    using release_validate_Inr [OF *(2)] .
  have eff: "\<forall>b. st_escrows s' b = (if b \<in> ri_bounty_id ` set items
      then map_option released (st_escrows s b) else st_escrows s b)"
    and n: "n = length items"
    and world: "transfers env t (release_payments env s items) (st_world s) = Some (st_world s')"
    using release_all_effect [OF all *(1,5)] by (simp_all add: s' frame_simps)
  have "\<exists>e. st_escrows s (ri_bounty_id i) = Some e \<and> status e = Locked \<and>
      st_claims s (ri_bounty_id i) = None \<and> st_escrows s' (ri_bounty_id i) = Some (released e)"
    if "i \<in> set items" for i
    using valid that eff by (auto simp: releasable_def)
  moreover have "1 \<le> n" using *(3) n by (simp add: Suc_le_eq)
  ultimately show ?thesis using * eff n world by auto
qed

lemma batch_release_effect_witness:
  "\<exists>s0 s'. run two_locks start = Inr s0 \<and>
     batch_release_funds (sample_env 130 [1]) s0 [\<lparr>ri_bounty_id = 72, ri_contributor = 5\<rparr>]
       = Inr (s', 1) \<and> (\<exists>e. st_escrows s' 72 = Some e \<and> status e = Released)"
proof -
  obtain s0 s' where "run two_locks start = Inr s0"
    and ok: "batch_release_funds (sample_env 130 [1]) s0
      [\<lparr>ri_bounty_id = 72, ri_contributor = 5\<rparr>] = Inr (s', 1)"
    by (simp add: two_locks_def eval_defs)
  with batch_release_effect [OF ok] show ?thesis by (auto simp: released_def)
qed

lemma lock_one_effect:
  assumes "lock_one env s i = Inr s'" and "st_token s = Some t"
  shows "st_escrows s' = (st_escrows s)
      (li_bounty_id i \<mapsto> new_escrow (li_depositor i) (li_amount i) (li_deadline i)) \<and>
    escrow_index s' = escrow_index s @ [li_bounty_id i] \<and> st_token s' = Some t \<and>
    tk_transfer env t (li_depositor i) (current_contract_address env) (li_amount i)
      (st_world s) = Some (st_world s')"
  using assms
  by (auto simp: lock_one_def bnd_Inr token_transfer_Inr frame_simps)

lemma lock_all_effect:
  "lock_all env s items n = Inr (s', n') \<Longrightarrow> distinct (map li_bounty_id items) \<Longrightarrow>
   st_token s = Some t \<Longrightarrow>
   (\<forall>i \<in> set items. st_escrows s' (li_bounty_id i) =
      Some (new_escrow (li_depositor i) (li_amount i) (li_deadline i))) \<and>
   (\<forall>b. b \<notin> li_bounty_id ` set items \<longrightarrow> st_escrows s' b = st_escrows s b) \<and>
   escrow_index s' = escrow_index s @ map li_bounty_id items \<and> n' = n + length items \<and>
   transfers env t (lock_payments env items) (st_world s) = Some (st_world s')"
proof (induction items arbitrary: s n)
  case (Cons i items)
  obtain s1 where one: "lock_one env s i = Inr s1"
    and rest: "lock_all env s1 items (n + 1) = Inr (s', n')"
    using Cons.prems(1) by (auto simp: res_simps)
  note e = lock_one_effect [OF one Cons.prems(3)]
  have fresh: "li_bounty_id i \<notin> li_bounty_id ` set items" using Cons.prems(2) by simp
  show ?case
    using Cons.IH [OF rest] Cons.prems(2) e fresh by auto
qed simp

text \<open>
  A batch lock that returns has locked every item of its list and nothing else: the ids
  are new and all different, every amount is positive and within the amount policy, every
  deadline lies ahead, every depositor has authorised the call, and each paid his own amount;
  the ids are appended to the index in the order of the list.
\<close>

theorem batch_lock_effect:
  assumes "batch_lock_funds env s items = Inr (s', n)"
  shows "n = length items \<and> 1 \<le> n \<and> n \<le> 20 \<and> distinct (map li_bounty_id items) \<and>
    \<not> check_paused s ''lock'' \<and>
    (\<forall>i \<in> set items. st_escrows s (li_bounty_id i) = None \<and> 0 < li_amount i \<and>
       timestamp env < li_deadline i \<and> authorized env (li_depositor i) \<and>
       check_amount_policy s (li_amount i) = Inr () \<and>
       st_escrows s' (li_bounty_id i) =
         Some (new_escrow (li_depositor i) (li_amount i) (li_deadline i))) \<and>
    (\<forall>b. b \<notin> li_bounty_id ` set items \<longrightarrow> st_escrows s' b = st_escrows s b) \<and>
    escrow_index s' = escrow_index s @ map li_bounty_id items \<and>
    (\<exists>t. st_token s = Some t \<and>
       transfers env t (lock_payments env items) (st_world s) = Some (st_world s'))"
proof -
  obtain s1 t tot where *: "distinct (map li_bounty_id items)"
      "lock_validate env s items = Inr ()" "auth_depositors env items [] = Inr ()"
      "items \<noteq> []" "length items \<le> 20" "st_token s = Some t" "\<not> check_paused s ''lock''"
    and all: "lock_all env s items 0 = Inr (s1, n)"
    and s': "s' = emit (BatchFundsLocked n tot (timestamp env)) s1"
    using assms by (auto simp: batch_lock_funds_def res_simps Let_def not_less
        MAX_BATCH_SIZE_def split: prod.splits if_splits)
  have valid: "\<forall>i \<in> set items. st_escrows s (li_bounty_id i) = None \<and> 0 < li_amount i \<and>
      timestamp env < li_deadline i \<and> check_amount_policy s (li_amount i) = Inr ()"
    using *(2) by (simp add: lock_validate_Inr)
  have auth: "\<forall>i \<in> set items. authorized env (li_depositor i)"
    using *(3) by (simp add: auth_depositors_Inr)
  note eff = lock_all_effect [OF all *(1,6)]
  have "1 \<le> n" using *(4) eff by (simp add: Suc_le_eq)
  then show ?thesis using * eff valid auth by (auto simp: s' frame_simps)
qed

lemma batch_lock_effect_witness:
  "\<exists>s0 s'. run two_locks start = Inr s0 \<and> batch_lock_funds (sample_env 130 [2]) s0
       [\<lparr>li_bounty_id = 81, li_depositor = 2, li_amount = 10, li_deadline = 900\<rparr>,
        \<lparr>li_bounty_id = 82, li_depositor = 2, li_amount = 20, li_deadline = 900\<rparr>]
       = Inr (s', 2) \<and> escrow_index s' = [71, 72, 81, 82]"
proof -
  let ?items = "[\<lparr>li_bounty_id = 81, li_depositor = 2, li_amount = 10, li_deadline = 900\<rparr>,
        \<lparr>li_bounty_id = 82, li_depositor = 2, li_amount = 20, li_deadline = 900\<rparr>]"
  obtain s0 s' where "run two_locks start = Inr s0" "escrow_index s0 = [71, 72]"
    and ok: "batch_lock_funds (sample_env 130 [2]) s0 ?items = Inr (s', 2)"
    by (simp add: two_locks_def eval_defs)
  with batch_lock_effect [OF ok] show ?thesis by auto
qed

end
