(* ===== verification/BountyGuards.thy ===== *)
theory BountyGuards
  imports BountyProps
begin

text \<open>
  Guards and frames over all entrypoints at once: which pause flag stands before which token
  movement, who can change a setting, which configurations are reachable, and which calls
  report a dispute as resolved.
\<close>

section \<open>Token movement and pause flags\<close>

fun paused_op :: "call \<Rightarrow> symbol option" where
  "paused_op (Lock_funds _ _ _ _) = Some ''lock''"
| "paused_op (Batch_lock_funds _) = Some ''lock''"
| "paused_op (Release_funds _ _) = Some ''release''"
| "paused_op (Claim _) = Some ''release''"
| "paused_op (Partial_release _ _ _) = Some ''release''"
| "paused_op (Batch_release_funds _) = Some ''release''"
| "paused_op (Refund _) = Some ''refund''"
| "paused_op (Sweep_expired_refunds _) = Some ''refund''"
| "paused_op _ = None"

lemma refund_not_paused: "refund env s b = Inr s' \<Longrightarrow> \<not> check_paused s ''refund''"
proof -
  assume ok: "refund env s b = Inr s'"
  obtain e where e: "load_refundable_escrow s b = Inr e"
    using ok by (auto simp: refund_def bnd_Inr)
  obtain amt r full where "refund_terms e (st_refund_approvals s b) = (amt, r, full)"
    by (cases "refund_terms e (st_refund_approvals s b)") auto
  with ok e show "\<not> check_paused s ''refund''"
    by (auto simp: refund_def bnd_Inr if_Inl_Inr execute_token_transfer_Inr Let_def)
qed

lemma paused_op_blocks:
  assumes "paused_op c = Some opn" and "exec env c s = Inr s'"
  shows "\<not> check_paused s opn"
  using assms
proof (cases c)
  case (Refund b)
  then show ?thesis using assms refund_not_paused by auto
qed (auto simp: drop_count_Inr lock_funds_def batch_lock_funds_def release_funds_def claim_def
    partial_release_def batch_release_funds_def sweep_expired_refunds_def bnd_Inr if_Inl_Inr
    execute_token_transfer_Inr transition_locked_to_released_def set_counters_def Let_def)

lemma admin_call_world:
  "admin_call c \<Longrightarrow> exec env c s = Inr s' \<Longrightarrow> st_world s' = st_world s"
  by (cases c) (auto simp: admin_defs res_simps Let_def emit_def emit_pause_def
      split: if_splits option.splits)

lemma unpaused_world:
  assumes "paused_op c = None" and "exec env c s = Inr s'"
  shows "st_world s' = st_world s \<or> (\<exists>p. c = Execute_governance_proposal p)"
proof (cases "admin_call c")
  case True
  then show ?thesis using admin_call_world assms(2) by blast
next
  case False
  show ?thesis
  proof (cases c)
    case (Init a t)
    then show ?thesis using assms by (auto simp: init_Inr frame_simps)
  next
    case (Authorize_claim b r)
    then have "authorize_claim env s b r = Inr s'" using assms by simp
    then show ?thesis by (auto simp: authorize_claim_def bnd_Inr if_Inl_Inr Let_def frame_simps)
  next
    case (Cancel_pending_claim b)
    then have "cancel_pending_claim env s b = Inr s'" using assms by simp
    then show ?thesis
      by (auto simp: cancel_pending_claim_def bnd_Inr if_Inl_Inr Let_def frame_simps)
  qed (use False assms in auto)
qed

section \<open>Who can change a setting\<close>

lemma admin_call_auth:
  assumes "admin_call c" and "exec env c s = Inr s'"
  shows "settings_same s s' \<or> (\<exists>a. st_admin s = Some a \<and> authorized env a) \<or>
    (\<exists>a. c = Reset_circuit a \<and> cb_admin (st_breaker s) = Some a \<and> authorized env a)"
  using assms
  by (cases c) (auto simp: admin_defs res_simps Let_def settings_same_def emit_def
      reset_circuit_breaker_def split: if_splits option.splits)

lemma settings_change_auth:
  assumes "exec env c s = Inr s'" and "\<not> settings_same s s'"
  shows "(\<exists>a. st_admin s = Some a \<and> authorized env a) \<or>
    (\<exists>a t. c = Init a t \<and> st_admin s = None \<and> authorized env a) \<or>
    (\<exists>a. c = Reset_circuit a \<and> cb_admin (st_breaker s) = Some a \<and> authorized env a)"
  using assms(1)
proof (cases rule: exec_cases)
  case 1
  then show ?thesis using assms(2) by blast
next
  case 2
  then show ?thesis using admin_call_auth assms(2) by blast
next
  case (3 a t)
  then show ?thesis by blast
next
  case (4 w)
  then show ?thesis using assms(2) by (simp add: settings_same_def)
qed

section \<open>Reachable configurations\<close>

definition rate_ok :: "i128 \<Rightarrow> bool" where
  "rate_ok r \<longleftrightarrow> 0 \<le> r \<and> r \<le> 5000"

definition config_ok :: "'w state \<Rightarrow> bool" where
  "config_ok s \<longleftrightarrow>
     (\<forall>fc. st_fee_config s = Some fc \<longrightarrow>
        rate_ok (lock_fee_rate fc) \<and> rate_ok (release_fee_rate fc)) \<and>
     (\<forall>lo hi. st_amount_policy s = Some (lo, hi) \<longrightarrow> lo \<le> hi) \<and>
     (\<forall>m. st_multisig s = Some m \<longrightarrow> required_signatures m \<le> length (signers m)) \<and>
     0 < failure_threshold (get_config (st_breaker s))"

lemma config_ok_cong:
  "st_fee_config s' = st_fee_config s \<Longrightarrow> st_amount_policy s' = st_amount_policy s \<Longrightarrow>
   st_multisig s' = st_multisig s \<Longrightarrow> cb_config (st_breaker s') = cb_config (st_breaker s) \<Longrightarrow>
   config_ok s' \<longleftrightarrow> config_ok s"
  by (simp add: config_ok_def get_config_def)

lemma check_fee_rate_Inr:
  "check_fee_rate new old = Inr r \<Longrightarrow> rate_ok old \<Longrightarrow> rate_ok r"
  by (auto simp: check_fee_rate_def rate_ok_def MAX_FEE_RATE_def split: option.splits if_splits)

lemma update_fee_config_ok:
  assumes "update_fee_config env s l r a en = Inr s'" and "config_ok s"
  shows "config_ok s'"
proof -
  let ?fc = "get_fee_config_internal env s"
  have old: "rate_ok (lock_fee_rate ?fc)" "rate_ok (release_fee_rate ?fc)"
    using assms(2)
    by (auto simp: get_fee_config_internal_def config_ok_def rate_ok_def split: option.splits)
  obtain lr rr where rates: "check_fee_rate l (lock_fee_rate ?fc) = Inr lr"
      "check_fee_rate r (release_fee_rate ?fc) = Inr rr"
    and s': "\<exists>fc. st_fee_config s' = Some fc \<and> lock_fee_rate fc = lr \<and> release_fee_rate fc = rr"
      "st_amount_policy s' = st_amount_policy s" "st_multisig s' = st_multisig s"
      "st_breaker s' = st_breaker s"
    using assms(1) by (auto simp: update_fee_config_def res_simps Let_def emit_def)
  then show ?thesis
    using assms(2) check_fee_rate_Inr [OF rates(1) old(1)] check_fee_rate_Inr [OF rates(2) old(2)]
    by (auto simp: config_ok_def)
qed

lemma config_ok_admin:
  assumes "admin_call c" and "exec env c s = Inr s'" and "config_ok s"
  shows "config_ok s'"
proof (cases c)
  case (Update_fee_config l r a en)
  then show ?thesis using assms update_fee_config_ok by auto
next
  case (Set_circuit_breaker_config f g l)
  then show ?thesis
    using assms by (auto simp: set_circuit_breaker_config_def res_simps config_ok_def
        set_config_def get_config_def)
next
  case (Set_circuit_breaker_admin a)
  then show ?thesis
    using assms by (auto simp: set_circuit_breaker_admin_def set_circuit_admin_def res_simps
        config_ok_def get_config_def split: option.splits if_splits)
next
  case (Set_amount_policy a lo hi)
  then show ?thesis
    using assms by (auto simp: set_amount_policy_def res_simps config_ok_def)
next
  case (Update_multisig_config th ss n)
  then show ?thesis
    using assms by (auto simp: update_multisig_config_def res_simps config_ok_def)
qed (use assms in \<open>auto simp: admin_defs res_simps Let_def emit_def emit_pause_def
      set_circuit_admin_def reset_circuit_breaker_def half_open_circuit_def close_circuit_def
      emit_circuit_event_def split: if_splits option.splits circuit_state.splits
      intro: config_ok_cong [THEN iffD2]\<close>)

lemma config_ok_exec:
  assumes "exec env c s = Inr s'" and "config_ok s"
  shows "config_ok s'"
  using assms(1)
proof (cases rule: exec_cases)
  case 1
  then show ?thesis
    using assms(2) by (auto simp: settings_same_def intro: config_ok_cong [THEN iffD2])
next
  case 2
  then show ?thesis using config_ok_admin assms by blast
next
  case (3 a t)
  then show ?thesis
    using assms(2) by (auto simp: emit_def intro: config_ok_cong [THEN iffD2])
next
  case (4 w)
  then show ?thesis
    using assms(2) by (auto intro: config_ok_cong [THEN iffD2])
qed

interpretation config_inv: invariant_system is_initial "step E" config_ok
  for E :: "'w env"
proof unfold_locales
  show "config_ok s" if "is_initial s" for s :: "'w state"
    using that by (auto simp: is_initial_def config_ok_def initial_state_def get_config_def
        default_config_def empty_breaker_def)
  show "config_ok t" if "config_ok s" "step E s l t" for s t :: "'w state" and l
    using that(2,1)
  proof (induction rule: step.induct)
    case (invoke env c s s')
    then show ?case using config_ok_exec by blast
  next
    case (outside s w)
    then show ?case by (auto intro: config_ok_cong [THEN iffD2])
  qed
qed

section \<open>Resolved disputes\<close>

fun is_dispute :: "event \<Rightarrow> bool" where
  "is_dispute (DisputeResolved _ _ _ _ _ _) = True"
| "is_dispute _ = False"

definition disputes :: "'w state \<Rightarrow> nat" where
  "disputes s = length (filter is_dispute (st_events s))"

lemma disputes_simps [simp]:
  "disputes (emit ev s) = disputes s + (if is_dispute ev then 1 else 0)"
  "disputes (set_counters s c) = disputes s"
  "disputes (clear_release_approval b s) = disputes s"
  "disputes (emit_pause opn f a s) = disputes s"
  "disputes (s\<lparr>st_escrows := x1\<rparr>) = disputes s"
  "disputes (s\<lparr>st_world := x2\<rparr>) = disputes s"
  "disputes (s\<lparr>st_metrics := x3\<rparr>) = disputes s"
  "disputes (s\<lparr>st_reentrancy_guard := x4\<rparr>) = disputes s"
  "disputes (s\<lparr>st_claims := x5\<rparr>) = disputes s"
  "disputes (s\<lparr>st_abuse := x6\<rparr>) = disputes s"
  "disputes (s\<lparr>st_refund_approvals := x7\<rparr>) = disputes s"
  by (auto simp: disputes_def emit_def set_counters_def clear_release_approval_def emit_pause_def
      split: option.splits)

lemma disputes_store [simp]: "disputes (store_new_escrow env d b amt dl s) = disputes s"
  by (simp add: store_new_escrow_def increment_locked_def Let_def) (simp add: disputes_def)

lemma disputes_refund_counters [simp]: "disputes (refund_counters st st' amt s) = disputes s"
  by (simp add: refund_counters_def counter_set_defs split: escrow_status.split)

lemma disputes_one:
  "sweep_one env s b = Inr s' \<Longrightarrow> disputes s' = disputes s"
  "lock_one env s i = Inr s' \<Longrightarrow> disputes s' = disputes s"
  "release_one env s r = Inr s' \<Longrightarrow> disputes s' = disputes s"
  by (auto simp: sweep_one_def lock_one_def release_one_def bnd_Inr token_transfer_Inr Let_def
      counter_set_defs split: if_splits)

lemma disputes_all:
  "sweep_all env s ids n = Inr (s', n') \<Longrightarrow> disputes s' = disputes s"
  "lock_all env s items n = Inr (s', n') \<Longrightarrow> disputes s' = disputes s"
  "release_all env s rel n = Inr (s', n') \<Longrightarrow> disputes s' = disputes s"
proof -
  show "sweep_all env s ids n = Inr (s', n') \<Longrightarrow> disputes s' = disputes s"
    by (induction ids arbitrary: s n) (auto simp: bnd_Inr dest: disputes_one)
  show "lock_all env s items n = Inr (s', n') \<Longrightarrow> disputes s' = disputes s"
    by (induction items arbitrary: s n) (auto simp: bnd_Inr dest: disputes_one)
  show "release_all env s rel n = Inr (s', n') \<Longrightarrow> disputes s' = disputes s"
    by (induction rel arbitrary: s n) (auto simp: bnd_Inr dest: disputes_one)
qed

lemma disputes_refund:
  assumes "refund env s b = Inr s'"
  shows "disputes s' = disputes s"
proof -
  obtain e where e: "load_refundable_escrow s b = Inr e"
    using assms by (auto simp: refund_def bnd_Inr)
  obtain amt r full where "refund_terms e (st_refund_approvals s b) = (amt, r, full)"
    by (cases "refund_terms e (st_refund_approvals s b)") auto
  with assms e show ?thesis
    by (auto simp: refund_def bnd_Inr if_Inl_Inr execute_token_transfer_Inr token_transfer_Inr
        Let_def)
qed

lemma disputes_fund_calls:
  "lock_funds env s d b amt dl = Inr s' \<Longrightarrow> disputes s' = disputes s"
  "release_funds env s b r = Inr s' \<Longrightarrow> disputes s' = disputes s"
  "partial_release env s b r amt = Inr s' \<Longrightarrow> disputes s' = disputes s"
  "authorize_claim env s b r = Inr s' \<Longrightarrow> disputes s' = disputes s"
  "claim env s b = Inr s' \<Longrightarrow> disputes s' = disputes s + 1"
  "cancel_pending_claim env s b = Inr s' \<Longrightarrow> disputes s' = disputes s + 1"
  by (auto simp: lock_funds_def release_funds_def partial_release_def authorize_claim_def
      claim_def cancel_pending_claim_def bnd_Inr if_Inl_Inr execute_token_transfer_Inr
      token_transfer_Inr counter_set_defs Let_def split: if_splits)

lemma disputes_batch_calls:
  "sweep_expired_refunds env s bs = Inr (s', n) \<Longrightarrow> disputes s' = disputes s"
  "batch_lock_funds env s items = Inr (s', n) \<Longrightarrow> disputes s' = disputes s"
  "batch_release_funds env s rel = Inr (s', n) \<Longrightarrow> disputes s' = disputes s"
  by (auto simp: sweep_expired_refunds_def batch_lock_funds_def batch_release_funds_def bnd_Inr
      if_Inl_Inr Let_def split: prod.splits if_splits dest!: disputes_all)

lemma disputes_admin:
  "admin_call c \<Longrightarrow> exec env c s = Inr s' \<Longrightarrow> disputes s' = disputes s"
  by (cases c) (auto simp: admin_defs res_simps Let_def disputes_def emit_def emit_pause_def
      split: if_splits option.splits)

fun resolves :: "call \<Rightarrow> bool" where
  "resolves (Claim _) = True"
| "resolves (Cancel_pending_claim _) = True"
| "resolves _ = False"

lemma disputes_exec:
  assumes "exec env c s = Inr s'"
  shows "disputes s' = disputes s + (if resolves c then 1 else 0)"
proof (cases "admin_call c")
  case True
  then have "\<not> resolves c" by (cases c) auto
  then show ?thesis using disputes_admin [OF True assms] by simp
next
  case False
  then show ?thesis
    using assms
  proof (cases c)
    case (Execute_governance_proposal p)
    then show ?thesis using assms governance_world [of env s p s'] by (auto simp: disputes_def)
  qed (auto simp: drop_count_Inr init_Inr disputes_refund disputes_fund_calls disputes_batch_calls
      disputes_def [of "s\<lparr>st_admin := a, st_token := t\<rparr>" for a t] disputes_def [of s])
qed

end
