(* ===== verification/BountyFaults.thy ===== *)
theory BountyFaults
  imports BountySystem
begin

text \<open>
  Which faults the entrypoints can return. A result avoids a set of faults when it is not
  one of them; the rules below follow the shape of the handlers, so a fault that no leaf
  operation raises is excluded from a whole call by simplification.
\<close>

definition avoids :: "'e fault set \<Rightarrow> ('e, 'a) res \<Rightarrow> bool" where
  "avoids F r \<longleftrightarrow> (\<forall>f \<in> F. r \<noteq> Inl f)"

lemma avoids_simps [simp]:
  "avoids F (Inr x)"
  "avoids F (Inl f) \<longleftrightarrow> f \<notin> F"
  "avoids F (if c then r else r') \<longleftrightarrow> (c \<longrightarrow> avoids F r) \<and> (\<not> c \<longrightarrow> avoids F r')"
  "avoids F (ok_or v f) \<longleftrightarrow> v \<noteq> None \<or> f \<notin> F"
  by (auto simp: avoids_def ok_or_def split: option.splits)

lemma avoids_bnd [intro!]:
  "avoids F m \<Longrightarrow> (\<And>x. m = Inr x \<Longrightarrow> avoids F (g x)) \<Longrightarrow> avoids F (bnd m g)"
  by (cases m) (auto simp: avoids_def)

text \<open>The two faults that the reachable states exclude.\<close>

abbreviation never :: "error fault set" where
  "never \<equiv> {Panic Reentrancy_detected, Contract CircuitBreakerOpen}"

definition calm :: "'w state \<Rightarrow> bool" where
  "calm s \<longleftrightarrow> \<not> st_reentrancy_guard s \<and> get_state (st_breaker s) = Closed"

lemma calm_guard [dest]: "calm s \<Longrightarrow> \<not> st_reentrancy_guard s"
  by (simp add: calm_def)

named_theorems avoid_leaves \<open>leaf operations that raise neither of the two faults\<close>

lemma gate_avoids [avoid_leaves]:
  "get_state (st_breaker s) = Closed \<Longrightarrow> avoids never (breaker_gate env s)"
  by (simp add: breaker_gate_def check_and_allow_def)

lemma auth_avoids [avoid_leaves]:
  "avoids never (require_auth env a)" "avoids never (require_admin env s)"
  "avoids never (require_auth_again env as a)"
  by (auto simp: require_auth_def require_admin_def require_auth_again_def)

lemma token_avoids [avoid_leaves]:
  "avoids never (token_transfer env s f r a)"
  "avoids never (execute_token_transfer env s f r a op)"
  by (auto simp: token_transfer_def execute_token_transfer_def)

lemma governance_avoids [avoid_leaves]:
  "avoids never (check_governance_version env w g)"
  "avoids never (check_governance_requirements env s)"
  "avoids never (check_upgrade_approval env w g h)"
  "avoids never (link_execute_governance_proposal env w g p)"
  by (auto simp: check_governance_requirements_def check_upgrade_approval_def
      link_execute_governance_proposal_def check_governance_version_def
      check_proposal_vetoed_def Let_def split: option.splits)

lemma checks_avoid [avoid_leaves]:
  "avoids never (check_release_approval s b amt)"
  "avoids never (map_overflow r)"
  "avoids never (check_rate_limit now a aa)"
  "avoids never (check_amount_policy s amt)"
  "avoids never (check_fee_rate nr old)"
  "avoids never (load_refundable_escrow s b)"
  by (auto simp: check_release_approval_def map_overflow_def check_rate_limit_def
      check_amount_policy_def check_fee_rate_def load_refundable_escrow_def Let_def
      split: option.splits sum.splits prod.splits)

lemma unique_avoids [avoid_leaves]: "avoids never (validate_unique_bounty_ids ids)"
proof -
  have "avoids never (unique_ids_from ids seen)" for seen
    by (induction ids seen rule: unique_ids_from.induct) (auto simp del: fun_upd_apply)
  then show ?thesis by (simp add: validate_unique_bounty_ids_def)
qed

lemma loop_checks_avoid [avoid_leaves]:
  "avoids never (sweep_validate env s ids)"
  "avoids never (lock_validate env s items)"
  "avoids never (auth_depositors env items seen)"
  "avoids never (release_validate s rel acc)"
  "avoids never (sum_i128 xs acc)"
proof -
  show "avoids never (sweep_validate env s ids)"
    by (induction ids) (auto simp: avoid_leaves)
  show "avoids never (lock_validate env s items)"
    by (induction items) (auto simp: avoid_leaves)
  show "avoids never (auth_depositors env items seen)"
    by (induction env items seen rule: auth_depositors.induct) (auto simp: avoid_leaves)
  show "avoids never (release_validate s rel acc)"
    by (induction rel arbitrary: acc) auto
  show "avoids never (sum_i128 xs acc)"
    by (induction xs arbitrary: acc) auto
qed

lemma one_avoids [avoid_leaves]:
  "avoids never (sweep_one env s b)" "avoids never (lock_one env s item)"
  "avoids never (release_one env s rel)"
  by (auto simp: sweep_one_def lock_one_def release_one_def Let_def avoid_leaves)

lemma loops_avoid [avoid_leaves]:
  "avoids never (sweep_all env s ids n)"
  "avoids never (lock_all env s items n)"
  "avoids never (release_all env s rel n)"
proof -
  show "avoids never (sweep_all env s ids n)"
    by (induction ids arbitrary: s n) (auto simp: avoid_leaves)
  show "avoids never (lock_all env s items n)"
    by (induction items arbitrary: s n) (auto simp: avoid_leaves)
  show "avoids never (release_all env s rel n)"
    by (induction rel arbitrary: s n) (auto simp: avoid_leaves)
qed

lemma admin_avoids: "admin_call c \<Longrightarrow> avoids never (exec env c s)"
  by (cases c) (auto simp: admin_defs set_circuit_admin_def reset_circuit_breaker_def Let_def avoid_leaves split: option.splits circuit_state.splits)

lemma release_claim_avoid:
  assumes "calm s"
  shows "avoids never (release_funds env s b r)" and "avoids never (claim env s b)"
    and "avoids never (partial_release env s b r amt)"
  using assms
  by (auto simp: calm_def release_funds_def claim_def partial_release_def Let_def avoid_leaves)

lemma lock_refund_avoid:
  assumes "calm s"
  shows "avoids never (lock_funds env s d b amt dl)" and "avoids never (refund env s b)"
  using assms
  by (auto simp: calm_def lock_funds_def refund_def Let_def avoid_leaves split: prod.splits)

lemma batch_avoid:
  assumes "calm s"
  shows "avoids never (sweep_expired_refunds env s bs)"
    and "avoids never (batch_lock_funds env s items)"
    and "avoids never (batch_release_funds env s rel)"
  using assms
  by (auto simp: calm_def sweep_expired_refunds_def batch_lock_funds_def
      batch_release_funds_def Let_def avoid_leaves split: prod.splits)

lemma exec_avoids:
  assumes "calm s"
  shows "avoids never (exec env c s)"
proof (cases "admin_call c")
  case True
  then show ?thesis by (rule admin_avoids)
next
  case False
  then show ?thesis
    using assms
    by (cases c) (auto simp: drop_count_def init_def authorize_claim_def
        cancel_pending_claim_def execute_governance_proposal_def Let_def avoid_leaves
        intro: release_claim_avoid lock_refund_avoid batch_avoid split: prod.splits)
qed

lemma reachable_calm: "reachable E s \<Longrightarrow> calm s"
  unfolding calm_def using guard_inv.reach_inv breaker_inv.reach_inv by blast

end
