(* ===== verification/BountyScan.thy ===== *)
theory BountyScan
  imports BountySystem
begin

text \<open>
  Further invariants of the book, lifted to every reachable state: refund records are
  positive, the index of a depositor is the part of the global index that belongs to him, and
  a settled escrow never changes again. With the first, the full scan of the statistics never
  overflows on a book that fits, and adds up to the tallies.
\<close>

section \<open>Lifting an invariant of the book\<close>

lemma reachable_moves:
  "reachable E s \<Longrightarrow> \<exists>w ms. bsteps (book_of E (initial_state w)) ms (book_of E s)"
proof (induction rule: reach.induct)
  case (reach_init s)
  then obtain w where "s = initial_state w" by (auto simp: is_initial_def)
  then show ?case by (intro exI [of _ w] exI [of _ "[]"]) (simp add: done_moves)
next
  case (reach_step s l t)
  obtain w ms where ms: "bsteps (book_of E (initial_state w)) ms (book_of E s)"
    using reach_step.IH by blast
  have tok: "st_admin s = None \<longleftrightarrow> st_token s = None"
    using token_inv.reach_inv [OF reach_step.hyps(1)] unfolding token_ok_def .
  have "\<exists>ms. bsteps (book_of E s) ms (book_of E t)"
    using reach_step.hyps(2)
  proof (cases rule: step.cases)
    case (invoke env c)
    then show ?thesis using exec_sim [OF invoke(2,3) tok] by blast
  next
    case (outside w)
    then have "bstep (book_of E s) M_idle (book_of E t)"
      by (intro bstep_eq [OF bstep.idle [where h = "held E t"]])
        (auto intro!: book_eqI simp: view_defs fun_eq_iff)
    then show ?thesis using bsteps_single by blast
  qed
  then show ?case using bsteps_append [OF ms] by blast
qed

lemma initial_book_ok: "book_ok (book_of E (initial_state w))"
  by (rule initial_book(1))

lemma reachable_book:
  assumes "reachable E s" and "\<And>w. P (book_of E (initial_state w))"
    and "\<And>k m k'. bstep k m k' \<Longrightarrow> book_ok k \<Longrightarrow> P k \<Longrightarrow> P k'"
  shows "P (book_of E s)"
proof -
  obtain w ms where "bsteps (book_of E (initial_state w)) ms (book_of E s)"
    using reachable_moves [OF assms(1)] by blast
  then have "book_ok (book_of E s) \<and> P (book_of E s)"
    by (rule bsteps_preserve [where P = "\<lambda>k. book_ok k \<and> P k" and good = "\<lambda>_. True"])
      (use assms(2,3) initial_book_ok in \<open>auto intro: book_ok_step simp: list_all_iff\<close>)
  then show ?thesis ..
qed

lemma reachable_book_ok: "reachable E s \<Longrightarrow> book_ok (book_of E s)"
  by (rule book_inv.reach_rel)

text \<open>One call from a reachable state is a run of moves from a well-formed book.\<close>

lemma reachable_exec_moves:
  assumes "reachable E s" and "valid_env E env" and "exec env c s = Inr s'"
  obtains ms where "bsteps (book_of E s) ms (book_of E s')" and "book_ok (book_of E s)"
    and "clean_call s c \<longrightarrow> list_all clean ms"
proof -
  have tok: "st_admin s = None \<longleftrightarrow> st_token s = None"
    using token_inv.reach_inv [OF assms(1)] unfolding token_ok_def .
  show ?thesis
    using exec_sim [OF assms(2,3) tok] that reachable_book_ok [OF assms(1)] by blast
qed

section \<open>Settled escrows and refund histories\<close>

lemma settled_frozen_step:
  "bstep k m k' \<Longrightarrow> book_ok k \<Longrightarrow> bk_escrows k b = Some e \<Longrightarrow> \<not> live e \<Longrightarrow>
   bk_escrows k' b = Some e"
proof (induction rule: bstep.induct)
  case (claim k b' cl e' h)
  then have "status e' = Locked"
    using claim_amount_remaining [OF book_okD(4)] by blast
  then show ?case using claim by (auto simp: live_def)
qed (auto simp: live_def)

lemma settled_frozen_steps:
  "bsteps k ms k' \<Longrightarrow> book_ok k \<Longrightarrow> bk_escrows k b = Some e \<Longrightarrow> \<not> live e \<Longrightarrow>
   bk_escrows k' b = Some e"
  by (induction rule: bsteps.induct) (auto dest: settled_frozen_step book_ok_step)

lemma reachable_settled_frozen:
  assumes "reachable E s" and "valid_env E env" and "exec env c s = Inr s'"
    and "st_escrows s b = Some e" and "\<not> live e"
  shows "st_escrows s' b = Some e"
proof -
  obtain ms where "bsteps (book_of E s) ms (book_of E s')" "book_ok (book_of E s)"
    using reachable_exec_moves [OF assms(1-3)] by blast
  from settled_frozen_steps [OF this, of b e] assms(4,5) show ?thesis by simp
qed

definition histories_ok :: "book \<Rightarrow> bool" where
  "histories_ok k \<longleftrightarrow> (\<forall>b e. bk_escrows k b = Some e \<longrightarrow>
     (\<forall>r \<in> set (refund_history e). 0 < rr_amount r))"

lemma histories_ok_step: "bstep k m k' \<Longrightarrow> histories_ok k \<Longrightarrow> histories_ok k'"
  by (induction rule: bstep.induct) (auto simp: histories_ok_def move_defs)

lemma reachable_histories: "reachable E s \<Longrightarrow> histories_ok (book_of E s)"
  by (rule reachable_book [where P = histories_ok])
    (assumption, simp add: histories_ok_def initial_state_def, blast intro: histories_ok_step)

section \<open>The depositor index\<close>

definition deposited_by :: "(u64 \<rightharpoonup> escrow) \<Rightarrow> addr \<Rightarrow> u64 \<Rightarrow> bool" where
  "deposited_by es a b \<longleftrightarrow> (\<exists>e. es b = Some e \<and> depositor e = a)"

definition dindex_ok :: "book \<Rightarrow> bool" where
  "dindex_ok k \<longleftrightarrow> (\<forall>a. bk_depositor k a = filter (deposited_by (bk_escrows k) a) (bk_index k))"

lemma deposited_by_upd:
  "es b = Some e \<Longrightarrow> depositor e' = depositor e \<Longrightarrow>
   deposited_by (es(b \<mapsto> e')) a = deposited_by es a"
  by (auto simp: deposited_by_def fun_eq_iff)

lemma deposited_by_new:
  "b \<notin> set ids \<Longrightarrow> filter (deposited_by (es(b \<mapsto> e)) a) ids = filter (deposited_by es a) ids"
  by (rule filter_cong) (auto simp: deposited_by_def)

lemma dindex_ok_step:
  assumes "bstep k m k'" and "book_ok k" and "dindex_ok k"
  shows "dindex_ok k'"
  using assms
proof (induction rule: bstep.induct)
  case (lock k b amt h dep dl)
  then have "b \<notin> set (bk_index k)" by (auto simp: book_ok_def index_ok_def domIff)
  then show ?case
    using lock.prems(2)
    by (auto simp: dindex_ok_def deposited_by_new) (auto simp: deposited_by_def new_escrow_def)
qed (simp_all add: dindex_ok_def deposited_by_upd move_defs)

lemma reachable_dindex:
  "reachable E s \<Longrightarrow>
   depositor_index s a = filter (deposited_by (st_escrows s) a) (escrow_index s)"
proof -
  assume "reachable E s"
  then have "dindex_ok (book_of E s)"
    by (rule reachable_book [where P = dindex_ok])
      (simp add: dindex_ok_def initial_state_def view_defs, blast intro: dindex_ok_step)
  then show ?thesis by (simp add: dindex_ok_def)
qed

section \<open>The full scan\<close>

lemma sum_refunds_ok:
  "\<forall>r \<in> set rs. 0 < rr_amount r \<Longrightarrow> 0 \<le> acc \<Longrightarrow> acc + (\<Sum>r\<leftarrow>rs. rr_amount r) \<le> i128_max \<Longrightarrow>
   sum_refunds rs acc = Inr (acc + (\<Sum>r\<leftarrow>rs. rr_amount r))"
proof (induction rs arbitrary: acc)
  case (Cons r rs)
  have "0 \<le> (\<Sum>r\<leftarrow>rs. rr_amount r)"
    using Cons.prems(1) by (intro sum_list_nonneg) (auto intro: less_imp_le)
  then have "checked_add_i128 acc (rr_amount r) = Some (acc + rr_amount r)"
    using Cons.prems by (auto simp: arith_defs)
  then show ?case using Cons by (simp add: algebra_simps)
qed simp

lemma scan_stats_one_tallies:
  assumes "escrow_ok e" and "\<forall>r \<in> set (refund_history e). 0 < rr_amount r"
    and "amount e \<le> i128_max" and "tallies c l r f nl nr nf"
    and "in_bounds l r f nl nr nf"
    and "in_bounds (l + locked_part e) (r + released_sum e) (f + refund_sum e)
      (nl + one_if live e) (nr + one_if is_released e) (nf + one_if is_refunded e)"
  shows "\<exists>c'. scan_stats_one e c = Inr c' \<and>
    tallies c' (l + locked_part e) (r + released_sum e) (f + refund_sum e)
      (nl + one_if live e) (nr + one_if is_released e) (nf + one_if is_refunded e)"
proof -
  have ok: "0 \<le> remaining_amount e" "0 \<le> refund_sum e" "0 \<le> released_sum e"
    using assms(1) by (auto simp: escrow_ok_def)
  then have le: "refund_sum e \<le> i128_max" "amount e - remaining_amount e \<le> i128_max"
      "released_sum e \<le> i128_max" "0 \<le> amount e - remaining_amount e"
    using assms(3) by (auto simp: released_sum_def)
  have sum: "sum_refunds (refund_history e) 0 = Inr (refund_sum e)"
    using sum_refunds_ok [OF assms(2), of 0] le(1) by (simp add: refund_sum_def)
  have gone: "sub_i128 (amount e) (remaining_amount e) = Inr (amount e - remaining_amount e)"
    using le by (simp add: sub_i128_def arith_defs)
  have rel: "sub_i128 (amount e - remaining_amount e) (refund_sum e) = Inr (released_sum e)"
    using le ok by (simp add: sub_i128_def arith_defs released_sum_def)
  have adds: "add_i128 (total_released c) (released_sum e) = Inr (r + released_sum e)"
      "add_i128 (total_refunded c) (refund_sum e) = Inr (f + refund_sum e)"
    using assms(4,6) by (auto simp: add_i128_def arith_defs tallies_def in_bounds_def)
  show ?thesis
    using assms(4,6)
    by (cases "status e")
      (auto simp: scan_stats_one_def sum gone rel adds add_i128_def add_u32_def arith_defs
        tallies_def in_bounds_def locked_part_def one_if_def live_def Let_def)
qed

lemma scan_stats_tallies:
  assumes "\<forall>b \<in> set ids. \<forall>e. st_escrows s b = Some e \<longrightarrow> escrow_ok e \<and>
      (\<forall>r \<in> set (refund_history e). 0 < rr_amount r) \<and> amount e \<le> i128_max"
    and "tallies c l r f nl nr nf" and "in_bounds l r f nl nr nf"
    and "in_bounds (l + sum_over locked_part (st_escrows s) ids)
      (r + sum_over released_sum (st_escrows s) ids) (f + sum_over refund_sum (st_escrows s) ids)
      (nl + sum_over (one_if live) (st_escrows s) ids)
      (nr + sum_over (one_if is_released) (st_escrows s) ids)
      (nf + sum_over (one_if is_refunded) (st_escrows s) ids)"
  shows "\<exists>c'. scan_stats s ids c = Inr c' \<and>
    tallies c' (l + sum_over locked_part (st_escrows s) ids)
      (r + sum_over released_sum (st_escrows s) ids) (f + sum_over refund_sum (st_escrows s) ids)
      (nl + sum_over (one_if live) (st_escrows s) ids)
      (nr + sum_over (one_if is_released) (st_escrows s) ids)
      (nf + sum_over (one_if is_refunded) (st_escrows s) ids)"
  using assms
proof (induction ids arbitrary: c l r f nl nr nf)
  case (Cons b ids)
  show ?case
  proof (cases "st_escrows s b")
    case None
    then show ?thesis using Cons.IH [of c l r f nl nr nf] Cons.prems by auto
  next
    case (Some e)
    have e: "escrow_ok e" "\<forall>r \<in> set (refund_history e). 0 < rr_amount r" "amount e \<le> i128_max"
      using Cons.prems(1) Some by auto
    have rest: "0 \<le> sum_over g (st_escrows s) ids"
      if "\<And>e. escrow_ok e \<Longrightarrow> 0 \<le> g e" for g
      using Cons.prems(1) that by (intro sum_over_nonneg) auto
    note nonneg = rest [of locked_part] rest [of released_sum] rest [of refund_sum]
      rest [of "one_if live"] rest [of "one_if is_released"] rest [of "one_if is_refunded"]
    have bounds: "in_bounds (l + locked_part e) (r + released_sum e) (f + refund_sum e)
        (nl + one_if live e) (nr + one_if is_released e) (nf + one_if is_refunded e)"
      using Cons.prems(3,4) nonneg escrow_parts [OF e(1)] Some
      by (auto simp: in_bounds_def escrow_parts)
    obtain c1 where c1: "scan_stats_one e c = Inr c1"
      "tallies c1 (l + locked_part e) (r + released_sum e) (f + refund_sum e)
        (nl + one_if live e) (nr + one_if is_released e) (nf + one_if is_refunded e)"
      using scan_stats_one_tallies [OF e Cons.prems(2,3) bounds] by blast
    show ?thesis
      using Cons.IH [OF _ c1(2) bounds] Cons.prems(1,4) Some c1(1) by (simp add: add.assoc)
  qed
qed simp

lemma tallies_unique:
  "tallies c l r f nl nr nf \<Longrightarrow> tallies c' l r f nl nr nf \<Longrightarrow> c = (c' :: aggregate_stats)"
  by (auto simp: tallies_def)

lemma amount_fits:
  assumes "book_ok k" and "fits k" and "bk_escrows k b = Some e"
  shows "amount e \<le> i128_max"
proof -
  have nonneg: "0 \<le> amount e'" if "bk_escrows k b' = Some e'" for b' e'
  proof -
    have "escrow_ok e'" using assms(1) that by (auto simp: book_ok_def escrows_ok_def)
    then show ?thesis by (auto simp: escrow_ok_def released_sum_def)
  qed
  have "b \<in> set (bk_index k)"
    using assms(1,3) by (auto simp: book_ok_def index_ok_def)
  then have "amount e \<le> book_sum amount k"
    using assms(3) nonneg by (intro sum_over_member_le) auto
  then show ?thesis using assms(2) by (simp add: fits_def)
qed

lemma full_scan_tallies:
  assumes "reachable E s" and "fits (book_of E s)"
  shows "\<exists>c. get_aggregate_stats_full_scan s = Inr c \<and>
    tallies c (book_sum locked_part (book_of E s)) (book_sum released_sum (book_of E s))
      (book_sum refund_sum (book_of E s)) (book_sum (one_if live) (book_of E s))
      (book_sum (one_if is_released) (book_of E s)) (book_sum (one_if is_refunded) (book_of E s))"
proof -
  note ok = reachable_book_ok [OF assms(1)]
  have each: "escrow_ok e \<and> (\<forall>r \<in> set (refund_history e). 0 < rr_amount r) \<and> amount e \<le> i128_max"
    if "st_escrows s b = Some e" for b e
    using ok reachable_histories [OF assms(1)] amount_fits [OF ok assms(2)] that
    by (auto simp: book_ok_def escrows_ok_def histories_ok_def)
  have zero: "tallies zero_stats 0 0 0 0 0 0" "in_bounds 0 0 0 0 0 0"
    by (simp_all add: tallies_def zero_stats_def in_bounds_def)
  show ?thesis
    using scan_stats_tallies [OF _ zero, of "escrow_index s" s] each
      tallies_in_bounds [OF ok assms(2)]
    by (simp add: get_aggregate_stats_full_scan_def)
qed

section \<open>The margin of a release\<close>

lemma release_margin:
  assumes "reachable E s" and "valid_env E env" and "release_funds env s b c = Inr s'"
    and "st_escrows s b = Some e" and "c \<noteq> current_contract_address E"
  shows "held E s' - sum_over remaining_amount (st_escrows s') (escrow_index s') =
    held E s - sum_over remaining_amount (st_escrows s) (escrow_index s)
      - (amount e - remaining_amount e)"
proof -
  obtain t w where t: "st_token s = Some t"
      "tk_transfer env t (current_contract_address env) c (amount e) (st_world s) = Some w"
    and s': "st_token s' = Some t" "st_world s' = w" "st_index s' = st_index s"
      "st_escrows s' = (st_escrows s)(b \<mapsto> paid_out e)"
    using assms(3,4)
    by (auto simp: release_funds_def bnd_Inr ok_or_Inr if_Inl_Inr execute_token_transfer_Inr
        token_transfer_Inr Let_def paid_out_def emit_def clear_release_approval_def
        counter_defs split: if_splits)
  have env: "sep41 env t" "current_contract_address env = current_contract_address E"
    using assms(2) by (auto simp: valid_env_def)
  have "balance_of env t (current_contract_address env) w =
      balance_of env t (current_contract_address env) (st_world s) - amount e"
    using sep41_balance [OF env(1) t(2), of "current_contract_address env"] assms(5) env(2) by simp
  then have held: "held E s' = held E s - amount e"
    using t(1) s'(1,2) env(2) valid_env_balance [OF assms(2)] by (simp add: held_def)
  have index: "escrow_index s' = escrow_index s" using s'(3) by (simp add: escrow_index_def)
  have "sum_over remaining_amount (st_escrows s') (escrow_index s') =
      sum_over remaining_amount (st_escrows s) (escrow_index s) - remaining_amount e"
    using book_sum_upd [OF book_okD(1) [OF reachable_book_ok [OF assms(1)]], of b e] assms(4)
    by (simp add: s'(4) index paid_out_def)
  with held show ?thesis by simp
qed

lemma release_frame:
  assumes "release_funds env s b c = Inr s'" and "st_escrows s b = Some e"
  shows "st_escrows s' = (st_escrows s)(b \<mapsto> e\<lparr>status := Released, remaining_amount := 0\<rparr>)"
  using assms
  by (auto simp: release_funds_def bnd_Inr ok_or_Inr if_Inl_Inr execute_token_transfer_Inr
      token_transfer_Inr Let_def emit_def clear_release_approval_def counter_defs)

section \<open>A release singly and in a batch\<close>

text \<open>What a release has checked and done, the approvals apart.\<close>

definition release_ready ::
    "'w env \<Rightarrow> 'w state \<Rightarrow> u64 \<Rightarrow> addr \<Rightarrow> escrow \<Rightarrow> addr \<Rightarrow> 'w \<Rightarrow> metrics \<Rightarrow> bool" where
  "release_ready env s b c e t w m \<longleftrightarrow> check_governance_requirements env s = Inr () \<and>
     (\<exists>a. require_admin env s = Inr a) \<and> st_claims s b = None \<and> st_escrows s b = Some e \<and>
     status e = Locked \<and> \<not> check_paused s ''release'' \<and> st_token s = Some t \<and>
     tk_transfer env t (current_contract_address env) c (amount e) (st_world s) = Some w \<and>
     update_analytics_on_release (st_metrics s) b (amount e) (timestamp env) = Inr m"

lemma ready_multisig:
  "release_ready env (s\<lparr>st_multisig := cfg, st_release_approvals := apps\<rparr>) b c e t w m =
   release_ready env s b c e t w m"
  by (simp add: release_ready_def check_governance_requirements_def require_admin_def
      check_paused_def get_pause_flags_def)

lemma release_fundsE:
  assumes "release_funds env s b c = Inr s'"
  obtains e t w m where "release_ready env s b c e t w m" and "st_world s' = w"
  using assms
  by (auto simp: release_funds_def release_ready_def bnd_Inr ok_or_Inr if_Inl_Inr
      execute_token_transfer_Inr token_transfer_Inr Let_def emit_def clear_release_approval_def
      counter_defs map_overflow_Inr)

lemma unapproved_release:
  assumes "release_ready env s b c e t w m"
    and "threshold_amount (get_multisig_config s) \<le> amount e"
    and "\<forall>a. st_release_approvals s b = Some a \<longrightarrow>
      length (approvals a) < required_signatures (get_multisig_config s)"
  shows "release_funds env s b c = Inl (Contract ApprovalRequired)"
proof -
  have "check_release_approval s b (amount e) = Inl (Contract ApprovalRequired)"
    using assms(2,3)
    by (cases "st_release_approvals s b") (simp_all add: check_release_approval_def Let_def)
  then show ?thesis using assms(1) by (auto simp: release_ready_def release_funds_def)
qed

lemma batch_of_one:
  assumes "release_ready env s b c e t w m" and "get_state (st_breaker s) \<noteq> Open"
    and "in_i128 (amount e)"
  shows "\<exists>s'. batch_release_funds env s [\<lparr>ri_bounty_id = b, ri_contributor = c\<rparr>] = Inr (s', 1) \<and>
    st_world s' = w \<and> st_release_approvals s' = st_release_approvals s \<and>
    st_escrows s' = (st_escrows s)(b \<mapsto> e\<lparr>status := Released, remaining_amount := 0\<rparr>)"
proof -
  have "breaker_gate env s = Inr ()"
    using assms(2) by (simp add: breaker_gate_def check_and_allow_def split: circuit_state.split)
  moreover have "validate_unique_bounty_ids [b] = Inr ()" by (simp add: validate_unique_Inr)
  ultimately show ?thesis
    using assms(1,3)
    by (auto simp: release_ready_def batch_release_funds_def release_one_def token_transfer_def
        MAX_BATCH_SIZE_def checked_add_i128_def checked_i128_def checked_add_u32_def
        counter_defs map_overflow_def emit_def Let_def)
qed

section \<open>Counts by status\<close>

definition count_of :: "'w state \<Rightarrow> (escrow \<Rightarrow> bool) \<Rightarrow> nat" where
  "count_of s p = length (filter (matches s p) (escrow_index s))"

lemma count_status_filter:
  "count + length (filter (matches s (\<lambda>e. status e = st)) ids) \<le> u32_max \<Longrightarrow>
   count_status s st ids count =
     Inr (count + length (filter (matches s (\<lambda>e. status e = st)) ids))"
  by (induction ids arbitrary: count)
    (auto simp: matches_def add_u32_def checked_add_u32_def split: option.splits)

lemma full_scan_count:
  assumes "length (escrow_index s) \<le> u32_max"
  shows "count_by_status_full_scan s st = Inr (count_of s (\<lambda>e. status e = st))"
proof -
  have "length (filter (matches s (\<lambda>e. status e = st)) (escrow_index s)) \<le> u32_max"
    using length_filter_le assms by (rule order_trans)
  then show ?thesis
    using count_status_filter [of 0 s st "escrow_index s"]
    by (simp add: count_by_status_full_scan_def count_of_def)
qed

lemma sum_over_one_if:
  "sum_over (one_if p) (st_escrows s) ids = int (length (filter (matches s p) ids))"
  by (induction ids) (auto simp: one_if_def matches_def split: option.splits)

lemma count_live:
  "count_of s live = count_of s (\<lambda>e. status e = Locked) + count_of s (\<lambda>e. status e = PartiallyRefunded)"
proof -
  have "length (filter (matches s live) ids) =
      length (filter (matches s (\<lambda>e. status e = Locked)) ids) +
      length (filter (matches s (\<lambda>e. status e = PartiallyRefunded)) ids)" for ids
    by (induction ids) (auto simp: matches_def live_def split: option.splits)
  then show ?thesis by (simp add: count_of_def)
qed

lemma clean_counts:
  assumes "clean_reach E s" and "fits (book_of E s)"
  shows "count_locked (get_counters s) = count_of s live \<and>
    count_released (get_counters s) = count_of s is_released \<and>
    count_refunded (get_counters s) = count_of s is_refunded"
  using clean_reach_ok(3) [OF assms]
  by (simp add: counters_ok_def tallies_def sum_over_one_if count_of_def)

end
