(* ===== verification/Monitoring.thy ===== *)
theory Monitoring
  imports BountyTypes
begin

text \<open>
  The module \<open>monitoring\<close> inside lib.rs of the bounty escrow contract: operation and error
  counters, per-function timings and the views over them. The module is compiled into the
  contract but no entrypoint of it calls these functions; they are modelled as a component
  of their own. Counters are plain \<open>u64\<close> additions, which panic when they overflow.
\<close>

section \<open>State and records\<close>

record monitor =
  op_count :: "u64 option"
  usr_count :: "u64 option"
  err_count :: "u64 option"
  perf_cnt :: "symbol \<rightharpoonup> u64"
  perf_time :: "symbol \<rightharpoonup> u64"
  perf_last :: "symbol \<rightharpoonup> u64"

definition empty_monitor :: monitor where
  "empty_monitor = \<lparr>op_count = None, usr_count = None, err_count = None,
     perf_cnt = Map.empty, perf_time = Map.empty, perf_last = Map.empty\<rparr>"

datatype metric_event =
    OperationMetric symbol addr u64 bool
  | PerformanceMetric symbol u64 u64

record health_status =
  is_healthy :: bool
  last_operation :: u64
  total_operations :: u64
  contract_version :: string

record monitor_analytics =
  operation_total :: u64
  unique_users :: u64
  error_count :: u64
  error_rate :: u32

record state_snapshot =
  ss_timestamp :: u64
  ss_total_operations :: u64
  ss_total_users :: u64
  ss_total_errors :: u64

record performance_stats =
  function_name :: symbol
  call_count :: u64
  total_time :: u64
  avg_time :: u64
  last_called :: u64

definition or_zero :: "u64 option \<Rightarrow> u64" where
  "or_zero v = (case v of None \<Rightarrow> 0 | Some n \<Rightarrow> n)"

lemma or_zero_simps [simp]: "or_zero None = 0" "or_zero (Some n) = n"
  by (simp_all add: or_zero_def)

section \<open>Operations\<close>

definition track_operation ::
    "u64 \<Rightarrow> symbol \<Rightarrow> addr \<Rightarrow> bool \<Rightarrow> monitor \<Rightarrow> ('e, metric_event \<times> monitor) res" where
  "track_operation now opn caller success m =
     bnd (add_u64 (or_zero (op_count m)) 1) (\<lambda>ops.
       let m1 = m\<lparr>op_count := Some ops\<rparr>;
           ev = OperationMetric opn caller now success
       in if \<not> success
          then bnd (add_u64 (or_zero (err_count m1)) 1)
                 (\<lambda>errs. Inr (ev, m1\<lparr>err_count := Some errs\<rparr>))
          else Inr (ev, m1))"

definition emit_performance ::
    "u64 \<Rightarrow> symbol \<Rightarrow> u64 \<Rightarrow> monitor \<Rightarrow> ('e, metric_event \<times> monitor) res" where
  "emit_performance now fn duration m =
     (let count = or_zero (perf_cnt m fn); total = or_zero (perf_time m fn) in
      bnd (add_u64 count 1) (\<lambda>count'.
        let m1 = m\<lparr>perf_cnt := (perf_cnt m)(fn \<mapsto> count')\<rparr> in
        bnd (add_u64 total duration) (\<lambda>total'.
          Inr (PerformanceMetric fn duration now,
               m1\<lparr>perf_time := (perf_time m1)(fn \<mapsto> total')\<rparr>))))"

definition health_check :: "u64 \<Rightarrow> monitor \<Rightarrow> health_status" where
  "health_check now m =
     \<lparr>is_healthy = True, last_operation = now, total_operations = or_zero (op_count m),
      contract_version = ''1.0.0''\<rparr>"

text \<open>The rate is computed in \<open>u128\<close>, where nothing overflows, and cast to \<open>u32\<close>.\<close>

definition get_monitor_analytics :: "monitor \<Rightarrow> monitor_analytics" where
  "get_monitor_analytics m =
     (let ops = or_zero (op_count m); users = or_zero (usr_count m);
          errors = or_zero (err_count m);
          rate = (if 0 < ops then (errors * 10000 div ops) mod 2 ^ 32 else 0)
      in \<lparr>operation_total = ops, unique_users = users, error_count = errors,
          error_rate = rate\<rparr>)"

definition get_state_snapshot :: "u64 \<Rightarrow> monitor \<Rightarrow> state_snapshot" where
  "get_state_snapshot now m =
     \<lparr>ss_timestamp = now, ss_total_operations = or_zero (op_count m),
      ss_total_users = or_zero (usr_count m), ss_total_errors = or_zero (err_count m)\<rparr>"

definition get_performance_stats :: "symbol \<Rightarrow> monitor \<Rightarrow> performance_stats" where
  "get_performance_stats fn m =
     (let count = or_zero (perf_cnt m fn); total = or_zero (perf_time m fn);
          last = or_zero (perf_last m fn);
          avg = (if 0 < count then total div count else 0)
      in \<lparr>function_name = fn, call_count = count, total_time = total, avg_time = avg,
          last_called = last\<rparr>)"

section \<open>The monitor as a system\<close>

inductive monitor_step :: "monitor \<Rightarrow> metric_event \<Rightarrow> monitor \<Rightarrow> bool" where
  tracked: "(track_operation now opn caller success m :: _ bres) = Inr (ev, m') \<Longrightarrow>
    monitor_step m ev m'"
| timed: "(emit_performance now fn duration m :: _ bres) = Inr (ev, m') \<Longrightarrow>
    monitor_step m ev m'"

abbreviation monitor_reach :: "monitor \<Rightarrow> bool" where
  "monitor_reach \<equiv> reach (\<lambda>m. m = empty_monitor) monitor_step"

definition monitor_ok :: "monitor \<Rightarrow> bool" where
  "monitor_ok m \<longleftrightarrow> or_zero (err_count m) \<le> or_zero (op_count m) \<and> usr_count m = None \<and>
     perf_last m = Map.empty"

interpretation monitor_inv: invariant_system "\<lambda>m. m = empty_monitor" monitor_step monitor_ok
proof unfold_locales
  show "monitor_ok m" if "m = empty_monitor" for m
    using that by (simp add: monitor_ok_def empty_monitor_def)
  show "monitor_ok t" if "monitor_ok s" "monitor_step s l t" for s t l
    using that(2,1)
    by (induction rule: monitor_step.induct)
      (auto simp: track_operation_def emit_performance_def monitor_ok_def res_simps Let_def
        split: if_splits)
qed

section \<open>Properties\<close>

text \<open>
  The reported error rate is exact: on every reachable monitor it is the number of failed
  operations in basis points of all operations, rounded down and never above 10000, so the
  cast to 32 bits loses nothing. The counts of users and the times of last calls, which the
  views report too, are never written and always zero.
\<close>

theorem error_rate_exact:
  assumes "monitor_reach m"
  shows "error_rate (get_monitor_analytics m) =
      or_zero (err_count m) * 10000 div or_zero (op_count m) \<and>
    error_rate (get_monitor_analytics m) \<le> 10000 \<and>
    unique_users (get_monitor_analytics m) = 0 \<and>
    last_called (get_performance_stats fn m) = 0"
proof -
  have ok: "or_zero (err_count m) \<le> or_zero (op_count m)" "usr_count m = None"
      "perf_last m = Map.empty"
    using monitor_inv.reach_inv [OF assms] by (simp_all add: monitor_ok_def)
  have "or_zero (err_count m) * 10000 div or_zero (op_count m) \<le> 10000"
  proof (cases "or_zero (op_count m) = 0")
    case False
    then have "or_zero (err_count m) * 10000 div or_zero (op_count m) \<le>
        or_zero (op_count m) * 10000 div or_zero (op_count m)"
      using ok(1) by (intro div_le_mono) simp
    then show ?thesis using False by simp
  qed simp
  then show ?thesis
    using ok by (simp add: get_monitor_analytics_def get_performance_stats_def Let_def)
qed

lemma error_rate_exact_witness:
  "\<exists>ev m. (track_operation 5 ''lock'' 2 False empty_monitor :: _ bres) = Inr (ev, m) \<and>
     error_rate (get_monitor_analytics m) = 10000"
proof -
  let ?m = "empty_monitor\<lparr>op_count := Some 1, err_count := Some 1\<rparr>"
  have m: "(track_operation 5 ''lock'' 2 False empty_monitor :: _ bres) =
      Inr (OperationMetric ''lock'' 2 5 False, ?m)"
    by (simp add: track_operation_def empty_monitor_def add_u64_def arith_defs Let_def)
  then have one: "monitor_step empty_monitor (OperationMetric ''lock'' 2 5 False) ?m"
    by (rule monitor_step.tracked)
  have "monitor_reach empty_monitor" by (rule reach.reach_init) simp
  then have "monitor_reach ?m"
    using one reach.reach_step [where step = monitor_step] by blast
  from error_rate_exact [OF this] m show ?thesis by simp
qed

end
