(* ===== verification/ProgramTypes.thy ===== *)
theory ProgramTypes
  imports Monitoring BountyGovernance
begin

text \<open>
  The data model of the program escrow contract (program-escrow/src/lib.rs): its error enum,
  the stored structs, the events and the constants. A program is one pool of funds with an
  authorised payout key; payouts and release schedules take from the pool.
\<close>

section \<open>Errors\<close>

datatype program_error =
    Pe_GovernanceVersionTooLow | InvalidThresholdBps | Pe_GovernanceProposalNotExecutable
  | Pe_UpgradeNotApproved | ProgramIdMismatch

fun program_error_code :: "program_error \<Rightarrow> u32" where
  "program_error_code Pe_GovernanceVersionTooLow = 4"
| "program_error_code InvalidThresholdBps = 5"
| "program_error_code Pe_GovernanceProposalNotExecutable = 6"
| "program_error_code Pe_UpgradeNotApproved = 7"
| "program_error_code ProgramIdMismatch = 8"

type_synonym 'a pres = "(program_error, 'a) res"

text \<open>A \<open>panic!\<close> with a message.\<close>

abbreviation panic_msg :: "string \<Rightarrow> ('e, 'a) res" where
  "panic_msg m \<equiv> Inl (Panic (Message m))"

section \<open>Constants\<close>

definition BASIS_POINTS_PROGRAM :: i128 where "BASIS_POINTS_PROGRAM = 10000"
definition MAX_BATCH_PAYOUT :: u32 where "MAX_BATCH_PAYOUT = 100"
definition MAX_SCHEDULE_QUERY :: u32 where "MAX_SCHEDULE_QUERY = 100"

section \<open>Stored structs\<close>

record payout_record =
  py_recipient :: addr
  py_amount :: i128
  py_timestamp :: u64

record program_data =
  pd_program_id :: string
  pd_total_funds :: i128
  pd_remaining_balance :: i128
  pd_authorized_payout_key :: addr
  pd_payout_history :: "payout_record list"
  pd_token_address :: addr

record program_pause_flags =
  pf_lock_paused :: bool
  pf_release_paused :: bool
  pf_refund_paused :: bool

record rate_limit_config =
  rl_window_size :: u64
  rl_max_operations :: u32
  rl_cooldown_period :: u64

record program_fee_config =
  pfc_lock_fee_rate :: i128
  pfc_payout_fee_rate :: i128
  pfc_fee_recipient :: addr
  pfc_fee_enabled :: bool

record fund_cap_config =
  max_total_funds :: "i128 option"
  max_single_lock :: "i128 option"

record release_schedule =
  sc_schedule_id :: u64
  sc_recipient :: addr
  sc_amount :: i128
  sc_release_timestamp :: u64
  sc_released :: bool
  sc_released_at :: "u64 option"
  sc_released_by :: "addr option"

datatype release_type = Manual | Automatic | Oracle

record release_history =
  rh_schedule_id :: u64
  rh_recipient :: addr
  rh_amount :: i128
  rh_released_at :: u64
  rh_release_type :: release_type

record program_aggregate_stats =
  pas_total_funds :: i128
  pas_remaining_balance :: i128
  pas_total_paid_out :: i128
  pas_payout_count :: u32
  pas_scheduled_count :: u32
  pas_released_count :: u32
  pas_authorized_payout_key :: addr
  pas_payout_history :: "payout_record list"
  pas_token_address :: addr

datatype dispute_status = Dispute_None | Dispute_Open | Dispute_Resolved | Dispute_Cancelled

text \<open>
  A scope is also the storage key of its dispute: \<open>DataKey::Dispute\<close>,
  \<open>RecipientDispute(a)\<close> and \<open>ScheduleDispute(i)\<close> go with it one to one.
\<close>

datatype dispute_scope = Global | Recipient addr | Schedule u64

record dispute_record =
  dr_opened_by :: addr
  dr_opened_at :: u64
  dr_reason :: string
  dr_status :: dispute_status
  dr_resolved_by :: "addr option"
  dr_resolved_at :: "u64 option"

section \<open>Events\<close>

text \<open>
  One constructor per published event, its arguments the payload in order without the
  constant \<open>version\<close>.
\<close>

datatype program_event =
    ProgramInitializedEvent string addr addr i128
  | FundsLockedEvent string i128 i128
  | BatchPayoutEvent string u32 i128 i128 u32 u32 u32 u32 u32
  | PayoutEvent string addr i128 i128
  | AggregateStatsEvent string i128 i128 i128 u32 u32
  | LargePayoutEvent string addr i128 i128
  | WhitelistChangedEvent addr bool
  | WhitelistEnforcementChangedEvent bool
  | ScheduleTriggeredEvent string u64 addr i128 release_type
  | Program_PauseStateChanged symbol bool addr
  | Program_UpgradeExecuted bytes32 addr
  | DisputeOpenedEvent string dispute_scope addr string u64
  | DisputeResolvedEvent string dispute_scope addr u64
  | DisputeCancelledEvent string dispute_scope addr u64
  | Program_Metric metric_event

end
