(* ===== verification/ProgramBreaker.thy ===== *)
theory ProgramBreaker
  imports CircuitBreaker ProgramTypes
begin

text \<open>
  The circuit breaker of the program escrow (program-escrow/src/error_recovery.rs). The file
  is a copy of the bounty escrow's in which an error entry names a program instead of a
  bounty and the retry helper reports the last error. The state and the operations are
  written out again, for this file; a functional refinement then shows that they are the
  other module's up to the names in the error log, which also carries its laws over.
\<close>

section \<open>State\<close>

record program_error_entry =
  pee_operation :: symbol
  pee_program_id :: string
  pee_error_code :: u32
  pee_timestamp :: u64
  pee_failure_count_at_time :: u32

record program_breaker =
  pb_state :: "circuit_state option"
  pb_failure_count :: "u32 option"
  pb_last_failure_timestamp :: "u64 option"
  pb_opened_at :: "u64 option"
  pb_success_count :: "u32 option"
  pb_admin :: "addr option"
  pb_config :: "circuit_breaker_config option"
  pb_error_log :: "program_error_entry list option"
  pb_events :: "event list"

definition empty_program_breaker :: program_breaker where
  "empty_program_breaker = \<lparr>pb_state = None, pb_failure_count = None,
     pb_last_failure_timestamp = None, pb_opened_at = None, pb_success_count = None,
     pb_admin = None, pb_config = None, pb_error_log = None, pb_events = []\<rparr>"

definition pb_default_config :: circuit_breaker_config where
  "pb_default_config = \<lparr>failure_threshold = 3, success_threshold = 1, max_error_log = 10\<rparr>"

section \<open>Reading\<close>

definition pb_get_config :: "program_breaker \<Rightarrow> circuit_breaker_config" where
  "pb_get_config b = (case pb_config b of None \<Rightarrow> pb_default_config | Some c \<Rightarrow> c)"

definition pb_set_config :: "program_breaker \<Rightarrow> circuit_breaker_config \<Rightarrow> program_breaker" where
  "pb_set_config b c = b\<lparr>pb_config := Some c\<rparr>"

definition pb_get_state :: "program_breaker \<Rightarrow> circuit_state" where
  "pb_get_state b = (case pb_state b of None \<Rightarrow> Closed | Some s \<Rightarrow> s)"

definition pb_get_failure_count :: "program_breaker \<Rightarrow> u32" where
  "pb_get_failure_count b = (case pb_failure_count b of None \<Rightarrow> 0 | Some n \<Rightarrow> n)"

definition pb_get_success_count :: "program_breaker \<Rightarrow> u32" where
  "pb_get_success_count b = (case pb_success_count b of None \<Rightarrow> 0 | Some n \<Rightarrow> n)"

definition pb_get_status :: "program_breaker \<Rightarrow> circuit_breaker_status" where
  "pb_get_status b =
     \<lparr>bs_state = pb_get_state b,
      bs_failure_count = pb_get_failure_count b,
      bs_success_count = pb_get_success_count b,
      bs_last_failure_timestamp =
        (case pb_last_failure_timestamp b of None \<Rightarrow> 0 | Some t \<Rightarrow> t),
      bs_opened_at = (case pb_opened_at b of None \<Rightarrow> 0 | Some t \<Rightarrow> t),
      bs_failure_threshold = failure_threshold (pb_get_config b),
      bs_success_threshold = success_threshold (pb_get_config b)\<rparr>"

definition pb_get_error_log :: "program_breaker \<Rightarrow> program_error_entry list" where
  "pb_get_error_log b = (case pb_error_log b of None \<Rightarrow> [] | Some l \<Rightarrow> l)"

definition pb_get_circuitadmin :: "program_breaker \<Rightarrow> addr option" where
  "pb_get_circuitadmin b = pb_admin b"

section \<open>Transitions\<close>

definition pb_emit_circuit_event ::
    "u64 \<Rightarrow> symbol \<Rightarrow> u32 \<Rightarrow> program_breaker \<Rightarrow> program_breaker" where
  "pb_emit_circuit_event now kind v b =
     b\<lparr>pb_events := pb_events b @ [CircuitEvent kind v now]\<rparr>"

definition pb_open_circuit :: "u64 \<Rightarrow> program_breaker \<Rightarrow> program_breaker" where
  "pb_open_circuit now b =
     (let b1 = b\<lparr>pb_state := Some Open, pb_opened_at := Some now, pb_success_count := Some 0\<rparr>
      in pb_emit_circuit_event now ''cb_open'' (pb_get_failure_count b1) b1)"

definition pb_half_open_circuit :: "u64 \<Rightarrow> program_breaker \<Rightarrow> program_breaker" where
  "pb_half_open_circuit now b =
     (let b1 = b\<lparr>pb_state := Some HalfOpen, pb_success_count := Some 0\<rparr>
      in pb_emit_circuit_event now ''cb_half'' (pb_get_failure_count b1) b1)"

definition pb_close_circuit :: "u64 \<Rightarrow> program_breaker \<Rightarrow> program_breaker" where
  "pb_close_circuit now b =
     pb_emit_circuit_event now ''cb_close'' 0
       (b\<lparr>pb_state := Some Closed, pb_failure_count := Some 0, pb_success_count := Some 0,
          pb_opened_at := Some 0\<rparr>)"

definition pb_check_and_allow ::
    "u64 \<Rightarrow> program_breaker \<Rightarrow> (u32 + unit) \<times> program_breaker" where
  "pb_check_and_allow now b =
     (case pb_get_state b of
        Open \<Rightarrow> (Inl ERR_CIRCUIT_OPEN,
                 pb_emit_circuit_event now ''cb_reject'' (pb_get_failure_count b) b)
      | Closed \<Rightarrow> (Inr (), b)
      | HalfOpen \<Rightarrow> (Inr (), b))"

definition pb_record_success ::
    "u64 \<Rightarrow> program_breaker \<Rightarrow> ('e, program_breaker) res" where
  "pb_record_success now b =
     (case pb_get_state b of
        Closed \<Rightarrow> Inr (b\<lparr>pb_failure_count := Some 0, pb_success_count := Some 0\<rparr>)
      | HalfOpen \<Rightarrow>
          bnd (add_u32 (pb_get_success_count b) 1) (\<lambda>successes.
            let b1 = b\<lparr>pb_success_count := Some successes\<rparr>
            in if success_threshold (pb_get_config b) \<le> successes
               then Inr (pb_close_circuit now b1) else Inr b1)
      | Open \<Rightarrow> Inr b)"

definition pb_record_failure ::
    "u64 \<Rightarrow> string \<Rightarrow> symbol \<Rightarrow> u32 \<Rightarrow> program_breaker \<Rightarrow> ('e, program_breaker) res" where
  "pb_record_failure now program_id op code b =
     (let config = pb_get_config b in
      bnd (add_u32 (pb_get_failure_count b) 1) (\<lambda>failures.
        let b1 = b\<lparr>pb_failure_count := Some failures, pb_last_failure_timestamp := Some now\<rparr>;
            entry = \<lparr>pee_operation = op, pee_program_id = program_id, pee_error_code = code,
                     pee_timestamp = now, pee_failure_count_at_time = failures\<rparr>;
            log = trim_log (max_error_log config) (pb_get_error_log b1 @ [entry]);
            b2 = pb_emit_circuit_event now ''cb_fail'' failures (b1\<lparr>pb_error_log := Some log\<rparr>)
        in if failure_threshold config \<le> failures then Inr (pb_open_circuit now b2)
           else Inr b2))"

definition pb_reset_circuit_breaker ::
    "'w env \<Rightarrow> addr list \<Rightarrow> addr \<Rightarrow> program_breaker \<Rightarrow> ('e, program_breaker) res" where
  "pb_reset_circuit_breaker env earlier admin b =
     (if pb_admin b = Some admin then
        bnd (require_auth_again env earlier admin) (\<lambda>_.
          case pb_get_state b of
            Open \<Rightarrow> Inr (pb_half_open_circuit (timestamp env) b)
          | HalfOpen \<Rightarrow> Inr (pb_close_circuit (timestamp env) b)
          | Closed \<Rightarrow> Inr (pb_close_circuit (timestamp env) b))
      else Inl (Panic Not_circuit_admin))"

definition pb_set_circuitadmin ::
    "'w env \<Rightarrow> addr \<Rightarrow> addr option \<Rightarrow> program_breaker \<Rightarrow> ('e, program_breaker) res" where
  "pb_set_circuitadmin env newadmin caller b =
     (case pb_admin b of
        None \<Rightarrow> Inr (b\<lparr>pb_admin := Some newadmin\<rparr>)
      | Some current \<Rightarrow>
          if caller = Some current then
            bnd (require_auth env current) (\<lambda>_. Inr (b\<lparr>pb_admin := Some newadmin\<rparr>))
          else Inl (Panic Not_circuit_admin))"

section \<open>Retry\<close>

text \<open>The loop over the attempts that are left, with the last error as its state.\<close>

primrec pb_retry_loop ::
    "u32 \<Rightarrow> u64 \<Rightarrow> string \<Rightarrow> symbol \<Rightarrow> ('s \<Rightarrow> (u32 + unit) \<times> 's) \<Rightarrow> u32 \<Rightarrow> u32 \<Rightarrow> 's
      \<Rightarrow> program_breaker \<Rightarrow> ('e, retry_result \<times> 's \<times> program_breaker) res" where
  "pb_retry_loop 0 now program_id opn op n last_error s b =
     Inr (\<lparr>succeeded = False, attempts = n, final_error = last_error\<rparr>, s, b)"
| "pb_retry_loop (Suc left) now program_id opn op n last_error s b =
     (case pb_check_and_allow now b of
        (Inl e, b1) \<Rightarrow> Inr (\<lparr>succeeded = False, attempts = n, final_error = e\<rparr>, s, b1)
      | (Inr _, b1) \<Rightarrow>
          (case op s of
             (Inr _, s1) \<Rightarrow>
               bnd (pb_record_success now b1) (\<lambda>b2.
                 Inr (\<lparr>succeeded = True, attempts = n + 1, final_error = ERR_NONE\<rparr>, s1, b2))
           | (Inl code, s1) \<Rightarrow>
               bnd (pb_record_failure now program_id opn code b1) (\<lambda>b2.
                 pb_retry_loop left now program_id opn op (n + 1) code s1 b2)))"

definition pb_execute_with_retry ::
    "u64 \<Rightarrow> u32 \<Rightarrow> string \<Rightarrow> symbol \<Rightarrow> ('s \<Rightarrow> (u32 + unit) \<times> 's) \<Rightarrow> 's \<Rightarrow> program_breaker
      \<Rightarrow> ('e, retry_result \<times> 's \<times> program_breaker) res" where
  "pb_execute_with_retry now max_attempts program_id opn op s b =
     pb_retry_loop max_attempts now program_id opn op 0 ERR_NONE s b"

section \<open>Refinement of the other breaker\<close>

text \<open>
  The abstraction forgets which program an error entry names: bounty 0 stands for every
  program. Each operation commutes with it.
\<close>

definition entry_abs :: "program_error_entry \<Rightarrow> error_entry" where
  "entry_abs e = \<lparr>operation = pee_operation e, ee_bounty_id = 0,
     ee_error_code = pee_error_code e, ee_timestamp = pee_timestamp e,
     failure_count_at_time = pee_failure_count_at_time e\<rparr>"

definition pb_abs :: "program_breaker \<Rightarrow> breaker" where
  "pb_abs b = \<lparr>cb_state = pb_state b, cb_failure_count = pb_failure_count b,
     cb_last_failure_timestamp = pb_last_failure_timestamp b, cb_opened_at = pb_opened_at b,
     cb_success_count = pb_success_count b, cb_admin = pb_admin b, cb_config = pb_config b,
     cb_error_log = map_option (map entry_abs) (pb_error_log b), cb_events = pb_events b\<rparr>"

lemma pb_abs_read [simp]:
  "get_state (pb_abs b) = pb_get_state b"
  "get_config (pb_abs b) = pb_get_config b"
  "get_failure_count (pb_abs b) = pb_get_failure_count b"
  "get_success_count (pb_abs b) = pb_get_success_count b"
  "get_status (pb_abs b) = pb_get_status b"
  "get_error_log (pb_abs b) = map entry_abs (pb_get_error_log b)"
  "get_circuit_admin (pb_abs b) = pb_get_circuitadmin b"
  "cb_admin (pb_abs b) = pb_admin b"
  by (simp_all add: pb_abs_def get_state_def pb_get_state_def get_config_def pb_get_config_def
      default_config_def pb_default_config_def get_failure_count_def pb_get_failure_count_def
      get_success_count_def pb_get_success_count_def get_status_def pb_get_status_def
      get_error_log_def pb_get_error_log_def get_circuit_admin_def pb_get_circuitadmin_def
      split: option.split)

lemma pb_abs_upd:
  "pb_abs (b\<lparr>pb_state := x1\<rparr>) = (pb_abs b)\<lparr>cb_state := x1\<rparr>"
  "pb_abs (b\<lparr>pb_failure_count := x2\<rparr>) = (pb_abs b)\<lparr>cb_failure_count := x2\<rparr>"
  "pb_abs (b\<lparr>pb_last_failure_timestamp := x3\<rparr>) = (pb_abs b)\<lparr>cb_last_failure_timestamp := x3\<rparr>"
  "pb_abs (b\<lparr>pb_opened_at := x4\<rparr>) = (pb_abs b)\<lparr>cb_opened_at := x4\<rparr>"
  "pb_abs (b\<lparr>pb_success_count := x5\<rparr>) = (pb_abs b)\<lparr>cb_success_count := x5\<rparr>"
  "pb_abs (b\<lparr>pb_admin := x6\<rparr>) = (pb_abs b)\<lparr>cb_admin := x6\<rparr>"
  "pb_abs (b\<lparr>pb_config := x7\<rparr>) = (pb_abs b)\<lparr>cb_config := x7\<rparr>"
  "pb_abs (b\<lparr>pb_error_log := Some x8\<rparr>) = (pb_abs b)\<lparr>cb_error_log := Some (map entry_abs x8)\<rparr>"
  "pb_abs (b\<lparr>pb_events := x9\<rparr>) = (pb_abs b)\<lparr>cb_events := x9\<rparr>"
  by (simp_all add: pb_abs_def)

lemma trim_log_map: "trim_log m (map f l) = map f (trim_log m l)"
  by (simp add: trim_log_drop drop_map)

lemma pb_abs_transitions:
  "pb_abs (pb_emit_circuit_event now kind v b) = emit_circuit_event now kind v (pb_abs b)"
  "pb_abs (pb_open_circuit now b) = open_circuit now (pb_abs b)"
  "pb_abs (pb_half_open_circuit now b) = half_open_circuit now (pb_abs b)"
  "pb_abs (pb_close_circuit now b) = close_circuit now (pb_abs b)"
  by (simp_all add: pb_emit_circuit_event_def pb_open_circuit_def pb_half_open_circuit_def
      pb_close_circuit_def circuit_defs pb_get_failure_count_def pb_abs_def)

lemma pb_check_and_allow_abs:
  "check_and_allow now (pb_abs b) = map_prod id pb_abs (pb_check_and_allow now b)"
  by (simp add: check_and_allow_def pb_check_and_allow_def pb_abs_transitions
      split: circuit_state.split)

lemma pb_record_success_abs:
  "pb_record_success now b = Inr b' \<Longrightarrow> record_success now (pb_abs b) = Inr (pb_abs b')"
  by (auto simp: pb_record_success_def record_success_def pb_abs_upd pb_abs_transitions res_simps
      Let_def checked_add_u32_def split: circuit_state.splits if_splits)

lemma pb_record_failure_abs:
  "pb_record_failure now pid opn code b = Inr b' \<Longrightarrow>
   record_failure now 0 opn code (pb_abs b) = Inr (pb_abs b')"
  by (auto simp: pb_record_failure_def record_failure_def pb_abs_upd pb_abs_transitions res_simps
      Let_def checked_add_u32_def trim_log_map [symmetric] entry_abs_def pb_get_error_log_def
      split: if_splits option.splits)

lemma pb_reset_abs:
  "pb_reset_circuit_breaker env [] a b = Inr b' \<Longrightarrow>
   reset_circuit_breaker env a (pb_abs b) = Inr (pb_abs b')"
  by (auto simp: pb_reset_circuit_breaker_def reset_circuit_breaker_def pb_abs_transitions
      res_simps split: circuit_state.splits)

section \<open>The interface again\<close>

definition pb_fail_with ::
    "u64 \<times> string \<times> symbol \<times> u32 \<Rightarrow> program_breaker \<Rightarrow> program_breaker pres" where
  "pb_fail_with = (\<lambda>(now, pid, opn, code). pb_record_failure now pid opn code)"

definition pb_gate_open :: "program_breaker \<Rightarrow> bool" where
  "pb_gate_open b \<longleftrightarrow> pb_get_state b \<noteq> Open"

abbreviation pb_threshold :: "program_breaker \<Rightarrow> nat" where
  "pb_threshold b \<equiv> failure_threshold (pb_get_config b)"

interpretation program_fc:
  failure_counter pb_fail_with pb_gate_open pb_get_failure_count pb_threshold
proof unfold_locales
  fix b b' :: program_breaker and i :: "u64 \<times> string \<times> symbol \<times> u32"
  obtain now pid opn code where i: "i = (now, pid, opn, code)" by (cases i)
  show "\<exists>b'. pb_fail_with i b = Inr b'" if "pb_get_failure_count b < u32_max"
    using that by (simp add: i pb_fail_with_def pb_record_failure_def add_u32_def
        checked_add_u32_def Let_def)
  assume "pb_fail_with i b = Inr b'"
  then have "record_failure now 0 opn code (pb_abs b) = Inr (pb_abs b')"
    using pb_record_failure_abs by (simp add: i pb_fail_with_def)
  note frame = record_failure_frame [OF this]
  show "pb_get_failure_count b' = pb_get_failure_count b + 1" using frame(1) by simp
  have "get_config (pb_abs b') = get_config (pb_abs b)"
    using frame(2) by (simp only: get_config_def)
  then show "pb_threshold b' = pb_threshold b" by simp
  show "pb_gate_open b' \<longleftrightarrow> pb_gate_open b \<and> pb_get_failure_count b' < pb_threshold b"
    using frame(1,4) by (auto simp: pb_gate_open_def)
qed

section \<open>Properties\<close>

text \<open>What a protected operation reports to its breaker.\<close>

datatype outcome = Succeeded u64 | Failed u64 string symbol u32

fun report :: "outcome \<Rightarrow> breaker \<Rightarrow> breaker bres" where
  "report (Succeeded now) b = record_success now b"
| "report (Failed now _ opn code) b = record_failure now 0 opn code b"

fun pb_report :: "outcome \<Rightarrow> program_breaker \<Rightarrow> program_breaker pres" where
  "pb_report (Succeeded now) b = pb_record_success now b"
| "pb_report (Failed now pid opn code) b = pb_record_failure now pid opn code b"

lemma pb_report_abs: "pb_report x b = Inr b' \<Longrightarrow> report x (pb_abs b) = Inr (pb_abs b')"
  by (cases x) (simp_all add: pb_record_success_abs pb_record_failure_abs)

text \<open>
  C36: The two contracts carry the same breaker. Whatever outcomes are reported to a breaker of
  the program escrow, the breaker of the bounty escrow that starts in the corresponding state
  goes the same way: it shows the same status, admits and refuses the same calls, and logs
  the same errors but for the name of the program.
\<close>

theorem breakers_agree:
  assumes "fold_res pb_report outcomes b = Inr b'"
  shows "fold_res report outcomes (pb_abs b) = Inr (pb_abs b') \<and>
    get_status (pb_abs b') = pb_get_status b' \<and>
    fst (check_and_allow now (pb_abs b')) = fst (pb_check_and_allow now b') \<and>
    map ee_error_code (get_error_log (pb_abs b')) = map pee_error_code (pb_get_error_log b')"
proof -
  have "fold_res report outcomes (pb_abs b) = Inr (pb_abs b')"
    using assms
    by (induction outcomes arbitrary: b) (auto simp: bnd_Inr dest: pb_report_abs)
  moreover have "fst (check_and_allow now (pb_abs b')) = fst (pb_check_and_allow now b')"
    by (cases "pb_check_and_allow now b'") (simp add: pb_check_and_allow_abs)
  ultimately show ?thesis by (simp add: entry_abs_def comp_def)
qed

lemma breakers_agree_witness:
  "\<exists>b'. fold_res pb_report [Failed 5 ''hack'' ''sngl_pay'' 1003, Succeeded 6, Failed 7 ''hack'' ''x'' 9]
       empty_program_breaker = Inr b' \<and> pb_get_failure_count b' = 1 \<and>
     fst (check_and_allow 8 (pb_abs b')) = Inr ()"
proof -
  let ?l = "[Failed 5 ''hack'' ''sngl_pay'' 1003, Succeeded 6, Failed 7 ''hack'' ''x'' 9]"
  obtain b' where b': "fold_res pb_report ?l empty_program_breaker = Inr b'"
    and "pb_get_failure_count b' = 1" and "fst (pb_check_and_allow 8 b') = Inr ()"
    by (simp add: pb_record_failure_def pb_record_success_def empty_program_breaker_def
        pb_get_failure_count_def pb_get_config_def pb_default_config_def add_u32_def arith_defs
        pb_emit_circuit_event_def pb_get_state_def pb_check_and_allow_def pb_get_error_log_def
        Let_def)
  with breakers_agree [OF b', of 8] show ?thesis by auto
qed

text \<open>
  Consecutive failures trip this breaker as they trip the other: exactly when the streak
  reaches the threshold.
\<close>

theorem program_failures_trip:
  assumes "fold_res pb_fail_with failures b = Inr b'" and "failures \<noteq> []"
    and "pb_get_state b \<noteq> Open"
  shows "pb_get_state b' = Open \<longleftrightarrow> pb_threshold b \<le> pb_get_failure_count b + length failures"
  using program_fc.fails_trip [OF assms(1,2)] assms(3) by (auto simp: pb_gate_open_def)

text \<open>The retry helper runs at most the given number of attempts and reports how many.\<close>

lemma pb_retry_loop_result:
  "(pb_retry_loop left now pid opn op n err s b :: ('e, _) res) = Inr (r, s', b') \<Longrightarrow>
   \<exists>k. attempts r = n + k \<and> k \<le> left \<and> s' = ((\<lambda>s. snd (op s)) ^^ k) s \<and>
     (succeeded r \<longrightarrow> final_error r = ERR_NONE \<and> 0 < k)"
proof (induction left arbitrary: n err s b)
  case (Suc left)
  obtain gate b1 where gate: "pb_check_and_allow now b = (gate, b1)" by fastforce
  obtain res s1 where op: "op s = (res, s1)" by fastforce
  show ?case
  proof (cases gate)
    case (Inl e)
    then show ?thesis using Suc.prems gate by (intro exI [of _ 0]) auto
  next
    case (Inr u)
    show ?thesis
    proof (cases res)
      case (Inr v)
      then show ?thesis
        using Suc.prems gate op \<open>gate = Inr u\<close> by (intro exI [of _ 1]) (auto simp: bnd_Inr)
    next
      case (Inl code)
      then obtain b2 where
          "(pb_retry_loop left now pid opn op (n + 1) code s1 b2 :: ('e, _) res) = Inr (r, s', b')"
        using Suc.prems gate op \<open>gate = Inr u\<close> by (auto simp: bnd_Inr)
      from Suc.IH [OF this] obtain k where k: "attempts r = n + 1 + k" "k \<le> left"
          "s' = ((\<lambda>s. snd (op s)) ^^ k) s1"
          "succeeded r \<longrightarrow> final_error r = ERR_NONE \<and> 0 < k" by blast
      have "s' = ((\<lambda>s. snd (op s)) ^^ Suc k) s"
        using k(3) op by (simp add: funpow_Suc_right del: funpow.simps)
      then show ?thesis using k by (intro exI [of _ "Suc k"]) auto
    qed
  qed
qed auto

end
