(* ===== verification/ProgramModules.thy ===== *)
theory ProgramModules
  imports AntiAbuse ProgramTypes
begin

text \<open>
  Three modules of the program escrow: the rate limiter (module \<open>anti_abuse\<close> of lib.rs, with
  the limits as arguments), the link to the governance contract (governance_integration.rs)
  and the monitoring with its rolling window (monitoring.rs).
\<close>

section \<open>Rate limiter\<close>

text \<open>
  The limiter's whitelist is a map of its own only in name. A variant of a \<open>contracttype\<close>
  enum is stored under the vector of its name and its arguments, without the name of the
  enum, so the instance key \<open>RateLimitKey::Whitelist(a)\<close> is the instance key
  \<open>DataKey::Whitelist(a)\<close> of the payout whitelist. The functions take that map as argument;
  being listed for the limiter is having any entry in it.
\<close>

type_synonym rate_limit_states = "addr \<rightharpoonup> address_state"

definition pa_is_whitelisted :: "(addr \<rightharpoonup> bool) \<Rightarrow> addr \<Rightarrow> bool" where
  "pa_is_whitelisted whitelist a \<longleftrightarrow> whitelist a \<noteq> None"

definition pa_set_whitelist :: "(addr \<rightharpoonup> bool) \<Rightarrow> addr \<Rightarrow> bool \<Rightarrow> (addr \<rightharpoonup> bool)" where
  "pa_set_whitelist whitelist a whitelisted =
     (if whitelisted then whitelist(a \<mapsto> True) else whitelist(a := None))"

definition pa_check_rate_limit ::
    "u64 \<Rightarrow> addr \<Rightarrow> u64 \<Rightarrow> u32 \<Rightarrow> u64 \<Rightarrow> (addr \<rightharpoonup> bool) \<Rightarrow> rate_limit_states
      \<Rightarrow> ('e, rate_limit_states) res" where
  "pa_check_rate_limit now a window max_ops cooldown whitelist states =
     (if pa_is_whitelisted whitelist a then Inr states
      else
        let state = (case states a of
              None \<Rightarrow> \<lparr>last_operation_timestamp = 0, window_start_timestamp = now,
                       operation_count = 0\<rparr>
            | Some x \<Rightarrow> x)
        in
          if 0 < last_operation_timestamp state \<and>
             now < sat_add_u64 (last_operation_timestamp state) cooldown
          then Inl (Panic In_cooldown)
          else
            bnd (if sat_add_u64 (window_start_timestamp state) window \<le> now
                 then Inr (state\<lparr>window_start_timestamp := now, operation_count := 1\<rparr>)
                 else if max_ops \<le> operation_count state
                 then Inl (Panic Rate_limit_exceeded)
                 else bnd (add_u32 (operation_count state) 1)
                        (\<lambda>n. Inr (state\<lparr>operation_count := n\<rparr>)))
              (\<lambda>state'. Inr (states(a \<mapsto> state'\<lparr>last_operation_timestamp := now\<rparr>))))"

text \<open>
  It is the limiter of the bounty escrow run with the given limits instead of the stored
  ones.
\<close>

lemma limiters_agree:
  "(pa_check_rate_limit now a window max_ops cooldown whitelist states :: _ bres) =
     bnd (check_rate_limit now a \<lparr>aa_config = Some \<lparr>window_size = window,
            max_operations = max_ops, cooldown_period = cooldown\<rparr>,
          aa_states = states, aa_whitelist = whitelist\<rparr>)
       (\<lambda>s. Inr (aa_states s))"
proof (cases "whitelist a = None")
  case True
  let ?st = "case states a of None \<Rightarrow> initial_address_state now | Some x \<Rightarrow> x"
  show ?thesis
    using True
    by (cases "states a")
      (simp_all add: pa_check_rate_limit_def check_rate_limit_def pa_is_whitelisted_def
        is_whitelisted_def aa_get_config_def initial_address_state_def add_u32_def bnd_assoc
        Let_def)
qed (simp add: pa_check_rate_limit_def check_rate_limit_def pa_is_whitelisted_def
    is_whitelisted_def)

section \<open>Governance link\<close>

text \<open>The stored link is the record of the other escrow; only \<open>get_ver\<close> is asked here.\<close>

definition pg_set_governance_contract :: "gov_link \<Rightarrow> addr \<Rightarrow> gov_link" where
  "pg_set_governance_contract g a = g\<lparr>gov_addr := Some a\<rparr>"

definition pg_get_governance_contract :: "gov_link \<Rightarrow> addr option" where
  "pg_get_governance_contract g = gov_addr g"

definition pg_set_min_governance_version :: "gov_link \<Rightarrow> u32 \<Rightarrow> gov_link" where
  "pg_set_min_governance_version g v = g\<lparr>min_ver := Some v\<rparr>"

definition pg_get_min_governance_version :: "gov_link \<Rightarrow> u32" where
  "pg_get_min_governance_version g = (case min_ver g of None \<Rightarrow> 0 | Some v \<Rightarrow> v)"

definition pg_check_governance_version :: "'w env \<Rightarrow> 'w \<Rightarrow> gov_link \<Rightarrow> ('e, bool) res" where
  "pg_check_governance_version env w g =
     (case pg_get_governance_contract g of
        None \<Rightarrow> Inr True
      | Some a \<Rightarrow>
          let min_version = pg_get_min_governance_version g
          in if 0 < min_version then
               bnd (ok_or (gv_get_ver env a w) (Panic Governance_trap))
                 (\<lambda>version. Inr (min_version \<le> version))
             else Inr True)"

definition pg_check_upgrade_approval ::
    "'w env \<Rightarrow> 'w \<Rightarrow> gov_link \<Rightarrow> bytes32 \<Rightarrow> ('e, bool) res" where
  "pg_check_upgrade_approval env w g wasm_hash =
     (case pg_get_governance_contract g of
        None \<Rightarrow> Inr False
      | Some a \<Rightarrow>
          bnd (pg_check_governance_version env w g) (\<lambda>ok.
            if \<not> ok then Inr False
            else ok_or (gv_is_upg_ok env a wasm_hash w) (Panic Governance_trap)))"

definition pg_check_proposal_vetoed ::
    "'w env \<Rightarrow> 'w \<Rightarrow> gov_link \<Rightarrow> u32 \<Rightarrow> ('e, bool) res" where
  "pg_check_proposal_vetoed env w g proposal_id =
     (case pg_get_governance_contract g of
        None \<Rightarrow> Inr False
      | Some a \<Rightarrow> ok_or (gv_is_vetoed env a proposal_id w) (Panic Governance_trap))"

definition pg_execute_governance_proposal ::
    "'w env \<Rightarrow> 'w \<Rightarrow> gov_link \<Rightarrow> u32 \<Rightarrow> ('e, bool \<times> 'w) res" where
  "pg_execute_governance_proposal env w g proposal_id =
     (case pg_get_governance_contract g of
        None \<Rightarrow> Inr (False, w)
      | Some a \<Rightarrow>
          bnd (pg_check_governance_version env w g) (\<lambda>ok.
            if \<not> ok then Inr (False, w)
            else bnd (pg_check_proposal_vetoed env w g proposal_id) (\<lambda>vetoed.
              if vetoed then Inr (False, w)
              else Inr (gv_execute_proposal env a proposal_id w))))"

section \<open>Monitoring\<close>

text \<open>
  The lifetime counters are those of the shared module \<open>Monitoring\<close>; this file adds a window
  of operations and errors, and the threshold of the large-payout alert.
\<close>

record program_monitor =
  pm_base :: monitor
  pm_win_start :: "u64 option"
  pm_win_ops :: "u64 option"
  pm_win_errs :: "u64 option"
  pm_threshold :: "u32 option"

definition empty_program_monitor :: program_monitor where
  "empty_program_monitor = \<lparr>pm_base = empty_monitor, pm_win_start = None, pm_win_ops = None,
     pm_win_errs = None, pm_threshold = None\<rparr>"

definition WINDOW_DURATION :: u64 where "WINDOW_DURATION = 3600"
definition ERROR_RATE_THRESHOLD_BPS :: u32 where "ERROR_RATE_THRESHOLD_BPS = 5000"
definition DEFAULT_LARGE_PAYOUT_THRESHOLD_BPS :: u32 where
  "DEFAULT_LARGE_PAYOUT_THRESHOLD_BPS = 1000"
definition LARGE_PAYOUT_THRESHOLD_DENOMINATOR :: i128 where
  "LARGE_PAYOUT_THRESHOLD_DENOMINATOR = 10000"

definition pm_track_operation ::
    "u64 \<Rightarrow> symbol \<Rightarrow> addr \<Rightarrow> bool \<Rightarrow> program_monitor
      \<Rightarrow> ('e, metric_event \<times> program_monitor) res" where
  "pm_track_operation now opn caller success m =
     bnd (track_operation now opn caller success (pm_base m)) (\<lambda>(ev, base).
       let m1 = m\<lparr>pm_base := base\<rparr>;
           start = (case pm_win_start m1 of None \<Rightarrow> now | Some t \<Rightarrow> t)
       in if pm_win_start m1 = None \<or> WINDOW_DURATION \<le> now - start
          then Inr (ev, m1\<lparr>pm_win_start := Some now, pm_win_ops := Some 1,
                           pm_win_errs := Some (if success then 0 else 1)\<rparr>)
          else bnd (add_u64 (or_zero (pm_win_ops m1)) 1) (\<lambda>ops.
            let m2 = m1\<lparr>pm_win_ops := Some ops\<rparr>
            in if \<not> success
               then bnd (add_u64 (or_zero (pm_win_errs m2)) 1)
                      (\<lambda>errs. Inr (ev, m2\<lparr>pm_win_errs := Some errs\<rparr>))
               else Inr (ev, m2)))"

definition pm_emit_performance ::
    "u64 \<Rightarrow> symbol \<Rightarrow> u64 \<Rightarrow> program_monitor \<Rightarrow> ('e, metric_event \<times> program_monitor) res" where
  "pm_emit_performance now fn duration m =
     bnd (emit_performance now fn duration (pm_base m)) (\<lambda>(ev, base).
       Inr (ev, m\<lparr>pm_base := base\<rparr>))"

definition pm_health_check :: "u64 \<Rightarrow> program_monitor \<Rightarrow> health_status" where
  "pm_health_check now m =
     (let ops = or_zero (op_count (pm_base m));
          healthy =
            (case pm_win_start m of
               None \<Rightarrow> True
             | Some start \<Rightarrow>
                 if WINDOW_DURATION \<le> now - start then True
                 else let w_ops = or_zero (pm_win_ops m); w_errs = or_zero (pm_win_errs m)
                      in if 0 < w_ops
                         then w_errs * 10000 div w_ops < ERROR_RATE_THRESHOLD_BPS else True)
      in \<lparr>is_healthy = healthy, last_operation = now, total_operations = ops,
          contract_version = ''1.0.0''\<rparr>)"

definition pm_get_analytics :: "program_monitor \<Rightarrow> monitor_analytics" where
  "pm_get_analytics m = get_monitor_analytics (pm_base m)"

definition pm_get_state_snapshot :: "u64 \<Rightarrow> program_monitor \<Rightarrow> state_snapshot" where
  "pm_get_state_snapshot now m = get_state_snapshot now (pm_base m)"

definition pm_get_performance_stats :: "symbol \<Rightarrow> program_monitor \<Rightarrow> performance_stats" where
  "pm_get_performance_stats fn m = get_performance_stats fn (pm_base m)"

definition set_large_payout_threshold_bps :: "program_monitor \<Rightarrow> u32 \<Rightarrow> program_monitor" where
  "set_large_payout_threshold_bps m bps = m\<lparr>pm_threshold := Some bps\<rparr>"

definition get_large_payout_threshold_bps :: "program_monitor \<Rightarrow> u32" where
  "get_large_payout_threshold_bps m =
     (case pm_threshold m of None \<Rightarrow> DEFAULT_LARGE_PAYOUT_THRESHOLD_BPS | Some b \<Rightarrow> b)"

definition get_large_payout_threshold_amount ::
    "program_monitor \<Rightarrow> i128 \<Rightarrow> ('e, i128) res" where
  "get_large_payout_threshold_amount m total_funds =
     (let threshold_bps = int (get_large_payout_threshold_bps m) in
      bnd (mul_i128 total_funds threshold_bps) (\<lambda>x.
        Inr (x sdiv LARGE_PAYOUT_THRESHOLD_DENOMINATOR)))"

end
