(* ===== verification/ProgramState.thy ===== *)
theory ProgramState
  imports ProgramBreaker ProgramModules
begin

text \<open>
  The whole state of the program escrow contract and the helpers its entrypoints share: the
  pause, governance and whitelist checks, the reentrancy guard, disputes, and the events and
  counters written at the end of an operation.
\<close>

section \<open>Storage\<close>

text \<open>
  One field per storage key. \<open>pr_whitelist\<close> is the cell that \<open>DataKey::Whitelist\<close> and
  \<open>RateLimitKey::Whitelist\<close> share. The guard is a flag that reads as false when absent.
\<close>

record 'w program =
  pr_data :: "program_data option"
  pr_schedules :: "release_schedule list option"
  pr_history :: "release_history list option"
  pr_next_schedule_id :: "u64 option"
  pr_fee_config :: "program_fee_config option"
  pr_cap :: "fund_cap_config option"
  pr_admin :: "addr option"
  pr_pending_admin :: "addr option"
  pr_pause_flags :: "program_pause_flags option"
  pr_rate_limit :: "rate_limit_config option"
  pr_disputes :: "dispute_scope \<rightharpoonup> dispute_record"
  pr_whitelist :: "addr \<rightharpoonup> bool"
  pr_whitelist_enforced :: "bool option"
  pr_rates :: rate_limit_states
  pr_breaker :: program_breaker
  pr_guard :: bool
  pr_gov :: gov_link
  pr_monitor :: program_monitor
  pr_events :: "program_event list"
  pr_wasm :: "bytes32 option"
  pr_world :: 'w

definition initial_program :: "'w \<Rightarrow> 'w program" where
  "initial_program w =
     \<lparr>pr_data = None, pr_schedules = None, pr_history = None, pr_next_schedule_id = None,
      pr_fee_config = None, pr_cap = None, pr_admin = None, pr_pending_admin = None,
      pr_pause_flags = None, pr_rate_limit = None, pr_disputes = Map.empty,
      pr_whitelist = Map.empty, pr_whitelist_enforced = None, pr_rates = Map.empty,
      pr_breaker = empty_program_breaker, pr_guard = False, pr_gov = empty_gov_link,
      pr_monitor = empty_program_monitor, pr_events = [], pr_wasm = None, pr_world = w\<rparr>"

definition pr_emit :: "program_event \<Rightarrow> 'w program \<Rightarrow> 'w program" where
  "pr_emit e s = s\<lparr>pr_events := pr_events s @ [e]\<rparr>"

text \<open>
  Extending the time to live of a persistent entry has no effect on values, but the host
  traps when there is no such entry. That matters where a missing entry was read with a
  default just before.
\<close>

definition bump_persistent_symbol_ttl :: "'a option \<Rightarrow> ('e, unit) res" where
  "bump_persistent_symbol_ttl entry =
     (case entry of None \<Rightarrow> Inl (Panic (Message ''MissingValue'')) | Some _ \<Rightarrow> Inr ())"

lemma bump_Inr [res_simps]: "bump_persistent_symbol_ttl x = Inr u \<longleftrightarrow> x \<noteq> None"
  by (simp add: bump_persistent_symbol_ttl_def split: option.split)

lemma bump_Some [simp]: "bump_persistent_symbol_ttl (Some v) = Inr ()"
  by (simp add: bump_persistent_symbol_ttl_def)

section \<open>Shared checks\<close>

definition no_program_pause :: program_pause_flags where
  "no_program_pause =
     \<lparr>pf_lock_paused = False, pf_release_paused = False, pf_refund_paused = False\<rparr>"

definition pr_get_pause_flags :: "'w program \<Rightarrow> program_pause_flags" where
  "pr_get_pause_flags s = (case pr_pause_flags s of None \<Rightarrow> no_program_pause | Some f \<Rightarrow> f)"

definition pr_check_paused :: "'w program \<Rightarrow> symbol \<Rightarrow> bool" where
  "pr_check_paused s op =
     (let flags = pr_get_pause_flags s in
      if op = ''lock'' then pf_lock_paused flags
      else if op = ''release'' then pf_release_paused flags
      else if op = ''refund'' then pf_refund_paused flags
      else False)"

definition requireadmin :: "'w program \<Rightarrow> addr pres" where
  "requireadmin s = ok_or (pr_admin s) (Panic (Message ''Admin not set''))"

definition pr_check_governance_requirements :: "'w env \<Rightarrow> 'w program \<Rightarrow> unit pres" where
  "pr_check_governance_requirements env s =
     bnd (pg_check_governance_version env (pr_world s) (pr_gov s)) (\<lambda>ok.
       if \<not> ok then Inl (Contract Pe_GovernanceVersionTooLow) else Inr ())"

text \<open>
  The payout entrypoints return no error: they panic with the debug text of the one that the
  governance check returns.
\<close>

definition governance_or_panic :: "'w env \<Rightarrow> 'w program \<Rightarrow> unit pres" where
  "governance_or_panic env s =
     (case pr_check_governance_requirements env s of
        Inr _ \<Rightarrow> Inr ()
      | Inl (Contract _) \<Rightarrow> panic_msg ''GovernanceVersionTooLow''
      | Inl (Panic p) \<Rightarrow> Inl (Panic p))"

definition is_dispute_open_for_key :: "'w program \<Rightarrow> dispute_scope \<Rightarrow> bool" where
  "is_dispute_open_for_key s key =
     (case pr_disputes s key of
        None \<Rightarrow> False
      | Some r \<Rightarrow> dr_status r = Dispute_Open)"

definition is_schedule_scope_disputed :: "'w program \<Rightarrow> u64 \<Rightarrow> addr \<Rightarrow> bool" where
  "is_schedule_scope_disputed s schedule_id recipient \<longleftrightarrow>
     is_dispute_open_for_key s (Schedule schedule_id) \<or>
     is_dispute_open_for_key s (Recipient recipient)"

text \<open>The whitelist check the payout and schedule functions repeat.\<close>

definition not_whitelisted :: "'w program \<Rightarrow> addr \<Rightarrow> bool" where
  "not_whitelisted s recipient \<longleftrightarrow>
     (case pr_whitelist_enforced s of None \<Rightarrow> False | Some e \<Rightarrow> e) \<and>
     \<not> (case pr_whitelist s recipient of None \<Rightarrow> False | Some w \<Rightarrow> w)"

section \<open>Reentrancy guard (reentrancy_guard.rs)\<close>

definition pr_check_not_entered :: "'w program \<Rightarrow> unit pres" where
  "pr_check_not_entered s =
     (if pr_guard s then Inl (Panic Reentrancy_detected) else Inr ())"

definition pr_set_entered :: "'w program \<Rightarrow> 'w program" where
  "pr_set_entered s = s\<lparr>pr_guard := True\<rparr>"

definition pr_clear_entered :: "'w program \<Rightarrow> 'w program" where
  "pr_clear_entered s = s\<lparr>pr_guard := False\<rparr>"

lemma pr_check_not_entered_Inr [res_simps]: "pr_check_not_entered s = Inr u \<longleftrightarrow> \<not> pr_guard s"
  by (simp add: pr_check_not_entered_def)

section \<open>Reporting\<close>

definition pr_track :: "'w env \<Rightarrow> symbol \<Rightarrow> addr \<Rightarrow> bool \<Rightarrow> 'w program \<Rightarrow> 'w program pres" where
  "pr_track env opn caller success s =
     bnd (pm_track_operation (timestamp env) opn caller success (pr_monitor s)) (\<lambda>(ev, m).
       Inr (pr_emit (Program_Metric ev) (s\<lparr>pr_monitor := m\<rparr>)))"

definition pr_perf :: "'w env \<Rightarrow> symbol \<Rightarrow> u64 \<Rightarrow> 'w program \<Rightarrow> 'w program pres" where
  "pr_perf env fn duration s =
     bnd (pm_emit_performance (timestamp env) fn duration (pr_monitor s)) (\<lambda>(ev, m).
       Inr (pr_emit (Program_Metric ev) (s\<lparr>pr_monitor := m\<rparr>)))"

text \<open>A failed operation is tracked and then panics, which rolls the tracking back too.\<close>

definition fail_tracked ::
    "'w env \<Rightarrow> symbol \<Rightarrow> addr \<Rightarrow> string \<Rightarrow> 'w program \<Rightarrow> ('a) pres" where
  "fail_tracked env opn caller msg s =
     bnd (pr_track env opn caller False s) (\<lambda>_. panic_msg msg)"

lemma fail_tracked_not_Inr [res_simps]: "fail_tracked env opn caller msg s \<noteq> Inr x"
  by (auto simp: fail_tracked_def bnd_Inr)

text \<open>The breaker's record of a failed payout, likewise followed by a panic.\<close>

definition fail_recorded ::
    "'w env \<Rightarrow> string \<Rightarrow> symbol \<Rightarrow> string \<Rightarrow> 'w program \<Rightarrow> 'a pres" where
  "fail_recorded env program_id opn msg s =
     bnd (pb_record_failure (timestamp env) program_id opn ERR_INSUFFICIENT_BALANCE
            (pr_breaker s))
       (\<lambda>_. panic_msg msg)"

lemma fail_recorded_not_Inr [res_simps]: "fail_recorded env pid opn msg s \<noteq> Inr x"
  by (auto simp: fail_recorded_def bnd_Inr)

definition breaker_allows :: "'w env \<Rightarrow> string \<Rightarrow> 'w program \<Rightarrow> unit pres" where
  "breaker_allows env msg s =
     (case fst (pb_check_and_allow (timestamp env) (pr_breaker s)) of
        Inl _ \<Rightarrow> panic_msg msg | Inr _ \<Rightarrow> Inr ())"

lemma breaker_allows_Inr [res_simps]:
  "breaker_allows env msg s = Inr u \<longleftrightarrow> pb_get_state (pr_breaker s) \<noteq> Open"
  by (auto simp: breaker_allows_def pb_check_and_allow_def split: circuit_state.split)

definition breaker_success :: "'w env \<Rightarrow> 'w program \<Rightarrow> 'w program pres" where
  "breaker_success env s =
     bnd (pb_record_success (timestamp env) (pr_breaker s)) (\<lambda>b. Inr (s\<lparr>pr_breaker := b\<rparr>))"

definition count_unreleased :: "release_schedule list \<Rightarrow> nat" where
  "count_unreleased l = length (filter (\<lambda>c. \<not> sc_released c) l)"

definition emit_aggregate_stats :: "program_data \<Rightarrow> 'w program \<Rightarrow> 'w program pres" where
  "emit_aggregate_stats d s =
     (let schedules = (case pr_schedules s of None \<Rightarrow> [] | Some l \<Rightarrow> l) in
      bnd (bump_persistent_symbol_ttl (pr_schedules s)) (\<lambda>_.
      bnd (sub_i128 (pd_total_funds d) (pd_remaining_balance d)) (\<lambda>paid.
        Inr (pr_emit (AggregateStatsEvent (pd_program_id d) (pd_total_funds d)
          (pd_remaining_balance d) paid (length (pd_payout_history d))
          (count_unreleased schedules)) s))))"

definition check_and_emit_large_payout ::
    "program_data \<Rightarrow> addr \<Rightarrow> i128 \<Rightarrow> 'w program \<Rightarrow> 'w program pres" where
  "check_and_emit_large_payout d recipient amt s =
     bnd (get_large_payout_threshold_amount (pr_monitor s) (pd_total_funds d)) (\<lambda>threshold.
       Inr (if threshold \<le> amt
            then pr_emit (LargePayoutEvent (pd_program_id d) recipient amt threshold) s
            else s))"

section \<open>Tokens\<close>

definition pr_transfer ::
    "'w env \<Rightarrow> addr \<Rightarrow> addr \<Rightarrow> addr \<Rightarrow> i128 \<Rightarrow> 'w program \<Rightarrow> 'w program pres" where
  "pr_transfer env t from to amt s =
     bnd (ok_or (tk_transfer env t from to amt (pr_world s)) (Panic Token_trap))
       (\<lambda>w. Inr (s\<lparr>pr_world := w\<rparr>))"

lemma pr_transfer_Inr [res_simps]:
  "pr_transfer env t f r a s = Inr s' \<longleftrightarrow>
     (\<exists>w. tk_transfer env t f r a (pr_world s) = Some w \<and> s' = s\<lparr>pr_world := w\<rparr>)"
  by (auto simp: pr_transfer_def res_simps)

text \<open>The program data, or the panic of every function that needs it.\<close>

definition load_program :: "'w program \<Rightarrow> program_data pres" where
  "load_program s = ok_or (pr_data s) (Panic (Message ''Program not initialized''))"

lemma load_program_Inr [res_simps]: "load_program s = Inr d \<longleftrightarrow> pr_data s = Some d"
  by (auto simp: load_program_def res_simps)

end
