(* ===== verification/ProgramAdmin.thy ===== *)
theory ProgramAdmin
  imports ProgramState
begin

text \<open>
  The administrative entrypoints of the program escrow: bootstrap and rotation of the admin,
  pause flags, upgrade, disputes, the circuit breaker, limits, whitelists and the governance
  link, each with its checks in the order of the code.
\<close>

section \<open>Admin\<close>

definition initialize_contract :: "'w env \<Rightarrow> 'w program \<Rightarrow> addr \<Rightarrow> 'w program pres" where
  "initialize_contract env s admin =
     (if pr_admin s \<noteq> None then panic_msg ''Already initialized''
      else bnd (require_auth env admin) (\<lambda>_. Inr (s\<lparr>pr_admin := Some admin\<rparr>)))"

definition setadmin :: "'w env \<Rightarrow> 'w program \<Rightarrow> addr \<Rightarrow> 'w program pres" where
  "setadmin env s admin =
     (if pr_admin s \<noteq> None
      then panic_msg ''admin already set; use propose_admin/accept_admin to rotate''
      else bnd (require_auth env admin) (\<lambda>_. Inr (s\<lparr>pr_admin := Some admin\<rparr>)))"

definition propose_admin :: "'w env \<Rightarrow> 'w program \<Rightarrow> addr \<Rightarrow> 'w program pres" where
  "propose_admin env s new_admin =
     bnd (ok_or (pr_admin s) (Panic (Message ''admin not initialized''))) (\<lambda>current.
     bnd (require_auth env current) (\<lambda>_.
       Inr (s\<lparr>pr_pending_admin := Some new_admin\<rparr>)))"

definition accept_admin :: "'w env \<Rightarrow> 'w program \<Rightarrow> addr \<Rightarrow> 'w program pres" where
  "accept_admin env s new_admin =
     bnd (ok_or (pr_pending_admin s) (Panic (Message ''no pending admin proposal''))) (\<lambda>pending.
       if new_admin \<noteq> pending then panic_msg ''caller is not the pending admin''
       else bnd (require_auth env new_admin) (\<lambda>_.
         Inr (s\<lparr>pr_admin := Some new_admin, pr_pending_admin := None\<rparr>)))"

definition getadmin :: "'w program \<Rightarrow> addr option" where
  "getadmin s = pr_admin s"

text \<open>Read the admin, or panic with \<open>msg\<close>, and ask for his authorisation.\<close>

definition admin_auth :: "'w env \<Rightarrow> string \<Rightarrow> 'w program \<Rightarrow> addr pres" where
  "admin_auth env msg s =
     bnd (ok_or (pr_admin s) (Panic (Message msg))) (\<lambda>admin.
     bnd (require_auth env admin) (\<lambda>_. Inr admin))"

lemma admin_auth_Inr [res_simps]:
  "admin_auth env msg s = Inr a \<longleftrightarrow> pr_admin s = Some a \<and> authorized env a"
  by (auto simp: admin_auth_def res_simps)

section \<open>Pause and upgrade\<close>

definition pause_one ::
    "symbol \<Rightarrow> bool option \<Rightarrow> addr \<Rightarrow> 'w program \<Rightarrow> 'w program" where
  "pause_one opn flag admin s =
     (case flag of None \<Rightarrow> s | Some p \<Rightarrow> pr_emit (Program_PauseStateChanged opn p admin) s)"

definition pr_set_paused ::
    "'w env \<Rightarrow> 'w program \<Rightarrow> bool option \<Rightarrow> bool option \<Rightarrow> bool option \<Rightarrow> 'w program pres" where
  "pr_set_paused env s lock release refund =
     bnd (admin_auth env ''Not initialized'' s) (\<lambda>admin.
     bnd (pr_check_governance_requirements env s) (\<lambda>_.
       let flags = pr_get_pause_flags s;
           new = \<lparr>pf_lock_paused =
                    (case lock of None \<Rightarrow> pf_lock_paused flags | Some p \<Rightarrow> p),
                  pf_release_paused =
                    (case release of None \<Rightarrow> pf_release_paused flags | Some p \<Rightarrow> p),
                  pf_refund_paused =
                    (case refund of None \<Rightarrow> pf_refund_paused flags | Some p \<Rightarrow> p)\<rparr>
       in Inr ((pause_one ''refund'' refund admin (pause_one ''release'' release admin
              (pause_one ''lock'' lock admin s)))\<lparr>pr_pause_flags := Some new\<rparr>)))"

definition pr_upgrade :: "'w env \<Rightarrow> 'w program \<Rightarrow> bytes32 \<Rightarrow> 'w program pres" where
  "pr_upgrade env s new_wasm_hash =
     bnd (requireadmin s) (\<lambda>admin.
     bnd (require_auth env admin) (\<lambda>_.
     bnd (pg_check_upgrade_approval env (pr_world s) (pr_gov s) new_wasm_hash) (\<lambda>ok.
       if \<not> ok then Inl (Contract Pe_UpgradeNotApproved)
       else if \<not> wasm_uploaded env new_wasm_hash then Inl (Panic Wasm_missing)
       else Inr (pr_emit (Program_UpgradeExecuted new_wasm_hash admin)
              (s\<lparr>pr_wasm := Some new_wasm_hash\<rparr>)))))"

section \<open>Disputes\<close>

definition program_id_for_event :: "'w program \<Rightarrow> string pres" where
  "program_id_for_event s = bnd (load_program s) (\<lambda>d. Inr (pd_program_id d))"

definition open_dispute_at ::
    "'w env \<Rightarrow> dispute_scope \<Rightarrow> string \<Rightarrow> string \<Rightarrow> 'w program \<Rightarrow> 'w program pres" where
  "open_dispute_at env scope reason duplicate_message s =
     bnd (requireadmin s) (\<lambda>admin.
     bnd (require_auth env admin) (\<lambda>_.
       if is_dispute_open_for_key s scope then panic_msg duplicate_message
       else bnd (program_id_for_event s) (\<lambda>program_id.
         let now = timestamp env;
             record = \<lparr>dr_opened_by = admin, dr_opened_at = now, dr_reason = reason,
                       dr_status = Dispute_Open, dr_resolved_by = None, dr_resolved_at = None\<rparr>
         in Inr (pr_emit (DisputeOpenedEvent program_id scope admin reason now)
              (s\<lparr>pr_disputes := (pr_disputes s)(scope \<mapsto> record)\<rparr>)))))"

definition resolve_dispute_at ::
    "'w env \<Rightarrow> dispute_scope \<Rightarrow> string \<Rightarrow> 'w program \<Rightarrow> 'w program pres" where
  "resolve_dispute_at env scope missing_message s =
     bnd (requireadmin s) (\<lambda>admin.
     bnd (require_auth env admin) (\<lambda>_.
     bnd (ok_or (pr_disputes s scope) (Panic (Message missing_message))) (\<lambda>record.
       if dr_status record \<noteq> Dispute_Open then panic_msg ''No open dispute to resolve''
       else bnd (program_id_for_event s) (\<lambda>program_id.
         let now = timestamp env;
             record' = record\<lparr>dr_status := Dispute_Resolved, dr_resolved_by := Some admin,
                              dr_resolved_at := Some now\<rparr>
         in Inr (pr_emit (DisputeResolvedEvent program_id scope admin now)
              (s\<lparr>pr_disputes := (pr_disputes s)(scope \<mapsto> record')\<rparr>))))))"

definition cancel_dispute_at ::
    "'w env \<Rightarrow> dispute_scope \<Rightarrow> string \<Rightarrow> 'w program \<Rightarrow> 'w program pres" where
  "cancel_dispute_at env scope missing_message s =
     bnd (requireadmin s) (\<lambda>admin.
     bnd (require_auth env admin) (\<lambda>_.
     bnd (ok_or (pr_disputes s scope) (Panic (Message missing_message))) (\<lambda>record.
       if dr_status record \<noteq> Dispute_Open then panic_msg ''No open dispute to cancel''
       else bnd (program_id_for_event s) (\<lambda>program_id.
         let now = timestamp env;
             record' = record\<lparr>dr_status := Dispute_Cancelled, dr_resolved_by := Some admin,
                              dr_resolved_at := Some now\<rparr>
         in Inr (pr_emit (DisputeCancelledEvent program_id scope admin now)
              (s\<lparr>pr_disputes := (pr_disputes s)(scope \<mapsto> record')\<rparr>))))))"

definition load_program_release_schedules :: "'w program \<Rightarrow> release_schedule list pres" where
  "load_program_release_schedules s =
     (let schedules = (case pr_schedules s of None \<Rightarrow> [] | Some l \<Rightarrow> l) in
      bnd (bump_persistent_symbol_ttl (pr_schedules s)) (\<lambda>_. Inr schedules))"

lemma load_schedules_Inr [res_simps]:
  "load_program_release_schedules s = Inr l \<longleftrightarrow> pr_schedules s = Some l"
  by (cases "pr_schedules s") (auto simp: load_program_release_schedules_def res_simps)

definition get_program_release_schedule :: "'w program \<Rightarrow> u64 \<Rightarrow> release_schedule pres" where
  "get_program_release_schedule s schedule_id =
     bnd (load_program_release_schedules s) (\<lambda>schedules.
       ok_or (find (\<lambda>c. sc_schedule_id c = schedule_id) schedules)
         (Panic (Message ''Schedule not found'')))"

definition open_dispute :: "'w env \<Rightarrow> 'w program \<Rightarrow> string \<Rightarrow> 'w program pres" where
  "open_dispute env s reason = open_dispute_at env Global reason ''Dispute already open'' s"

definition open_recipient_dispute ::
    "'w env \<Rightarrow> 'w program \<Rightarrow> addr \<Rightarrow> string \<Rightarrow> 'w program pres" where
  "open_recipient_dispute env s recipient reason =
     open_dispute_at env (Recipient recipient) reason ''Recipient dispute already open'' s"

definition open_schedule_dispute ::
    "'w env \<Rightarrow> 'w program \<Rightarrow> u64 \<Rightarrow> string \<Rightarrow> 'w program pres" where
  "open_schedule_dispute env s schedule_id reason =
     bnd (get_program_release_schedule s schedule_id) (\<lambda>_.
       open_dispute_at env (Schedule schedule_id) reason ''Schedule dispute already open'' s)"

definition resolve_dispute :: "'w env \<Rightarrow> 'w program \<Rightarrow> 'w program pres" where
  "resolve_dispute env s = resolve_dispute_at env Global ''No dispute to resolve'' s"

definition resolve_recipient_dispute :: "'w env \<Rightarrow> 'w program \<Rightarrow> addr \<Rightarrow> 'w program pres" where
  "resolve_recipient_dispute env s recipient =
     resolve_dispute_at env (Recipient recipient) ''No recipient dispute to resolve'' s"

definition resolve_schedule_dispute :: "'w env \<Rightarrow> 'w program \<Rightarrow> u64 \<Rightarrow> 'w program pres" where
  "resolve_schedule_dispute env s schedule_id =
     resolve_dispute_at env (Schedule schedule_id) ''No schedule dispute to resolve'' s"

definition cancel_dispute :: "'w env \<Rightarrow> 'w program \<Rightarrow> 'w program pres" where
  "cancel_dispute env s = cancel_dispute_at env Global ''No dispute to cancel'' s"

definition cancel_recipient_dispute :: "'w env \<Rightarrow> 'w program \<Rightarrow> addr \<Rightarrow> 'w program pres" where
  "cancel_recipient_dispute env s recipient =
     cancel_dispute_at env (Recipient recipient) ''No recipient dispute to cancel'' s"

definition cancel_schedule_dispute :: "'w env \<Rightarrow> 'w program \<Rightarrow> u64 \<Rightarrow> 'w program pres" where
  "cancel_schedule_dispute env s schedule_id =
     cancel_dispute_at env (Schedule schedule_id) ''No schedule dispute to cancel'' s"

definition get_dispute :: "'w program \<Rightarrow> dispute_record option" where
  "get_dispute s = pr_disputes s Global"

definition get_recipient_dispute :: "'w program \<Rightarrow> addr \<Rightarrow> dispute_record option" where
  "get_recipient_dispute s recipient = pr_disputes s (Recipient recipient)"

definition get_schedule_dispute :: "'w program \<Rightarrow> u64 \<Rightarrow> dispute_record option" where
  "get_schedule_dispute s schedule_id = pr_disputes s (Schedule schedule_id)"

definition is_disputed :: "'w program \<Rightarrow> bool" where
  "is_disputed s = is_dispute_open_for_key s Global"

definition is_recipient_disputed :: "'w program \<Rightarrow> addr \<Rightarrow> bool" where
  "is_recipient_disputed s recipient = is_dispute_open_for_key s (Recipient recipient)"

definition is_schedule_disputed :: "'w program \<Rightarrow> u64 \<Rightarrow> bool" where
  "is_schedule_disputed s schedule_id = is_dispute_open_for_key s (Schedule schedule_id)"

end
