(* ===== verification/ProgramConfig.thy ===== *)
theory ProgramConfig
  imports ProgramAdmin
begin

text \<open>
  The remaining settings of the program escrow: circuit breaker controls, rate limits, fund
  caps, the two whitelists, the governance link and the alert threshold, with their views.
\<close>

section \<open>Circuit breaker controls\<close>

definition pr_set_circuitadmin ::
    "'w env \<Rightarrow> 'w program \<Rightarrow> addr \<Rightarrow> addr option \<Rightarrow> 'w program pres" where
  "pr_set_circuitadmin env s newadmin caller =
     bnd (if pb_get_circuitadmin (pr_breaker s) = None
          then bnd (admin_auth env ''Admin not set'' s) (\<lambda>_. Inr ())
          else Inr ()) (\<lambda>_.
     bnd (pb_set_circuitadmin env newadmin caller (pr_breaker s)) (\<lambda>b.
       Inr (s\<lparr>pr_breaker := b\<rparr>)))"

definition pr_get_circuitadmin :: "'w program \<Rightarrow> addr option" where
  "pr_get_circuitadmin s = pb_get_circuitadmin (pr_breaker s)"

text \<open>The caller authorises the call and must be the registered circuit admin.\<close>

definition circuit_admin_auth :: "'w env \<Rightarrow> addr \<Rightarrow> string \<Rightarrow> 'w program \<Rightarrow> addr pres" where
  "circuit_admin_auth env caller msg s =
     bnd (require_auth env caller) (\<lambda>_.
     bnd (ok_or (pb_get_circuitadmin (pr_breaker s))
            (Panic (Message ''Circuit admin not set''))) (\<lambda>admin.
       if caller \<noteq> admin then panic_msg msg else Inr admin))"

lemma circuit_admin_auth_Inr [res_simps]:
  "circuit_admin_auth env c msg s = Inr a \<longleftrightarrow>
     authorized env c \<and> pb_admin (pr_breaker s) = Some c \<and> a = c"
  by (auto simp: circuit_admin_auth_def res_simps pb_get_circuitadmin_def)

definition pr_reset_circuit_breaker :: "'w env \<Rightarrow> 'w program \<Rightarrow> addr \<Rightarrow> 'w program pres" where
  "pr_reset_circuit_breaker env s caller =
     bnd (circuit_admin_auth env caller ''Unauthorized: only circuit admin can reset'' s)
       (\<lambda>admin.
     bnd (pb_reset_circuit_breaker env [caller] admin (pr_breaker s)) (\<lambda>b.
       Inr (s\<lparr>pr_breaker := b\<rparr>)))"

definition configure_circuit_breaker ::
    "'w env \<Rightarrow> 'w program \<Rightarrow> addr \<Rightarrow> u32 \<Rightarrow> u32 \<Rightarrow> u32 \<Rightarrow> 'w program pres" where
  "configure_circuit_breaker env s caller failures successes log_size =
     (if failures = 0 then panic_msg ''failure_threshold must be greater than zero''
      else bnd (circuit_admin_auth env caller
              ''Unauthorized: only circuit admin can configure'' s) (\<lambda>_.
        Inr (s\<lparr>pr_breaker := pb_set_config (pr_breaker s)
               \<lparr>failure_threshold = failures, success_threshold = successes,
                max_error_log = log_size\<rparr>\<rparr>)))"

definition get_circuit_status :: "'w program \<Rightarrow> circuit_breaker_status" where
  "get_circuit_status s = pb_get_status (pr_breaker s)"

definition pr_get_circuit_error_log :: "'w program \<Rightarrow> program_error_entry list" where
  "pr_get_circuit_error_log s = pb_get_error_log (pr_breaker s)"

definition emergency_open_circuit :: "'w env \<Rightarrow> 'w program \<Rightarrow> addr \<Rightarrow> 'w program pres" where
  "emergency_open_circuit env s caller =
     bnd (circuit_admin_auth env caller
            ''Unauthorized: only circuit admin can open circuit'' s) (\<lambda>_.
       Inr (s\<lparr>pr_breaker := pb_open_circuit (timestamp env) (pr_breaker s)\<rparr>))"

section \<open>Rate limit and fund caps\<close>

definition update_rate_limit_config ::
    "'w env \<Rightarrow> 'w program \<Rightarrow> u64 \<Rightarrow> u32 \<Rightarrow> u64 \<Rightarrow> 'w program pres" where
  "update_rate_limit_config env s window max_ops cooldown =
     bnd (admin_auth env ''Admin not set'' s) (\<lambda>_.
     bnd (pr_check_governance_requirements env s) (\<lambda>_.
       Inr (s\<lparr>pr_rate_limit := Some \<lparr>rl_window_size = window, rl_max_operations = max_ops,
              rl_cooldown_period = cooldown\<rparr>\<rparr>)))"

definition get_rate_limit_config :: "'w program \<Rightarrow> rate_limit_config" where
  "get_rate_limit_config s =
     (case pr_rate_limit s of
        None \<Rightarrow> \<lparr>rl_window_size = 3600, rl_max_operations = 10, rl_cooldown_period = 60\<rparr>
      | Some c \<Rightarrow> c)"

definition not_positive :: "i128 option \<Rightarrow> bool" where
  "not_positive cap \<longleftrightarrow> (case cap of None \<Rightarrow> False | Some v \<Rightarrow> v \<le> 0)"

definition set_fund_cap_config ::
    "'w env \<Rightarrow> 'w program \<Rightarrow> i128 option \<Rightarrow> i128 option \<Rightarrow> 'w program pres" where
  "set_fund_cap_config env s total_cap single_cap =
     bnd (admin_auth env ''Admin not set'' s) (\<lambda>_.
       if not_positive total_cap then panic_msg ''max_total_funds must be positive''
       else if not_positive single_cap then panic_msg ''max_single_lock must be positive''
       else Inr (s\<lparr>pr_cap := Some \<lparr>max_total_funds = total_cap,
                 max_single_lock = single_cap\<rparr>\<rparr>))"

definition get_fund_cap_config :: "'w program \<Rightarrow> fund_cap_config" where
  "get_fund_cap_config s =
     (case pr_cap s of None \<Rightarrow> \<lparr>max_total_funds = None, max_single_lock = None\<rparr>
      | Some c \<Rightarrow> c)"

section \<open>Whitelists\<close>

text \<open>
  Both pairs of functions work on the one map: what the payout whitelist stores as a flag is
  for the rate limiter an entry that is there or not.
\<close>

definition pr_set_whitelist :: "'w env \<Rightarrow> 'w program \<Rightarrow> addr \<Rightarrow> bool \<Rightarrow> 'w program pres" where
  "pr_set_whitelist env s a whitelisted =
     bnd (admin_auth env ''Not initialized'' s) (\<lambda>_.
       Inr (pr_emit (WhitelistChangedEvent a whitelisted)
         (s\<lparr>pr_whitelist := (pr_whitelist s)(a \<mapsto> whitelisted)\<rparr>)))"

definition pr_is_whitelisted :: "'w program \<Rightarrow> addr \<Rightarrow> bool" where
  "pr_is_whitelisted s a = (case pr_whitelist s a of None \<Rightarrow> False | Some w \<Rightarrow> w)"

definition set_whitelist_enforced :: "'w env \<Rightarrow> 'w program \<Rightarrow> bool \<Rightarrow> 'w program pres" where
  "set_whitelist_enforced env s enabled =
     bnd (admin_auth env ''Not initialized'' s) (\<lambda>_.
       Inr (pr_emit (WhitelistEnforcementChangedEvent enabled)
         (s\<lparr>pr_whitelist_enforced := Some enabled\<rparr>)))"

definition is_whitelist_enforced :: "'w program \<Rightarrow> bool" where
  "is_whitelist_enforced s = (case pr_whitelist_enforced s of None \<Rightarrow> False | Some e \<Rightarrow> e)"

definition set_rate_limit_whitelist ::
    "'w env \<Rightarrow> 'w program \<Rightarrow> addr \<Rightarrow> bool \<Rightarrow> 'w program pres" where
  "set_rate_limit_whitelist env s a whitelisted =
     bnd (admin_auth env ''Not initialized'' s) (\<lambda>_.
       Inr (s\<lparr>pr_whitelist := pa_set_whitelist (pr_whitelist s) a whitelisted\<rparr>))"

definition is_rate_limit_whitelisted :: "'w program \<Rightarrow> addr \<Rightarrow> bool" where
  "is_rate_limit_whitelisted s a = pa_is_whitelisted (pr_whitelist s) a"

lemma not_whitelisted_alt:
  "not_whitelisted s a \<longleftrightarrow> is_whitelist_enforced s \<and> \<not> pr_is_whitelisted s a"
  by (simp add: not_whitelisted_def is_whitelist_enforced_def pr_is_whitelisted_def)

section \<open>Governance link and monitoring\<close>

definition pr_set_governance_contract :: "'w env \<Rightarrow> 'w program \<Rightarrow> addr \<Rightarrow> 'w program pres" where
  "pr_set_governance_contract env s governance_addr =
     bnd (admin_auth env ''Not initialized'' s) (\<lambda>_.
       Inr (s\<lparr>pr_gov := pg_set_governance_contract (pr_gov s) governance_addr\<rparr>))"

definition pr_get_governance_contract :: "'w program \<Rightarrow> addr option" where
  "pr_get_governance_contract s = pg_get_governance_contract (pr_gov s)"

definition pr_set_min_governance_version ::
    "'w env \<Rightarrow> 'w program \<Rightarrow> u32 \<Rightarrow> 'w program pres" where
  "pr_set_min_governance_version env s min_version =
     bnd (admin_auth env ''Not initialized'' s) (\<lambda>_.
       Inr (s\<lparr>pr_gov := pg_set_min_governance_version (pr_gov s) min_version\<rparr>))"

definition pr_get_min_governance_version :: "'w program \<Rightarrow> u32" where
  "pr_get_min_governance_version s = pg_get_min_governance_version (pr_gov s)"

definition pr_execute_governance_proposal ::
    "'w env \<Rightarrow> 'w program \<Rightarrow> u32 \<Rightarrow> 'w program pres" where
  "pr_execute_governance_proposal env s proposal_id =
     bnd (pr_check_governance_requirements env s) (\<lambda>_.
     bnd (pg_execute_governance_proposal env (pr_world s) (pr_gov s) proposal_id)
       (\<lambda>(executed, w).
          if \<not> executed then Inl (Contract Pe_GovernanceProposalNotExecutable)
          else Inr (s\<lparr>pr_world := w\<rparr>)))"

definition pr_health_check :: "'w env \<Rightarrow> 'w program \<Rightarrow> health_status" where
  "pr_health_check env s = pm_health_check (timestamp env) (pr_monitor s)"

definition pr_get_monitoring_analytics :: "'w program \<Rightarrow> monitor_analytics" where
  "pr_get_monitoring_analytics s = pm_get_analytics (pr_monitor s)"

definition pr_get_state_snapshot :: "'w env \<Rightarrow> 'w program \<Rightarrow> state_snapshot" where
  "pr_get_state_snapshot env s = pm_get_state_snapshot (timestamp env) (pr_monitor s)"

definition pr_get_performance_stats :: "'w program \<Rightarrow> symbol \<Rightarrow> performance_stats" where
  "pr_get_performance_stats s fn = pm_get_performance_stats fn (pr_monitor s)"

definition get_large_payout_threshold :: "'w program \<Rightarrow> u32" where
  "get_large_payout_threshold s = get_large_payout_threshold_bps (pr_monitor s)"

definition set_large_payout_threshold :: "'w env \<Rightarrow> 'w program \<Rightarrow> u32 \<Rightarrow> 'w program pres" where
  "set_large_payout_threshold env s threshold_bps =
     bnd (admin_auth env ''Admin not set'' s) (\<lambda>_.
       if 10000 < threshold_bps then Inl (Contract InvalidThresholdBps)
       else Inr (s\<lparr>pr_monitor := set_large_payout_threshold_bps (pr_monitor s) threshold_bps\<rparr>))"

end
