(* ===== verification/ProgramPayout.thy ===== *)
theory ProgramPayout
  imports ProgramConfig
begin

text \<open>
  The pool of a program: its initialisation, the locking of funds and the direct payouts,
  single and in a batch, with the wrappers that check the program's name first.
\<close>

section \<open>Initialisation\<close>

definition initialize_program ::
    "'w env \<Rightarrow> 'w program \<Rightarrow> string \<Rightarrow> addr \<Rightarrow> addr \<Rightarrow> ('w program \<times> program_data) pres" where
  "initialize_program env s program_id authorized_payout_key token_address =
     (if pr_data s \<noteq> None then panic_msg ''Program already initialized''
      else
        let d = \<lparr>pd_program_id = program_id, pd_total_funds = 0, pd_remaining_balance = 0,
                 pd_authorized_payout_key = authorized_payout_key, pd_payout_history = [],
                 pd_token_address = token_address\<rparr>
        in Inr (pr_emit (ProgramInitializedEvent program_id authorized_payout_key token_address 0)
             (s\<lparr>pr_data := Some d, pr_schedules := Some [], pr_history := Some [],
                pr_next_schedule_id := Some 1\<rparr>), d))"

definition init_program ::
    "'w env \<Rightarrow> 'w program \<Rightarrow> string \<Rightarrow> addr \<Rightarrow> addr \<Rightarrow> ('w program \<times> program_data) pres" where
  "init_program env s program_id authorized_payout_key token_address =
     (let start = timestamp env in
      bnd (initialize_program env s program_id authorized_payout_key token_address) (\<lambda>(s1, d).
      bnd (pr_track env ''init'' authorized_payout_key True s1) (\<lambda>s2.
      bnd (pr_perf env ''init'' (timestamp env - start) s2) (\<lambda>s3. Inr (s3, d)))))"

definition program_exists :: "'w program \<Rightarrow> bool" where
  "program_exists s \<longleftrightarrow> pr_data s \<noteq> None"

text \<open>Fees are configured nowhere and charged nowhere; the two helpers are unused.\<close>

definition calculate_program_fee :: "i128 \<Rightarrow> i128 \<Rightarrow> i128" where
  "calculate_program_fee amt fee_rate =
     (if fee_rate = 0 then 0
      else case checked_mul_i128 amt fee_rate of
             None \<Rightarrow> 0
           | Some x \<Rightarrow> (case checked_div_i128 x BASIS_POINTS_PROGRAM of None \<Rightarrow> 0 | Some y \<Rightarrow> y))"

definition get_program_fee_config :: "'w env \<Rightarrow> 'w program \<Rightarrow> program_fee_config" where
  "get_program_fee_config env s =
     (case pr_fee_config s of
        None \<Rightarrow> \<lparr>pfc_lock_fee_rate = 0, pfc_payout_fee_rate = 0,
                 pfc_fee_recipient = current_contract_address env, pfc_fee_enabled = False\<rparr>
      | Some c \<Rightarrow> c)"

section \<open>Locking\<close>

definition check_fund_caps ::
    "'w env \<Rightarrow> addr \<Rightarrow> i128 \<Rightarrow> program_data \<Rightarrow> 'w program \<Rightarrow> unit pres" where
  "check_fund_caps env caller amt d s =
     (let caps = get_fund_cap_config s in
      bnd (case max_single_lock caps of
             None \<Rightarrow> Inr ()
           | Some max_single \<Rightarrow>
               if max_single < amt
               then fail_tracked env ''lock'' caller ''Amount exceeds per-lock maximum'' s
               else Inr ()) (\<lambda>_.
        case max_total_funds caps of
          None \<Rightarrow> Inr ()
        | Some max_total \<Rightarrow>
            (case checked_add_i128 (pd_total_funds d) amt of
               None \<Rightarrow> fail_tracked env ''lock'' caller ''Total funds overflow'' s
             | Some new_total \<Rightarrow>
                 if max_total < new_total
                 then fail_tracked env ''lock'' caller ''Total funds cap exceeded'' s
                 else Inr ())))"

definition pr_balance :: "'w env \<Rightarrow> addr \<Rightarrow> addr \<Rightarrow> 'w program \<Rightarrow> i128 pres" where
  "pr_balance env t x s = ok_or (tk_balance env t x (pr_world s)) (Panic Token_trap)"

definition lock_program_funds ::
    "'w env \<Rightarrow> 'w program \<Rightarrow> addr \<Rightarrow> i128 \<Rightarrow> ('w program \<times> program_data) pres" where
  "lock_program_funds env s from amt =
     (let start = timestamp env; me = current_contract_address env;
          rl = get_rate_limit_config s in
      bnd (require_auth env from) (\<lambda>_.
      if pr_check_paused s ''lock'' then fail_tracked env ''lock'' from ''Funds Paused'' s
      else
      bnd (pa_check_rate_limit start from (rl_window_size rl) (rl_max_operations rl)
             (rl_cooldown_period rl) (pr_whitelist s) (pr_rates s)) (\<lambda>rates.
      let s1 = s\<lparr>pr_rates := rates\<rparr> in
      if amt \<le> 0
      then fail_tracked env ''lock'' from ''Amount must be greater than zero'' s1
      else
      bnd (load_program s1) (\<lambda>d.
      bnd (check_fund_caps env from amt d s1) (\<lambda>_.
      bnd (pr_transfer env (pd_token_address d) from me amt s1) (\<lambda>s2.
      bnd (ok_or (checked_add_i128 (pd_total_funds d) amt)
             (Panic (Message ''Total funds overflow''))) (\<lambda>tf.
      bnd (ok_or (checked_add_i128 (pd_remaining_balance d) amt)
             (Panic (Message ''Remaining balance overflow''))) (\<lambda>rb.
      let d' = d\<lparr>pd_total_funds := tf, pd_remaining_balance := rb\<rparr> in
      bnd (pr_balance env (pd_token_address d) me s2) (\<lambda>contract_balance.
      if contract_balance < rb
      then panic_msg ''Invariant violation: token balance < remaining balance''
      else
      let s3 = pr_emit (FundsLockedEvent (pd_program_id d') amt rb) (s2\<lparr>pr_data := Some d'\<rparr>) in
      bnd (pr_track env ''lock'' from True s3) (\<lambda>s4.
      bnd (pr_perf env ''lock'' (timestamp env - start) s4) (\<lambda>s5.
        Inr (s5, d'))))))))))))"

section \<open>Single payout\<close>

definition single_payout ::
    "'w env \<Rightarrow> 'w program \<Rightarrow> addr \<Rightarrow> i128 \<Rightarrow> ('w program \<times> program_data) pres" where
  "single_payout env s recipient amt =
     (let start = timestamp env; me = current_contract_address env in
      bnd (pr_check_not_entered s) (\<lambda>_.
      let s0 = pr_set_entered s in
      bnd (breaker_allows env
             ''Circuit breaker open: single payout temporarily disabled'' s0) (\<lambda>_.
      if pr_check_paused s0 ''release'' then panic_msg ''Funds Paused''
      else if is_dispute_open_for_key s0 Global \<or>
              is_dispute_open_for_key s0 (Recipient recipient)
      then panic_msg ''Dispute in progress''
      else
      bnd (governance_or_panic env s0) (\<lambda>_.
      bnd (load_program s0) (\<lambda>d.
      bnd (require_auth env (pd_authorized_payout_key d)) (\<lambda>_.
      if not_whitelisted s0 recipient then panic_msg ''Recipient not whitelisted''
      else if amt \<le> 0 then panic_msg ''Amount must be greater than zero''
      else if pd_remaining_balance d < amt
      then fail_recorded env (pd_program_id d) ''sngl_pay'' ''Insufficient balance'' s0
      else
      bnd (pr_transfer env (pd_token_address d) me recipient amt s0) (\<lambda>s1.
      bnd (breaker_success env s1) (\<lambda>s2.
      bnd (sub_i128 (pd_remaining_balance d) amt) (\<lambda>rb.
      let d' = d\<lparr>pd_remaining_balance := rb,
                 pd_payout_history := pd_payout_history d @
                   [\<lparr>py_recipient = recipient, py_amount = amt, py_timestamp = timestamp env\<rparr>]\<rparr>
      in
      bnd (check_and_emit_large_payout d' recipient amt (s2\<lparr>pr_data := Some d'\<rparr>)) (\<lambda>s3.
      bnd (pr_track env ''payout'' (pd_authorized_payout_key d) True
             (pr_emit (PayoutEvent (pd_program_id d') recipient amt rb) s3)) (\<lambda>s4.
      bnd (pr_perf env ''payout'' (timestamp env - start) s4) (\<lambda>s5.
      bnd (emit_aggregate_stats d' s5) (\<lambda>s6.
        Inr (pr_clear_entered s6, d'))))))))))))))"

section \<open>Batch payout\<close>

text \<open>The sum of the amounts, each of which must be positive.\<close>

primrec sum_payouts :: "i128 list \<Rightarrow> i128 \<Rightarrow> i128 pres" where
  "sum_payouts [] total_payout = Inr total_payout"
| "sum_payouts (a # as) total_payout =
     (if a \<le> 0 then panic_msg ''All amounts must be greater than zero''
      else bnd (ok_or (checked_add_i128 total_payout a)
                  (Panic (Message ''Payout amount overflow''))) (sum_payouts as))"

text \<open>The transfers, in order, with the payout records they append.\<close>

primrec pay_all ::
    "'w env \<Rightarrow> addr \<Rightarrow> (addr \<times> i128) list \<Rightarrow> payout_record list \<Rightarrow> 'w program
      \<Rightarrow> ('w program \<times> payout_record list) pres" where
  "pay_all env t [] history s = Inr (s, history)"
| "pay_all env t (p # ps) history s =
     bnd (pr_transfer env t (current_contract_address env) (fst p) (snd p) s) (\<lambda>s1.
       pay_all env t ps (history @ [\<lparr>py_recipient = fst p, py_amount = snd p,
                                     py_timestamp = timestamp env\<rparr>]) s1)"

primrec emit_large ::
    "string \<Rightarrow> i128 \<Rightarrow> (addr \<times> i128) list \<Rightarrow> 'w program \<Rightarrow> 'w program" where
  "emit_large program_id threshold [] s = s"
| "emit_large program_id threshold (p # ps) s =
     emit_large program_id threshold ps
       (if threshold \<le> snd p
        then pr_emit (LargePayoutEvent program_id (fst p) (snd p) threshold) s else s)"

definition batch_payout ::
    "'w env \<Rightarrow> 'w program \<Rightarrow> addr list \<Rightarrow> i128 list \<Rightarrow> ('w program \<times> program_data) pres" where
  "batch_payout env s recipients amounts =
     (let start = timestamp env in
      bnd (pr_check_not_entered s) (\<lambda>_.
      let s0 = pr_set_entered s in
      bnd (breaker_allows env
             ''Circuit breaker open: batch payout temporarily disabled'' s0) (\<lambda>_.
      if pr_check_paused s0 ''release'' then panic_msg ''Funds Paused''
      else if is_dispute_open_for_key s0 Global then panic_msg ''Dispute in progress''
      else
      bnd (governance_or_panic env s0) (\<lambda>_.
      bnd (load_program s0) (\<lambda>d.
      bnd (require_auth env (pd_authorized_payout_key d)) (\<lambda>_.
      if list_ex (not_whitelisted s0) recipients then panic_msg ''Recipient not whitelisted''
      else if length recipients \<noteq> length amounts
      then panic_msg ''Recipients and amounts vectors must have the same length''
      else if length recipients = 0 then panic_msg ''Cannot process empty batch''
      else if MAX_BATCH_PAYOUT < length recipients
      then panic_msg ''Batch size exceeds maximum allowed''
      else if list_ex (\<lambda>r. is_dispute_open_for_key s0 (Recipient r)) recipients
      then panic_msg ''Dispute in progress''
      else
      bnd (sum_payouts amounts 0) (\<lambda>total_payout.
      if pd_remaining_balance d < total_payout
      then fail_recorded env (pd_program_id d) ''batch_pay'' ''Insufficient balance'' s0
      else
      let threshold = pd_total_funds d sdiv 10; pairs = zip recipients amounts;
          n = length recipients in
      bnd (pay_all env (pd_token_address d) pairs (pd_payout_history d) s0) (\<lambda>(s1, history).
      bnd (breaker_success env s1) (\<lambda>s2.
      bnd (ok_or (checked_i128 (pd_remaining_balance d - total_payout))
             (Panic (Message ''Payout underflow''))) (\<lambda>rb.
      let d' = d\<lparr>pd_payout_history := history, pd_remaining_balance := rb\<rparr>;
          s3 = emit_large (pd_program_id d) threshold pairs (s2\<lparr>pr_data := Some d'\<rparr>);
          s4 = pr_emit (BatchPayoutEvent (pd_program_id d') n total_payout rb n n 1 1 1) s3 in
      bnd (pr_track env ''batchpay'' (pd_authorized_payout_key d') True s4) (\<lambda>s5.
      bnd (pr_perf env ''batchpay'' (timestamp env - start) s5) (\<lambda>s6.
      bnd (emit_aggregate_stats d' s6) (\<lambda>s7.
        Inr (pr_clear_entered s7, d'))))))))))))))"

section \<open>Views and wrappers\<close>

definition get_program_info :: "'w program \<Rightarrow> program_data pres" where
  "get_program_info s = load_program s"

definition get_remaining_balance :: "'w program \<Rightarrow> i128 pres" where
  "get_remaining_balance s = bnd (load_program s) (\<lambda>d. Inr (pd_remaining_balance d))"

definition validate_program_id :: "'w program \<Rightarrow> string \<Rightarrow> unit pres" where
  "validate_program_id s program_id =
     bnd (ok_or (pr_data s) (Contract ProgramIdMismatch)) (\<lambda>d.
       if pd_program_id d \<noteq> program_id then Inl (Contract ProgramIdMismatch) else Inr ())"

definition get_program_info_v2 :: "'w program \<Rightarrow> string \<Rightarrow> program_data pres" where
  "get_program_info_v2 s program_id =
     bnd (validate_program_id s program_id) (\<lambda>_. get_program_info s)"

definition lock_program_funds_v2 ::
    "'w env \<Rightarrow> 'w program \<Rightarrow> string \<Rightarrow> addr \<Rightarrow> i128 \<Rightarrow> ('w program \<times> program_data) pres" where
  "lock_program_funds_v2 env s program_id from amt =
     bnd (validate_program_id s program_id) (\<lambda>_. lock_program_funds env s from amt)"

definition single_payout_v2 ::
    "'w env \<Rightarrow> 'w program \<Rightarrow> string \<Rightarrow> addr \<Rightarrow> i128 \<Rightarrow> ('w program \<times> program_data) pres" where
  "single_payout_v2 env s program_id recipient amt =
     bnd (validate_program_id s program_id) (\<lambda>_. single_payout env s recipient amt)"

definition batch_payout_v2 ::
    "'w env \<Rightarrow> 'w program \<Rightarrow> string \<Rightarrow> addr list \<Rightarrow> i128 list
      \<Rightarrow> ('w program \<times> program_data) pres" where
  "batch_payout_v2 env s program_id recipients amounts =
     bnd (validate_program_id s program_id) (\<lambda>_. batch_payout env s recipients amounts)"

end
