(* ===== verification/ProgramSchedules.thy ===== *)
theory ProgramSchedules
  imports ProgramPayout
begin

text \<open>
  Release schedules of a program: creation, the trigger that pays all due ones up to a bound,
  and the two releases of a single schedule, manual and automatic.
\<close>

section \<open>Creation\<close>

definition create_program_release_schedule ::
    "'w env \<Rightarrow> 'w program \<Rightarrow> i128 \<Rightarrow> u64 \<Rightarrow> addr \<Rightarrow> ('w program \<times> release_schedule) pres" where
  "create_program_release_schedule env s amt release_timestamp recipient =
     bnd (load_program s) (\<lambda>d.
     bnd (require_auth env (pd_authorized_payout_key d)) (\<lambda>_.
     if amt \<le> 0 then panic_msg ''Amount must be greater than zero''
     else if not_whitelisted s recipient then panic_msg ''Recipient not whitelisted''
     else
     let schedules = (case pr_schedules s of None \<Rightarrow> [] | Some l \<Rightarrow> l) in
     bnd (bump_persistent_symbol_ttl (pr_schedules s)) (\<lambda>_.
     let schedule_id = (case pr_next_schedule_id s of None \<Rightarrow> 1 | Some n \<Rightarrow> n);
         schedule = \<lparr>sc_schedule_id = schedule_id, sc_recipient = recipient, sc_amount = amt,
                     sc_release_timestamp = release_timestamp, sc_released = False,
                     sc_released_at = None, sc_released_by = None\<rparr>
     in
     bnd (add_u64 schedule_id 1) (\<lambda>next_id.
       Inr (s\<lparr>pr_schedules := Some (schedules @ [schedule]),
              pr_next_schedule_id := Some next_id\<rparr>, schedule)))))"

section \<open>Trigger\<close>

text \<open>What a schedule becomes when it is released.\<close>

definition released_by_at :: "addr \<Rightarrow> u64 \<Rightarrow> release_schedule \<Rightarrow> release_schedule" where
  "released_by_at who now c =
     c\<lparr>sc_released := True, sc_released_at := Some now, sc_released_by := Some who\<rparr>"

definition history_entry :: "release_type \<Rightarrow> u64 \<Rightarrow> release_schedule \<Rightarrow> release_history" where
  "history_entry kind now c =
     \<lparr>rh_schedule_id = sc_schedule_id c, rh_recipient = sc_recipient c, rh_amount = sc_amount c,
      rh_released_at = now, rh_release_type = kind\<rparr>"

definition skips :: "u64 \<Rightarrow> 'w program \<Rightarrow> release_schedule \<Rightarrow> bool" where
  "skips now s c \<longleftrightarrow> sc_released c \<or> now < sc_release_timestamp c \<or>
     is_schedule_scope_disputed s (sc_schedule_id c) (sc_recipient c) \<or>
     not_whitelisted s (sc_recipient c)"

text \<open>
  The loop over the schedules with its local variables: the schedules already passed, the
  program data, the release history and the number of releases, which stops at the bound.
\<close>

primrec trigger_loop ::
    "'w env \<Rightarrow> release_schedule list \<Rightarrow> release_schedule list \<Rightarrow> program_data
      \<Rightarrow> release_history list \<Rightarrow> u32 \<Rightarrow> 'w program
      \<Rightarrow> ('w program \<times> release_schedule list \<times> program_data \<times> release_history list \<times> u32) pres"
    where
  "trigger_loop env [] passed d history n s = Inr (s, passed, d, history, n)"
| "trigger_loop env (c # cs) passed d history n s =
     (if MAX_BATCH_PAYOUT \<le> n then Inr (s, passed @ c # cs, d, history, n)
      else if skips (timestamp env) s c then trigger_loop env cs (passed @ [c]) d history n s
      else if pd_remaining_balance d < sc_amount c
      then fail_recorded env (pd_program_id d) ''trg_rels'' ''Insufficient balance'' s
      else
        let now = timestamp env; me = current_contract_address env in
        bnd (pr_transfer env (pd_token_address d) me (sc_recipient c) (sc_amount c) s) (\<lambda>s1.
        bnd (sub_i128 (pd_remaining_balance d) (sc_amount c)) (\<lambda>rb.
        let d' = d\<lparr>pd_remaining_balance := rb,
                   pd_payout_history := pd_payout_history d @
                     [\<lparr>py_recipient = sc_recipient c, py_amount = sc_amount c,
                       py_timestamp = now\<rparr>]\<rparr>;
            s2 = pr_emit (ScheduleTriggeredEvent (pd_program_id d') (sc_schedule_id c)
                   (sc_recipient c) (sc_amount c) Automatic) s1
        in trigger_loop env cs (passed @ [released_by_at me now c]) d'
             (history @ [history_entry Automatic now c]) (n + 1) s2)))"

definition report_triggers :: "'w env \<Rightarrow> u32 \<Rightarrow> program_data \<Rightarrow> 'w program \<Rightarrow> 'w program pres" where
  "report_triggers env n d s =
     (if 0 < n then bnd (breaker_success env s) (emit_aggregate_stats d) else Inr s)"

definition trigger_program_releases :: "'w env \<Rightarrow> 'w program \<Rightarrow> ('w program \<times> u32) pres" where
  "trigger_program_releases env s =
     bnd (pr_check_not_entered s) (\<lambda>_.
     let s0 = pr_set_entered s in
     bnd (breaker_allows env
            ''Circuit breaker open: schedule releases temporarily disabled'' s0) (\<lambda>_.
     if is_dispute_open_for_key s0 Global then panic_msg ''Dispute in progress''
     else
     bnd (load_program s0) (\<lambda>d.
     bnd (require_auth env (pd_authorized_payout_key d)) (\<lambda>_.
     let schedules = (case pr_schedules s0 of None \<Rightarrow> [] | Some l \<Rightarrow> l) in
     bnd (bump_persistent_symbol_ttl (pr_schedules s0)) (\<lambda>_.
     let history = (case pr_history s0 of None \<Rightarrow> [] | Some l \<Rightarrow> l) in
     bnd (bump_persistent_symbol_ttl (pr_history s0)) (\<lambda>_.
     bnd (trigger_loop env schedules [] d history 0 s0) (\<lambda>(s1, schedules', d', history', n).
     let s2 = s1\<lparr>pr_data := Some d', pr_schedules := Some schedules',
                 pr_history := Some history'\<rparr> in
     bnd (report_triggers env n d' s2) (\<lambda>s3.
       Inr (pr_clear_entered s3, n)))))))))"

section \<open>Release of one schedule\<close>

text \<open>
  The loops of the two functions look for the first schedule with the given id and act on it;
  \<open>split_at\<close> finds it with what stands before and after.
\<close>

fun split_at ::
    "u64 \<Rightarrow> release_schedule list \<Rightarrow> release_schedule list
      \<Rightarrow> (release_schedule list \<times> release_schedule \<times> release_schedule list) option" where
  "split_at schedule_id before [] = None"
| "split_at schedule_id before (c # cs) =
     (if sc_schedule_id c = schedule_id then Some (before, c, cs)
      else split_at schedule_id (before @ [c]) cs)"

definition disputed_or_unlisted :: "'w program \<Rightarrow> release_schedule \<Rightarrow> unit pres" where
  "disputed_or_unlisted s c =
     (if is_dispute_open_for_key s Global \<or>
         is_schedule_scope_disputed s (sc_schedule_id c) (sc_recipient c)
      then panic_msg ''Dispute in progress''
      else if not_whitelisted s (sc_recipient c) then panic_msg ''Recipient not whitelisted''
      else Inr ())"

text \<open>
  The part the two functions share from the transfer on: pay, mark the schedule as released
  by \<open>who\<close>, write back, report the success and append to the release history. The payout
  history of the program data is not touched.
\<close>

definition release_schedule_of ::
    "'w env \<Rightarrow> release_type \<Rightarrow> addr \<Rightarrow> program_data \<Rightarrow> release_schedule list
      \<Rightarrow> release_schedule \<Rightarrow> release_schedule list \<Rightarrow> 'w program \<Rightarrow> 'w program pres" where
  "release_schedule_of env kind who d before c after s =
     (let now = timestamp env; me = current_contract_address env in
      bnd (pr_transfer env (pd_token_address d) me (sc_recipient c) (sc_amount c) s) (\<lambda>s1.
      bnd (sub_i128 (pd_remaining_balance d) (sc_amount c)) (\<lambda>rb.
      let d' = d\<lparr>pd_remaining_balance := rb\<rparr>;
          c' = released_by_at who now c;
          s2 = pr_emit (ScheduleTriggeredEvent (pd_program_id d') (sc_schedule_id c')
                 (sc_recipient c') (sc_amount c') kind) s1;
          s3 = s2\<lparr>pr_schedules := Some (before @ c' # after), pr_data := Some d'\<rparr>
      in
      bnd (breaker_success env s3) (\<lambda>s4.
      let history = (case pr_history s4 of None \<Rightarrow> [] | Some l \<Rightarrow> l) in
      bnd (bump_persistent_symbol_ttl (pr_history s4)) (\<lambda>_.
        Inr (pr_clear_entered
          (s4\<lparr>pr_history := Some (history @ [history_entry kind now c'])\<rparr>)))))))"

definition release_program_schedule_manual ::
    "'w env \<Rightarrow> 'w program \<Rightarrow> u64 \<Rightarrow> 'w program pres" where
  "release_program_schedule_manual env s schedule_id =
     bnd (pr_check_not_entered s) (\<lambda>_.
     let s0 = pr_set_entered s in
     bnd (breaker_allows env
            ''Circuit breaker open: manual release temporarily disabled'' s0) (\<lambda>_.
     bnd (load_program_release_schedules s0) (\<lambda>schedules.
     bnd (get_program_info s0) (\<lambda>d.
     bnd (require_auth env (pd_authorized_payout_key d)) (\<lambda>_.
     case split_at schedule_id [] schedules of
       None \<Rightarrow> panic_msg ''Schedule not found''
     | Some (before, c, after) \<Rightarrow>
         if sc_released c then panic_msg ''Already released''
         else bnd (disputed_or_unlisted s0 c) (\<lambda>_.
           release_schedule_of env Manual (pd_authorized_payout_key d) d before c after s0))))))"

definition release_prog_schedule_automatic ::
    "'w env \<Rightarrow> 'w program \<Rightarrow> u64 \<Rightarrow> 'w program pres" where
  "release_prog_schedule_automatic env s schedule_id =
     bnd (pr_check_not_entered s) (\<lambda>_.
     let s0 = pr_set_entered s in
     bnd (breaker_allows env
            ''Circuit breaker open: automatic release temporarily disabled'' s0) (\<lambda>_.
     bnd (load_program_release_schedules s0) (\<lambda>schedules.
     bnd (get_program_info s0) (\<lambda>d.
     bnd (require_auth env (pd_authorized_payout_key d)) (\<lambda>_.
     case split_at schedule_id [] schedules of
       None \<Rightarrow> panic_msg ''Schedule not found''
     | Some (before, c, after) \<Rightarrow>
         if sc_released c then panic_msg ''Already released''
         else if timestamp env < sc_release_timestamp c then panic_msg ''Not yet due''
         else bnd (disputed_or_unlisted s0 c) (\<lambda>_.
           release_schedule_of env Automatic (current_contract_address env) d before c after
             s0))))))"

lemma split_at_append:
  "split_at i before cs = Some (pre, c, post) \<Longrightarrow>
   before @ cs = pre @ c # post \<and> c \<in> set cs \<and> sc_schedule_id c = i"
proof (induction cs arbitrary: before)
  case (Cons x xs)
  then show ?case using Cons.IH [of "before @ [x]"] by (auto split: if_splits)
qed simp

lemma split_at_find: "split_at i before cs = None \<longleftrightarrow> (\<forall>c\<in>set cs. sc_schedule_id c \<noteq> i)"
  by (induction cs arbitrary: before) auto

end
