(* ===== verification/ProgramQueries.thy ===== *)
theory ProgramQueries
  imports ProgramSchedules
begin

text \<open>
  The views of the program escrow over payouts, schedules and releases. Six queries repeat one
  loop with different filters: skip \<open>offset\<close> matches, then collect up to \<open>limit\<close>. The loop
  is written out once, with its counters, and shown to be a page of the filtered list.
\<close>

section \<open>The paging loop\<close>

fun page_loop :: "('a \<Rightarrow> bool) \<Rightarrow> u32 \<Rightarrow> u32 \<Rightarrow> 'a list \<Rightarrow> u32 \<Rightarrow> u32 \<Rightarrow> 'a list \<Rightarrow> 'a list" where
  "page_loop P offset limit [] count skipped results = results"
| "page_loop P offset limit (x # xs) count skipped results =
     (if limit \<le> count then results
      else if P x then
        if skipped < offset then page_loop P offset limit xs count (skipped + 1) results
        else page_loop P offset limit xs (count + 1) skipped (results @ [x])
      else page_loop P offset limit xs count skipped results)"

lemma page_loop_page:
  "skipped \<le> offset \<Longrightarrow> page_loop P offset limit xs count skipped results =
     results @ take (limit - count) (drop (offset - skipped) (filter P xs))"
proof (induction P offset limit xs count skipped results rule: page_loop.induct)
  case (2 P offset limit x xs count skipped results)
  show ?case
  proof (cases "limit \<le> count")
    case False
    then obtain m where m: "limit - count = Suc m" by (cases "limit - count") auto
    then have "limit - Suc count = m" by simp
    then show ?thesis
      using 2 False m
      by (cases "skipped < offset") (auto simp: Suc_diff_Suc drop_Cons' Suc_leI)
  qed simp
qed simp

section \<open>Payout history\<close>

definition query_payouts ::
    "'w program \<Rightarrow> (payout_record \<Rightarrow> bool) \<Rightarrow> u32 \<Rightarrow> u32 \<Rightarrow> payout_record list pres" where
  "query_payouts s P offset limit =
     bnd (load_program s) (\<lambda>d. Inr (page_loop P offset limit (pd_payout_history d) 0 0 []))"

definition query_payouts_by_recipient ::
    "'w program \<Rightarrow> addr \<Rightarrow> u32 \<Rightarrow> u32 \<Rightarrow> payout_record list pres" where
  "query_payouts_by_recipient s recipient offset limit =
     query_payouts s (\<lambda>r. py_recipient r = recipient) offset limit"

definition query_payouts_by_amount ::
    "'w program \<Rightarrow> i128 \<Rightarrow> i128 \<Rightarrow> u32 \<Rightarrow> u32 \<Rightarrow> payout_record list pres" where
  "query_payouts_by_amount s lo hi offset limit =
     query_payouts s (\<lambda>r. lo \<le> py_amount r \<and> py_amount r \<le> hi) offset limit"

definition query_payouts_by_timestamp ::
    "'w program \<Rightarrow> u64 \<Rightarrow> u64 \<Rightarrow> u32 \<Rightarrow> u32 \<Rightarrow> payout_record list pres" where
  "query_payouts_by_timestamp s lo hi offset limit =
     query_payouts s (\<lambda>r. lo \<le> py_timestamp r \<and> py_timestamp r \<le> hi) offset limit"

definition get_payouts_by_recipient ::
    "'w program \<Rightarrow> addr \<Rightarrow> u32 \<Rightarrow> u32 \<Rightarrow> payout_record list pres" where
  "get_payouts_by_recipient s recipient offset limit =
     query_payouts_by_recipient s recipient offset limit"

section \<open>Schedules\<close>

definition paginate_program_release_schedules ::
    "release_schedule list \<Rightarrow> u32 \<Rightarrow> u32 \<Rightarrow> release_schedule list" where
  "paginate_program_release_schedules schedules offset limit =
     (let limit' = min limit MAX_SCHEDULE_QUERY in
      if limit' = 0 \<or> length schedules \<le> offset then []
      else let stop = min (sat_add_u32 offset limit') (length schedules)
           in map (\<lambda>i. schedules ! i) [offset..<stop])"

definition get_program_release_schedules ::
    "'w program \<Rightarrow> u32 \<Rightarrow> u32 \<Rightarrow> release_schedule list pres" where
  "get_program_release_schedules s offset limit =
     bnd (load_program_release_schedules s) (\<lambda>l.
       Inr (paginate_program_release_schedules l offset limit))"

definition get_all_prog_release_schedules ::
    "'w program \<Rightarrow> u32 \<Rightarrow> u32 \<Rightarrow> release_schedule list pres" where
  "get_all_prog_release_schedules s offset limit = get_program_release_schedules s offset limit"

definition query_schedules_by_recipient ::
    "'w program \<Rightarrow> addr \<Rightarrow> u32 \<Rightarrow> u32 \<Rightarrow> release_schedule list pres" where
  "query_schedules_by_recipient s recipient offset limit =
     bnd (load_program_release_schedules s) (\<lambda>l.
       Inr (page_loop (\<lambda>c. sc_recipient c = recipient) offset limit l 0 0 []))"

definition query_schedules_by_status ::
    "'w program \<Rightarrow> bool \<Rightarrow> u32 \<Rightarrow> u32 \<Rightarrow> release_schedule list pres" where
  "query_schedules_by_status s released offset limit =
     bnd (load_program_release_schedules s) (\<lambda>l.
       Inr (page_loop (\<lambda>c. sc_released c = released) offset limit l 0 0 []))"

definition get_pending_schedules ::
    "'w program \<Rightarrow> u32 \<Rightarrow> u32 \<Rightarrow> release_schedule list pres" where
  "get_pending_schedules s offset limit =
     bnd (load_program_release_schedules s) (\<lambda>l.
       let limit' = min limit MAX_SCHEDULE_QUERY in
       if limit' = 0 then Inr []
       else Inr (page_loop (\<lambda>c. \<not> sc_released c) offset limit' l 0 0 []))"

definition get_due_schedules ::
    "'w env \<Rightarrow> 'w program \<Rightarrow> u32 \<Rightarrow> u32 \<Rightarrow> release_schedule list pres" where
  "get_due_schedules env s offset limit =
     bnd (load_program_release_schedules s) (\<lambda>l.
       let limit' = min limit MAX_SCHEDULE_QUERY; now = timestamp env in
       if limit' = 0 then Inr []
       else Inr (page_loop (\<lambda>c. \<not> sc_released c \<and> sc_release_timestamp c \<le> now)
                   offset limit' l 0 0 []))"

definition get_pending_program_schedules ::
    "'w program \<Rightarrow> u32 \<Rightarrow> u32 \<Rightarrow> release_schedule list pres" where
  "get_pending_program_schedules s offset limit = get_pending_schedules s offset limit"

definition get_due_program_schedules ::
    "'w env \<Rightarrow> 'w program \<Rightarrow> u32 \<Rightarrow> u32 \<Rightarrow> release_schedule list pres" where
  "get_due_program_schedules env s offset limit = get_due_schedules env s offset limit"

text \<open>The total adds up with a plain operator, which can overflow.\<close>

primrec total_unreleased :: "release_schedule list \<Rightarrow> i128 \<Rightarrow> i128 pres" where
  "total_unreleased [] t = Inr t"
| "total_unreleased (c # cs) t =
     (if \<not> sc_released c then bnd (add_i128 t (sc_amount c)) (total_unreleased cs)
      else total_unreleased cs t)"

definition get_total_scheduled_amount :: "'w program \<Rightarrow> i128 pres" where
  "get_total_scheduled_amount s =
     bnd (load_program_release_schedules s) (\<lambda>l. total_unreleased l 0)"

section \<open>Releases and statistics\<close>

definition load_release_history :: "'w program \<Rightarrow> release_history list pres" where
  "load_release_history s =
     (let history = (case pr_history s of None \<Rightarrow> [] | Some l \<Rightarrow> l) in
      bnd (bump_persistent_symbol_ttl (pr_history s)) (\<lambda>_. Inr history))"

definition get_program_release_history :: "'w program \<Rightarrow> release_history list pres" where
  "get_program_release_history s = load_release_history s"

definition query_releases_by_recipient ::
    "'w program \<Rightarrow> addr \<Rightarrow> u32 \<Rightarrow> u32 \<Rightarrow> release_history list pres" where
  "query_releases_by_recipient s recipient offset limit =
     bnd (load_release_history s) (\<lambda>l.
       Inr (page_loop (\<lambda>h. rh_recipient h = recipient) offset limit l 0 0 []))"

text \<open>One pass counts the released and the unreleased schedules.\<close>

primrec count_schedules :: "release_schedule list \<Rightarrow> nat \<Rightarrow> nat \<Rightarrow> nat \<times> nat" where
  "count_schedules [] released scheduled = (released, scheduled)"
| "count_schedules (c # cs) released scheduled =
     (if sc_released c then count_schedules cs (released + 1) scheduled
      else count_schedules cs released (scheduled + 1))"

definition get_program_aggregate_stats :: "'w program \<Rightarrow> program_aggregate_stats pres" where
  "get_program_aggregate_stats s =
     bnd (load_program s) (\<lambda>d.
     bnd (load_program_release_schedules s) (\<lambda>l.
     let (released, scheduled) = count_schedules l 0 0 in
     bnd (sub_i128 (pd_total_funds d) (pd_remaining_balance d)) (\<lambda>paid.
       Inr \<lparr>pas_total_funds = pd_total_funds d, pas_remaining_balance = pd_remaining_balance d,
            pas_total_paid_out = paid, pas_payout_count = length (pd_payout_history d),
            pas_scheduled_count = scheduled, pas_released_count = released,
            pas_authorized_payout_key = pd_authorized_payout_key d,
            pas_payout_history = pd_payout_history d,
            pas_token_address = pd_token_address d\<rparr>)))"

definition get_program_count :: "'w program \<Rightarrow> u32" where
  "get_program_count s = (if pr_data s \<noteq> None then 1 else 0)"

definition list_programs :: "'w program \<Rightarrow> program_data list pres" where
  "list_programs s =
     (if pr_data s \<noteq> None then bnd (get_program_info s) (\<lambda>d. Inr [d]) else Inr [])"

lemma count_schedules_lengths:
  "count_schedules l r n = (r + length (filter sc_released l), n + count_unreleased l)"
  by (induction l arbitrary: r n) (auto simp: count_unreleased_def)

lemma total_unreleased_sum:
  "total_unreleased l t = Inr x \<Longrightarrow>
   x = t + (\<Sum>c\<leftarrow>filter (\<lambda>c. \<not> sc_released c) l. sc_amount c)"
proof (induction l arbitrary: t)
  case (Cons c l)
  then show ?case
    by (cases "sc_released c") (auto simp: bnd_Inr i128_ops_Inr dest!: Cons.IH)
qed simp

lemma map_nth_upt: "b \<le> length xs \<Longrightarrow> map (\<lambda>i. xs ! i) [a..<b] = take (b - a) (drop a xs)"
  by (intro nth_equalityI) auto

lemma paginate_take_drop:
  assumes "length schedules \<le> u32_max"
  shows "paginate_program_release_schedules schedules offset limit =
    take (min limit MAX_SCHEDULE_QUERY) (drop offset schedules)"
proof (cases "min limit MAX_SCHEDULE_QUERY = 0 \<or> length schedules \<le> offset")
  case False
  let ?n = "min limit MAX_SCHEDULE_QUERY"
  let ?stop = "min (sat_add_u32 offset ?n) (length schedules)"
  have "?stop = min (offset + ?n) (length schedules)"
    using assms by (simp add: sat_add_u32_def)
  then have "map (\<lambda>i. schedules ! i) [offset..<?stop] = take ?n (drop offset schedules)"
    using False by (simp add: map_nth_upt min_def)
  then show ?thesis
    using False by (auto simp: paginate_program_release_schedules_def Let_def)
qed (auto simp: paginate_program_release_schedules_def)

end
