(* ===== verification/ProgramEffects.thy ===== *)
theory ProgramEffects
  imports ProgramQueries
begin

text \<open>
  What an operation of the program escrow that returns has checked and changed: one inversion
  lemma per operation that moves funds, with the whole new state, and the frame of all the
  others. The proofs about the contract use these and not the definitions.
\<close>

section \<open>Reporting and the breaker\<close>

text \<open>
  Reporting writes the monitor and the events. A \<open>quiet\<close> monitor has counted no error; the
  reports of an operation that returns keep it quiet.
\<close>

definition quiet :: "program_monitor \<Rightarrow> bool" where
  "quiet m \<longleftrightarrow> or_zero (pm_win_errs m) = 0 \<and> or_zero (err_count (pm_base m)) = 0"

definition reported :: "'w program \<Rightarrow> 'w program \<Rightarrow> bool" where
  "reported s s' \<longleftrightarrow> s' = s\<lparr>pr_monitor := pr_monitor s', pr_events := pr_events s'\<rparr> \<and>
     (quiet (pr_monitor s) \<longrightarrow> quiet (pr_monitor s'))"

lemma reported_refl [simp]: "reported s s"
  by (simp add: reported_def)

lemma reported_trans: "reported s s1 \<Longrightarrow> reported s1 s2 \<Longrightarrow> reported s s2"
  unfolding reported_def by (cases s; cases s1; cases s2) simp

lemma reported_emit [simp]: "reported s (pr_emit ev s)"
  by (simp add: reported_def pr_emit_def)

lemma reported_metric:
  "(quiet (pr_monitor s) \<Longrightarrow> quiet m) \<Longrightarrow> reported s (pr_emit ev (s\<lparr>pr_monitor := m\<rparr>))"
  by (simp add: reported_def pr_emit_def)

lemma track_quiet:
  "pm_track_operation now opn a True m = Inr (ev, m') \<Longrightarrow> quiet m \<Longrightarrow> quiet m'"
  by (auto simp: pm_track_operation_def track_operation_def quiet_def bnd_Inr Let_def
      split: if_splits)

lemma perf_quiet: "pm_emit_performance now fn t m = Inr (ev, m') \<Longrightarrow> quiet m \<Longrightarrow> quiet m'"
  by (auto simp: pm_emit_performance_def emit_performance_def quiet_def bnd_Inr Let_def)

lemma pr_track_reported:
  assumes "pr_track env opn a True s = Inr s'"
  shows "reported s s'"
proof -
  obtain ev m where "(pm_track_operation (timestamp env) opn a True (pr_monitor s) :: _ pres)
      = Inr (ev, m)" and s': "s' = pr_emit (Program_Metric ev) (s\<lparr>pr_monitor := m\<rparr>)"
    using assms unfolding pr_track_def bnd_Inr by fastforce
  then show ?thesis unfolding s' by (intro reported_metric) (rule track_quiet)
qed

lemma pr_perf_reported:
  assumes "pr_perf env fn t s = Inr s'"
  shows "reported s s'"
proof -
  obtain ev m where "(pm_emit_performance (timestamp env) fn t (pr_monitor s) :: _ pres)
      = Inr (ev, m)" and s': "s' = pr_emit (Program_Metric ev) (s\<lparr>pr_monitor := m\<rparr>)"
    using assms unfolding pr_perf_def bnd_Inr by fastforce
  then show ?thesis unfolding s' by (intro reported_metric) (rule perf_quiet)
qed

lemma emit_aggregate_reported:
  assumes "emit_aggregate_stats d s = Inr s'"
  shows "reported s s'"
proof -
  obtain ev where "s' = pr_emit ev s"
    using assms unfolding emit_aggregate_stats_def Let_def bnd_Inr by blast
  then show ?thesis by simp
qed

lemma large_payout_reported:
  assumes "check_and_emit_large_payout d r amt s = Inr s'"
  shows "reported s s'"
proof -
  obtain ev where "s' = pr_emit ev s \<or> s' = s"
    using assms unfolding check_and_emit_large_payout_def bnd_Inr by (metis sum.inject(2))
  then show ?thesis by auto
qed

lemmas reported_steps = pr_track_reported pr_perf_reported emit_aggregate_reported
  large_payout_reported

lemma reported_large: "reported s (emit_large pid t ps s)"
proof (induction ps arbitrary: s)
  case (Cons p ps)
  then show ?case by (auto intro: reported_trans [OF reported_emit])
qed simp

lemma reportedE:
  assumes "reported s s'"
  obtains m ev where "s' = s\<lparr>pr_monitor := m, pr_events := ev\<rparr>"
    and "quiet (pr_monitor s) \<longrightarrow> quiet m"
  using assms unfolding reported_def by blast

lemma breaker_successE:
  assumes "breaker_success env s = Inr s'"
  obtains b where "pb_record_success (timestamp env) (pr_breaker s) = (Inr b :: _ pres)"
    and "s' = s\<lparr>pr_breaker := b\<rparr>"
  using assms by (auto simp: breaker_success_def res_simps)

lemma not_disputed_guard [simp]:
  "is_dispute_open_for_key (pr_set_entered s) k = is_dispute_open_for_key s k"
  "is_schedule_scope_disputed (pr_set_entered s) i r = is_schedule_scope_disputed s i r"
  "not_whitelisted (pr_set_entered s) r = not_whitelisted s r"
  "pr_check_paused (pr_set_entered s) opn = pr_check_paused s opn"
  "load_program (pr_set_entered s) = load_program s"
  "pr_breaker (pr_set_entered s) = pr_breaker s" "pr_world (pr_set_entered s) = pr_world s"
  "pr_schedules (pr_set_entered s) = pr_schedules s"
  "pr_history (pr_set_entered s) = pr_history s" "pr_data (pr_set_entered s) = pr_data s"
  "load_program_release_schedules (pr_set_entered s) = load_program_release_schedules s"
  "get_program_info (pr_set_entered s) = get_program_info s"
  "governance_or_panic env (pr_set_entered s) = governance_or_panic env s"
  "disputed_or_unlisted (pr_set_entered s) c = disputed_or_unlisted s c"
  by (simp_all add: is_dispute_open_for_key_def is_schedule_scope_disputed_def
      not_whitelisted_def pr_check_paused_def pr_get_pause_flags_def load_program_def
      load_program_release_schedules_def get_program_info_def governance_or_panic_def
      pr_check_governance_requirements_def disputed_or_unlisted_def pr_set_entered_def Let_def)

lemma governance_or_panic_Inr [res_simps]:
  "governance_or_panic env s = Inr u \<longleftrightarrow> pr_check_governance_requirements env s = Inr ()"
  by (auto simp: governance_or_panic_def split: sum.splits fault.splits)

section \<open>Locking\<close>

text \<open>The caps that a lock must respect.\<close>

definition within_caps :: "fund_cap_config \<Rightarrow> i128 \<Rightarrow> i128 \<Rightarrow> bool" where
  "within_caps caps total_now amt \<longleftrightarrow>
     (case max_single_lock caps of None \<Rightarrow> True | Some m \<Rightarrow> amt \<le> m) \<and>
     (case max_total_funds caps of None \<Rightarrow> True | Some m \<Rightarrow> total_now + amt \<le> m)"

lemma check_fund_caps_Inr:
  "check_fund_caps env a amt d s = Inr u \<Longrightarrow>
   within_caps (get_fund_cap_config s) (pd_total_funds d) amt"
  by (auto simp: check_fund_caps_def within_caps_def res_simps Let_def
      split: option.splits if_splits)

lemma lock_program_fundsE:
  assumes "lock_program_funds env s from amt = Inr (s', d')"
  obtains rates d w m ev bal where "authorized env from" and "\<not> pr_check_paused s ''lock''"
    and "pa_check_rate_limit (timestamp env) from (rl_window_size (get_rate_limit_config s))
      (rl_max_operations (get_rate_limit_config s)) (rl_cooldown_period (get_rate_limit_config s))
      (pr_whitelist s) (pr_rates s) = (Inr rates :: _ pres)"
    and "0 < amt" and "pr_data s = Some d"
    and "within_caps (get_fund_cap_config s) (pd_total_funds d) amt"
    and "tk_transfer env (pd_token_address d) from (current_contract_address env) amt (pr_world s)
      = Some w"
    and "in_i128 (pd_total_funds d + amt)" and "in_i128 (pd_remaining_balance d + amt)"
    and "tk_balance env (pd_token_address d) (current_contract_address env) w = Some bal"
    and "pd_remaining_balance d + amt \<le> bal"
    and "d' = d\<lparr>pd_total_funds := pd_total_funds d + amt,
      pd_remaining_balance := pd_remaining_balance d + amt\<rparr>"
    and "s' = s\<lparr>pr_rates := rates, pr_world := w, pr_data := Some d', pr_monitor := m,
      pr_events := ev\<rparr>"
    and "quiet (pr_monitor s) \<longrightarrow> quiet m"
proof -
  let ?rl = "get_rate_limit_config s" and ?me = "current_contract_address env"
  obtain rates d s2 tf rb bal s4 where
      auth: "authorized env from" "\<not> pr_check_paused s ''lock''"
    and rates: "pa_check_rate_limit (timestamp env) from (rl_window_size ?rl)
      (rl_max_operations ?rl) (rl_cooldown_period ?rl) (pr_whitelist s) (pr_rates s)
      = (Inr rates :: _ pres)"
    and amt: "0 < amt" and d: "load_program (s\<lparr>pr_rates := rates\<rparr>) = Inr d"
    and caps: "check_fund_caps env from amt d (s\<lparr>pr_rates := rates\<rparr>) = Inr ()"
    and s2: "pr_transfer env (pd_token_address d) from ?me amt (s\<lparr>pr_rates := rates\<rparr>) = Inr s2"
    and tf: "checked_add_i128 (pd_total_funds d) amt = Some tf"
    and rb: "checked_add_i128 (pd_remaining_balance d) amt = Some rb"
    and bal: "pr_balance env (pd_token_address d) ?me s2 = Inr bal" "rb \<le> bal"
    and s4: "pr_track env ''lock'' from True (pr_emit (FundsLockedEvent (pd_program_id d) amt rb)
      (s2\<lparr>pr_data := Some (d\<lparr>pd_total_funds := tf, pd_remaining_balance := rb\<rparr>)\<rparr>)) = Inr s4"
    and s5: "pr_perf env ''lock'' (timestamp env - timestamp env) s4 = Inr s'"
    and d': "d' = d\<lparr>pd_total_funds := tf, pd_remaining_balance := rb\<rparr>"
    using assms
    by (auto simp: lock_program_funds_def res_simps Let_def not_le not_less split: if_splits)
  obtain w where w: "tk_transfer env (pd_token_address d) from ?me amt (pr_world s) = Some w"
      "s2 = s\<lparr>pr_rates := rates, pr_world := w\<rparr>"
    using s2 by (auto simp: res_simps)
  have "reported (s2\<lparr>pr_data := Some d'\<rparr>) s'"
    using reported_trans [OF reported_emit reported_trans
        [OF reported_steps(1) [OF s4] reported_steps(2) [OF s5]]] d' by simp
  then obtain m ev where "s' = s2\<lparr>pr_data := Some d', pr_monitor := m, pr_events := ev\<rparr>"
      "quiet (pr_monitor (s2\<lparr>pr_data := Some d'\<rparr>)) \<longrightarrow> quiet m"
    by (rule reportedE)
  moreover have "pr_data s = Some d" using d by (simp add: load_program_Inr)
  moreover have "within_caps (get_fund_cap_config s) (pd_total_funds d) amt"
    using check_fund_caps_Inr [OF caps] by (simp add: get_fund_cap_config_def)
  moreover have "in_i128 (pd_total_funds d + amt)" "tf = pd_total_funds d + amt"
      "in_i128 (pd_remaining_balance d + amt)" "rb = pd_remaining_balance d + amt"
    using tf rb by (simp_all add: checked_add_i128_Some)
  moreover have "tk_balance env (pd_token_address d) ?me w = Some bal"
    using bal(1) w(2) by (simp add: pr_balance_def ok_or_Inr)
  ultimately show thesis
    using auth rates amt w bal(2) d' by (intro that) simp_all
qed


section \<open>Direct payouts\<close>

text \<open>What every payout asks for before it looks at recipients and amounts.\<close>

definition payout_open :: "'w env \<Rightarrow> 'w program \<Rightarrow> program_data \<Rightarrow> bool" where
  "payout_open env s d \<longleftrightarrow> \<not> pr_guard s \<and> pb_get_state (pr_breaker s) \<noteq> Open \<and>
     \<not> pr_check_paused s ''release'' \<and> \<not> is_dispute_open_for_key s Global \<and>
     pr_check_governance_requirements env s = Inr () \<and> pr_data s = Some d \<and>
     authorized env (pd_authorized_payout_key d)"

lemma payout_open_guard: "payout_open env s d \<Longrightarrow> \<not> pr_guard s"
  by (simp add: payout_open_def)

lemma entered_monitor: "pr_monitor ((pr_set_entered s)\<lparr>pr_world := w, pr_breaker := b,
    pr_data := x\<rparr>) = pr_monitor s"
  by (simp add: pr_set_entered_def)

lemma clear_after_entered:
  assumes "\<not> pr_guard s" and "reported ((pr_set_entered s)\<lparr>pr_world := w, pr_breaker := b,
      pr_data := x\<rparr>) s'"
  obtains m ev where "pr_clear_entered s' = s\<lparr>pr_world := w, pr_breaker := b, pr_data := x,
      pr_monitor := m, pr_events := ev\<rparr>" and "quiet (pr_monitor s) \<longrightarrow> quiet m"
proof -
  obtain m ev where s': "s' = (pr_set_entered s)\<lparr>pr_world := w, pr_breaker := b, pr_data := x,
      pr_monitor := m, pr_events := ev\<rparr>" and "quiet (pr_monitor s) \<longrightarrow> quiet m"
    using reportedE [OF assms(2)] by (metis (no_types) entered_monitor)
  moreover have "pr_clear_entered s' = s\<lparr>pr_world := w, pr_breaker := b, pr_data := x,
      pr_monitor := m, pr_events := ev\<rparr>"
    using s' assms(1) by (cases s) (simp add: pr_clear_entered_def pr_set_entered_def)
  ultimately show thesis by (intro that)
qed

text \<open>How both payouts end: the breaker notes the success, then there are only reports.\<close>

lemma payout_tail:
  assumes "payout_open env s d"
    and "breaker_success env ((pr_set_entered s)\<lparr>pr_world := w\<rparr>) = Inr s2"
    and "reported (s2\<lparr>pr_data := x\<rparr>) s'"
  obtains b m ev where "pb_record_success (timestamp env) (pr_breaker s) = (Inr b :: _ pres)"
    and "s2 = (pr_set_entered s)\<lparr>pr_world := w, pr_breaker := b\<rparr>"
    and "pr_clear_entered s' = s\<lparr>pr_world := w, pr_breaker := b, pr_data := x,
      pr_monitor := m, pr_events := ev\<rparr>" and "quiet (pr_monitor s) \<longrightarrow> quiet m"
proof -
  obtain b where b: "pb_record_success (timestamp env) (pr_breaker s) = (Inr b :: _ pres)"
      "s2 = (pr_set_entered s)\<lparr>pr_world := w, pr_breaker := b\<rparr>"
    using assms(2) by (rule breaker_successE) simp
  show thesis
    by (rule clear_after_entered [OF payout_open_guard [OF assms(1)] assms(3) [unfolded b(2)]])
      (rule that [OF b])
qed

lemma single_payoutE:
  assumes "single_payout env s r amt = Inr (s', d')"
  obtains d w b m ev where "payout_open env s d" and "\<not> is_dispute_open_for_key s (Recipient r)"
    and "\<not> not_whitelisted s r" and "0 < amt" and "amt \<le> pd_remaining_balance d"
    and "tk_transfer env (pd_token_address d) (current_contract_address env) r amt (pr_world s)
      = Some w"
    and "pb_record_success (timestamp env) (pr_breaker s) = (Inr b :: _ pres)"
    and "in_i128 (pd_remaining_balance d - amt)"
    and "d' = d\<lparr>pd_remaining_balance := pd_remaining_balance d - amt,
      pd_payout_history := pd_payout_history d @
        [\<lparr>py_recipient = r, py_amount = amt, py_timestamp = timestamp env\<rparr>]\<rparr>"
    and "in_i128 (pd_total_funds d * int (get_large_payout_threshold_bps (pr_monitor s)))"
    and "s' = s\<lparr>pr_world := w, pr_breaker := b, pr_data := Some d', pr_monitor := m,
      pr_events := ev\<rparr>"
    and "quiet (pr_monitor s) \<longrightarrow> quiet m"
proof -
  let ?me = "current_contract_address env" and ?s0 = "pr_set_entered s"
  obtain d s1 s2 rb s3 s4 s5 s6 where
      open_: "payout_open env s d" and rcpt: "\<not> is_dispute_open_for_key s (Recipient r)"
      "\<not> not_whitelisted s r" "0 < amt" "amt \<le> pd_remaining_balance d"
    and s1: "pr_transfer env (pd_token_address d) ?me r amt ?s0 = Inr s1"
    and s2: "breaker_success env s1 = Inr s2"
    and rb: "sub_i128 (pd_remaining_balance d) amt = (Inr rb :: _ pres)"
    and d': "d' = d\<lparr>pd_remaining_balance := rb,
      pd_payout_history := pd_payout_history d @
        [\<lparr>py_recipient = r, py_amount = amt, py_timestamp = timestamp env\<rparr>]\<rparr>"
    and s3: "check_and_emit_large_payout d' r amt (s2\<lparr>pr_data := Some d'\<rparr>) = Inr s3"
    and s4: "pr_track env ''payout'' (pd_authorized_payout_key d) True
      (pr_emit (PayoutEvent (pd_program_id d') r amt rb) s3) = Inr s4"
    and s5: "pr_perf env ''payout'' (timestamp env - timestamp env) s4 = Inr s5"
    and s6: "emit_aggregate_stats d' s5 = Inr s6" and s': "s' = pr_clear_entered s6"
    using assms
    by (auto simp: single_payout_def payout_open_def res_simps Let_def not_le not_less
        split: if_splits)
  obtain w where w: "tk_transfer env (pd_token_address d) ?me r amt (pr_world s) = Some w"
      "s1 = ?s0\<lparr>pr_world := w\<rparr>"
    using s1 by (auto simp: res_simps)
  have "reported (s2\<lparr>pr_data := Some d'\<rparr>) s6"
    using reported_steps(4) [OF s3] reported_steps(1) [OF s4] reported_steps(2) [OF s5]
      reported_steps(3) [OF s6] reported_emit reported_trans by meson
  from payout_tail [OF open_ s2 [unfolded w(2)] this] obtain b m ev where
      b: "pb_record_success (timestamp env) (pr_breaker s) = (Inr b :: _ pres)"
        "s2 = ?s0\<lparr>pr_world := w, pr_breaker := b\<rparr>"
    and "s' = s\<lparr>pr_world := w, pr_breaker := b, pr_data := Some d', pr_monitor := m,
      pr_events := ev\<rparr>" and q: "quiet (pr_monitor s) \<longrightarrow> quiet m"
    using s' by metis
  moreover have "in_i128 (pd_total_funds d * int (get_large_payout_threshold_bps (pr_monitor s)))"
    using s3 d' b(2) by (auto simp: check_and_emit_large_payout_def bnd_Inr
        get_large_payout_threshold_amount_def i128_ops_Inr pr_set_entered_def Let_def)
  moreover have "in_i128 (pd_remaining_balance d - amt)" "rb = pd_remaining_balance d - amt"
    using rb by (simp_all add: i128_ops_Inr)
  ultimately show thesis
    using open_ rcpt w b d' q by (intro that) simp_all
qed

definition payouts_of :: "u64 \<Rightarrow> (addr \<times> i128) list \<Rightarrow> payout_record list" where
  "payouts_of now ps =
     map (\<lambda>p. \<lparr>py_recipient = fst p, py_amount = snd p, py_timestamp = now\<rparr>) ps"

text \<open>A chain of transfers out of one account.\<close>

fun transfer_chain :: "'w env \<Rightarrow> addr \<Rightarrow> (addr \<times> i128) list \<Rightarrow> 'w \<Rightarrow> 'w option" where
  "transfer_chain env t [] w = Some w"
| "transfer_chain env t (p # ps) w =
     (case tk_transfer env t (current_contract_address env) (fst p) (snd p) w of
        None \<Rightarrow> None | Some w1 \<Rightarrow> transfer_chain env t ps w1)"

lemma pay_all_Inr:
  "pay_all env t ps h s = Inr (s', h') \<longleftrightarrow> (\<exists>w. transfer_chain env t ps (pr_world s) = Some w \<and>
     s' = s\<lparr>pr_world := w\<rparr> \<and> h' = h @ payouts_of (timestamp env) ps)"
proof (induction ps arbitrary: h s)
  case (Cons p ps)
  then show ?case
    by (auto simp: bnd_Inr pr_transfer_Inr payouts_of_def split: option.splits)
qed (auto simp: payouts_of_def)

lemma sum_payouts_Inr:
  "sum_payouts as t = Inr x \<Longrightarrow> x = t + sum_list as \<and> (\<forall>a\<in>set as. 0 < a) \<and> (as \<noteq> [] \<longrightarrow> in_i128 x)"
proof (induction as arbitrary: t)
  case (Cons a as)
  then obtain t1 where t1: "0 < a" "checked_add_i128 t a = Some t1" "sum_payouts as t1 = Inr x"
    by (auto simp: bnd_Inr ok_or_Inr split: if_splits)
  show ?case
    using Cons.IH [OF t1(3)] t1 by (cases "as = []") (auto simp: checked_add_i128_Some)
qed simp

lemma batch_payoutE:
  assumes "batch_payout env s rs as = Inr (s', d')"
  obtains d w b m ev where "payout_open env s d"
    and "\<forall>r\<in>set rs. \<not> is_dispute_open_for_key s (Recipient r) \<and> \<not> not_whitelisted s r"
    and "length rs = length as" and "rs \<noteq> []" and "length rs \<le> MAX_BATCH_PAYOUT"
    and "\<forall>a\<in>set as. 0 < a" and "sum_list as \<le> pd_remaining_balance d"
    and "transfer_chain env (pd_token_address d) (zip rs as) (pr_world s) = Some w"
    and "pb_record_success (timestamp env) (pr_breaker s) = (Inr b :: _ pres)"
    and "in_i128 (pd_remaining_balance d - sum_list as)"
    and "d' = d\<lparr>pd_payout_history := pd_payout_history d @ payouts_of (timestamp env) (zip rs as),
      pd_remaining_balance := pd_remaining_balance d - sum_list as\<rparr>"
    and "s' = s\<lparr>pr_world := w, pr_breaker := b, pr_data := Some d', pr_monitor := m,
      pr_events := ev\<rparr>"
    and "quiet (pr_monitor s) \<longrightarrow> quiet m"
proof -
  let ?s0 = "pr_set_entered s"
  obtain d total s1 h s2 rb s5 s6 s7 where
      open_: "payout_open env s d"
    and rcpts: "\<forall>r\<in>set rs. \<not> is_dispute_open_for_key s (Recipient r) \<and> \<not> not_whitelisted s r"
      "length rs = length as" "rs \<noteq> []" "length rs \<le> MAX_BATCH_PAYOUT"
    and total: "sum_payouts as 0 = Inr total" "total \<le> pd_remaining_balance d"
    and s1: "pay_all env (pd_token_address d) (zip rs as) (pd_payout_history d) ?s0 = Inr (s1, h)"
    and s2: "breaker_success env s1 = Inr s2"
    and rb: "checked_i128 (pd_remaining_balance d - total) = Some rb"
    and d': "d' = d\<lparr>pd_payout_history := h, pd_remaining_balance := rb\<rparr>"
    and s5: "pr_track env ''batchpay'' (pd_authorized_payout_key d) True
      (pr_emit (BatchPayoutEvent (pd_program_id d') (length rs) total rb (length rs) (length rs)
          1 1 1)
        (emit_large (pd_program_id d) (pd_total_funds d sdiv 10) (zip rs as)
          (s2\<lparr>pr_data := Some d'\<rparr>))) = Inr s5"
    and s6: "pr_perf env ''batchpay'' (timestamp env - timestamp env) s5 = Inr s6"
    and s7: "emit_aggregate_stats d' s6 = Inr s7" and s': "s' = pr_clear_entered s7"
    using assms
    by (auto simp: batch_payout_def payout_open_def res_simps Let_def not_le not_less list_ex_iff
        split: if_splits)
  have sum: "total = sum_list as" "\<forall>a\<in>set as. 0 < a"
    using sum_payouts_Inr [OF total(1)] by simp_all
  obtain w where w: "transfer_chain env (pd_token_address d) (zip rs as) (pr_world s) = Some w"
      "s1 = ?s0\<lparr>pr_world := w\<rparr>" "h = pd_payout_history d @ payouts_of (timestamp env) (zip rs as)"
    using s1 unfolding pay_all_Inr by auto
  have "reported (s2\<lparr>pr_data := Some d'\<rparr>) s7"
    using reported_large reported_steps(1) [OF s5] reported_steps(2) [OF s6]
      reported_steps(3) [OF s7] reported_emit reported_trans by meson
  from payout_tail [OF open_ s2 [unfolded w(2)] this] obtain b m ev where
      b: "pb_record_success (timestamp env) (pr_breaker s) = (Inr b :: _ pres)"
    and "s' = s\<lparr>pr_world := w, pr_breaker := b, pr_data := Some d', pr_monitor := m,
      pr_events := ev\<rparr>" and q: "quiet (pr_monitor s) \<longrightarrow> quiet m"
    using s' by metis
  moreover have "in_i128 (pd_remaining_balance d - total)" "rb = pd_remaining_balance d - total"
    using rb by (auto simp: checked_i128_def split: if_splits)
  ultimately show thesis
    using open_ rcpts total sum w b d' q by (intro that) simp_all
qed

section \<open>Schedules\<close>

lemma create_scheduleE:
  assumes "create_program_release_schedule env s amt at r = Inr (s', c)"
  obtains d cs i where "pr_data s = Some d" and "authorized env (pd_authorized_payout_key d)"
    and "0 < amt" and "\<not> not_whitelisted s r" and "pr_schedules s = Some cs"
    and "i = (case pr_next_schedule_id s of None \<Rightarrow> 1 | Some n \<Rightarrow> n)"
    and "c = \<lparr>sc_schedule_id = i, sc_recipient = r, sc_amount = amt,
      sc_release_timestamp = at, sc_released = False, sc_released_at = None,
      sc_released_by = None\<rparr>"
    and "s' = s\<lparr>pr_schedules := Some (cs @ [c]), pr_next_schedule_id := Some (i + 1)\<rparr>"
  using assms
  by (auto simp: create_program_release_schedule_def res_simps Let_def add_u64_def not_le
      split: if_splits)

text \<open>What the two releases of a single schedule ask for, their own guards apart.\<close>

definition release_open ::
    "'w env \<Rightarrow> 'w program \<Rightarrow> program_data \<Rightarrow> release_schedule \<Rightarrow> bool" where
  "release_open env s d c \<longleftrightarrow> \<not> pr_guard s \<and> pb_get_state (pr_breaker s) \<noteq> Open \<and>
     pr_data s = Some d \<and> authorized env (pd_authorized_payout_key d) \<and> \<not> sc_released c \<and>
     \<not> is_dispute_open_for_key s Global \<and>
     \<not> is_schedule_scope_disputed s (sc_schedule_id c) (sc_recipient c) \<and>
     \<not> not_whitelisted s (sc_recipient c)"

definition released_state ::
    "'w env \<Rightarrow> release_type \<Rightarrow> addr \<Rightarrow> program_data \<Rightarrow> release_schedule list
      \<Rightarrow> release_schedule \<Rightarrow> release_schedule list \<Rightarrow> release_history list \<Rightarrow> 'w
      \<Rightarrow> program_breaker \<Rightarrow> program_event list \<Rightarrow> 'w program \<Rightarrow> 'w program" where
  "released_state env kind who d before c after h w b ev s =
     s\<lparr>pr_world := w, pr_breaker := b,
       pr_data := Some (d\<lparr>pd_remaining_balance := pd_remaining_balance d - sc_amount c\<rparr>),
       pr_schedules := Some (before @ released_by_at who (timestamp env) c # after),
       pr_history := Some (h @ [history_entry kind (timestamp env) c]), pr_events := ev\<rparr>"

lemma history_entry_released [simp]:
  "history_entry kind now (released_by_at who t c) = history_entry kind now c"
  by (simp add: history_entry_def released_by_at_def)

lemma release_schedule_ofE:
  assumes "release_schedule_of env kind who d before c after (pr_set_entered s) = Inr s'"
    and "\<not> pr_guard s"
  obtains w b ev h where
      "tk_transfer env (pd_token_address d) (current_contract_address env) (sc_recipient c)
        (sc_amount c) (pr_world s) = Some w"
    and "in_i128 (pd_remaining_balance d - sc_amount c)"
    and "pb_record_success (timestamp env) (pr_breaker s) = (Inr b :: _ pres)"
    and "pr_history s = Some h"
    and "s' = released_state env kind who d before c after h w b ev s"
proof -
  let ?now = "timestamp env"
  let ?d = "d\<lparr>pd_remaining_balance := pd_remaining_balance d - sc_amount c\<rparr>"
  let ?c = "released_by_at who ?now c"
  let ?e = "ScheduleTriggeredEvent (pd_program_id ?d) (sc_schedule_id ?c) (sc_recipient ?c)
    (sc_amount ?c) kind"
  obtain w s4 where w: "tk_transfer env (pd_token_address d) (current_contract_address env)
        (sc_recipient c) (sc_amount c) (pr_world s) = Some w"
    and rb: "in_i128 (pd_remaining_balance d - sc_amount c)"
    and s4: "breaker_success env ((pr_emit ?e ((pr_set_entered s)\<lparr>pr_world := w\<rparr>))
        \<lparr>pr_schedules := Some (before @ ?c # after), pr_data := Some ?d\<rparr>) = Inr s4"
    and h: "pr_history s4 \<noteq> None"
    and s': "s' = pr_clear_entered (s4\<lparr>pr_history :=
        Some ((case pr_history s4 of None \<Rightarrow> [] | Some l \<Rightarrow> l) @
          [history_entry kind ?now c])\<rparr>)"
    using assms(1)
    by (auto simp: release_schedule_of_def Let_def res_simps i128_ops_Inr)
  obtain b where b: "pb_record_success ?now (pr_breaker s) = (Inr b :: _ pres)"
      "s4 = (pr_emit ?e ((pr_set_entered s)\<lparr>pr_world := w\<rparr>))
        \<lparr>pr_schedules := Some (before @ ?c # after), pr_data := Some ?d, pr_breaker := b\<rparr>"
    using s4 by (rule breaker_successE) (simp add: pr_emit_def)
  obtain l where l: "pr_history s = Some l"
    using h b(2) by (auto simp: pr_emit_def)
  have "s' = released_state env kind who d before c after l w b (pr_events s @ [?e]) s"
    using s' b(2) l assms(2)
    by (cases s) (simp add: released_state_def pr_emit_def pr_set_entered_def
        pr_clear_entered_def)
  then show thesis using w rb b(1) l by (intro that)
qed

lemma release_manualE:
  assumes "release_program_schedule_manual env s i = Inr s'"
  obtains d cs before c after where "release_open env s d c" and "pr_schedules s = Some cs"
    and "split_at i [] cs = Some (before, c, after)"
    and "release_schedule_of env Manual (pd_authorized_payout_key d) d before c after
      (pr_set_entered s) = Inr s'"
  using assms
  by (auto simp: release_program_schedule_manual_def release_open_def res_simps Let_def
      disputed_or_unlisted_def get_program_info_def split: option.splits if_splits)

lemma release_automaticE:
  assumes "release_prog_schedule_automatic env s i = Inr s'"
  obtains d cs before c after where "release_open env s d c" and "pr_schedules s = Some cs"
    and "sc_release_timestamp c \<le> timestamp env"
    and "split_at i [] cs = Some (before, c, after)"
    and "release_schedule_of env Automatic (current_contract_address env) d before c after
      (pr_set_entered s) = Inr s'"
  using assms
  by (auto simp: release_prog_schedule_automatic_def release_open_def res_simps Let_def
      disputed_or_unlisted_def get_program_info_def not_less split: option.splits if_splits)

end
