(* ===== verification/ProgramPool.thy ===== *)
theory ProgramPool
  imports ProgramEffects "HOL-Library.Multiset"
begin

text \<open>
  The abstract specification of the program escrow: one pool of funds with its payout records,
  its release schedules and the record of their releases, and the token balance behind it.
  The moves are what may happen to a pool; the invariant \<open>pool_ok\<close> is proved once per move.
\<close>

section \<open>Pools and moves\<close>

record pool =
  pl_total :: i128
  pl_remaining :: i128
  pl_payouts :: "payout_record list"
  pl_schedules :: "release_schedule list"
  pl_releases :: "release_history list"
  pl_next :: u64
  pl_held :: int

definition empty_pool :: pool where
  "empty_pool = \<lparr>pl_total = 0, pl_remaining = 0, pl_payouts = [], pl_schedules = [],
     pl_releases = [], pl_next = 1, pl_held = 0\<rparr>"

datatype pool_move =
    Idle
  | Fund i128
  | Pay "payout_record list"
  | Plan u64
  | Trigger u64
  | Release release_type u64

abbreviation paid_sum :: "payout_record list \<Rightarrow> int" where
  "paid_sum ps \<equiv> \<Sum>p\<leftarrow>ps. py_amount p"

definition payout_of :: "u64 \<Rightarrow> release_schedule \<Rightarrow> payout_record" where
  "payout_of now c =
     \<lparr>py_recipient = sc_recipient c, py_amount = sc_amount c, py_timestamp = now\<rparr>"

text \<open>
  A trigger pays a schedule out of what remains and records a payout. A release of a single
  schedule looks only at the tokens, and records no payout.
\<close>

inductive pool_step :: "pool \<Rightarrow> pool_move \<Rightarrow> pool \<Rightarrow> bool" where
  idle: "pl_held k \<le> h \<Longrightarrow> pool_step k Idle (k\<lparr>pl_held := h\<rparr>)"
| fund: "0 < amt \<Longrightarrow> h = pl_held k + amt \<Longrightarrow> pl_remaining k + amt \<le> h \<Longrightarrow>
    pool_step k (Fund amt)
      (k\<lparr>pl_total := pl_total k + amt, pl_remaining := pl_remaining k + amt, pl_held := h\<rparr>)"
| pay: "\<forall>p\<in>set ps. 0 < py_amount p \<Longrightarrow> paid_sum ps \<le> pl_remaining k \<Longrightarrow>
    pl_held k - paid_sum ps \<le> h \<Longrightarrow>
    pool_step k (Pay ps)
      (k\<lparr>pl_remaining := pl_remaining k - paid_sum ps, pl_payouts := pl_payouts k @ ps,
         pl_held := h\<rparr>)"
| plan: "0 < sc_amount c \<Longrightarrow> \<not> sc_released c \<Longrightarrow> sc_schedule_id c = pl_next k \<Longrightarrow>
    pool_step k (Plan (pl_next k))
      (k\<lparr>pl_schedules := pl_schedules k @ [c], pl_next := pl_next k + 1\<rparr>)"
| trigger: "pl_schedules k = before @ c # after \<Longrightarrow> \<not> sc_released c \<Longrightarrow>
    sc_release_timestamp c \<le> now \<Longrightarrow> sc_amount c \<le> pl_remaining k \<Longrightarrow>
    pl_held k - sc_amount c \<le> h \<Longrightarrow>
    pool_step k (Trigger (sc_schedule_id c))
      (k\<lparr>pl_remaining := pl_remaining k - sc_amount c,
         pl_payouts := pl_payouts k @ [payout_of now c],
         pl_schedules := before @ released_by_at who now c # after,
         pl_releases := pl_releases k @ [history_entry Automatic now c], pl_held := h\<rparr>)"
| release: "pl_schedules k = before @ c # after \<Longrightarrow> \<not> sc_released c \<Longrightarrow>
    kind = Automatic \<longrightarrow> sc_release_timestamp c \<le> now \<Longrightarrow> sc_amount c \<le> pl_held k \<Longrightarrow>
    pl_held k - sc_amount c \<le> h \<Longrightarrow>
    pool_step k (Release kind (sc_schedule_id c))
      (k\<lparr>pl_remaining := pl_remaining k - sc_amount c,
         pl_schedules := before @ released_by_at who now c # after,
         pl_releases := pl_releases k @ [history_entry kind now c], pl_held := h\<rparr>)"

inductive pool_steps :: "pool \<Rightarrow> pool_move list \<Rightarrow> pool \<Rightarrow> bool" where
  no_moves: "pool_steps k [] k"
| some_moves: "pool_step k m k1 \<Longrightarrow> pool_steps k1 ms k2 \<Longrightarrow> pool_steps k (m # ms) k2"

inductive_cases pool_idleE: "pool_step k Idle k'"
inductive_cases pool_fundE: "pool_step k (Fund amt) k'"
inductive_cases pool_payE: "pool_step k (Pay ps) k'"

lemma pool_steps_single: "pool_step k m k' \<Longrightarrow> pool_steps k [m] k'"
  by (blast intro: no_moves some_moves)

lemma pool_steps_preserve:
  "pool_steps k ms k' \<Longrightarrow> P k \<Longrightarrow> (\<And>k m k'. pool_step k m k' \<Longrightarrow> P k \<Longrightarrow> P k') \<Longrightarrow> P k'"
  by (induction rule: pool_steps.induct) auto

section \<open>The invariant\<close>

text \<open>What a schedule and its release have in common.\<close>

definition plan_key :: "release_schedule \<Rightarrow> u64 \<times> addr \<times> i128" where
  "plan_key c = (sc_schedule_id c, sc_recipient c, sc_amount c)"

definition done_key :: "release_history \<Rightarrow> u64 \<times> addr \<times> i128" where
  "done_key h = (rh_schedule_id h, rh_recipient h, rh_amount h)"

definition released_keys :: "release_schedule list \<Rightarrow> (u64 \<times> addr \<times> i128) multiset" where
  "released_keys cs = mset (map plan_key (filter sc_released cs))"

abbreviation released_total :: "(release_history \<Rightarrow> bool) \<Rightarrow> release_history list \<Rightarrow> int" where
  "released_total P hs \<equiv> \<Sum>h\<leftarrow>filter P hs. rh_amount h"

definition is_manual :: "release_history \<Rightarrow> bool" where
  "is_manual h \<longleftrightarrow> rh_release_type h = Manual"

text \<open>
  The pool is backed by tokens; what left it is what the payout records say plus what was
  released directly, at least the manual releases and at most all of them; amounts are
  positive; schedules are numbered from 1; and the releases on record are exactly the
  schedules marked as released, each once.
\<close>

definition pool_ok :: "pool \<Rightarrow> bool" where
  "pool_ok k \<longleftrightarrow>
     pl_remaining k \<le> pl_held k \<and>
     paid_sum (pl_payouts k) + released_total is_manual (pl_releases k)
       \<le> pl_total k - pl_remaining k \<and>
     pl_total k - pl_remaining k
       \<le> paid_sum (pl_payouts k) + released_total (\<lambda>_. True) (pl_releases k) \<and>
     (\<forall>p\<in>set (pl_payouts k). 0 < py_amount p) \<and>
     (\<forall>c\<in>set (pl_schedules k). 0 < sc_amount c) \<and>
     1 \<le> pl_next k \<and> map sc_schedule_id (pl_schedules k) = [1..<pl_next k] \<and>
     mset (map done_key (pl_releases k)) = released_keys (pl_schedules k)"

lemma released_by_at_simps [simp]:
  "sc_schedule_id (released_by_at who now c) = sc_schedule_id c"
  "sc_recipient (released_by_at who now c) = sc_recipient c"
  "sc_amount (released_by_at who now c) = sc_amount c"
  "sc_released (released_by_at who now c)"
  by (simp_all add: released_by_at_def)

lemma history_entry_simps [simp]:
  "rh_schedule_id (history_entry kind now c) = sc_schedule_id c"
  "rh_recipient (history_entry kind now c) = sc_recipient c"
  "rh_amount (history_entry kind now c) = sc_amount c"
  "rh_release_type (history_entry kind now c) = kind"
  by (simp_all add: history_entry_def)

lemma payout_of_simps [simp]: "py_amount (payout_of now c) = sc_amount c"
  by (simp add: payout_of_def)

lemma empty_pool_ok: "pool_ok empty_pool"
  by (simp add: pool_ok_def empty_pool_def released_keys_def)

lemma release_keys_step:
  assumes "\<not> sc_released c" and "mset (map done_key hs) = released_keys (before @ c # after)"
  shows "mset (map done_key (hs @ [history_entry kind now c])) =
    released_keys (before @ released_by_at who now c # after)"
  using assms by (simp add: released_keys_def done_key_def plan_key_def)

lemma pool_step_ok:
  assumes "pool_step k m k'" and "pool_ok k"
  shows "pool_ok k'"
  using assms
proof cases
  case (plan c)
  then show ?thesis
    using assms(2) by (auto simp: pool_ok_def released_keys_def)
next
  case (trigger before c "after" now h who)
  have keys: "mset (map done_key (pl_releases k')) = released_keys (pl_schedules k')"
    using release_keys_step [OF trigger(4), where hs = "pl_releases k" and kind = Automatic and now = now
        and who = who and before = before and after = "after"] assms(2) trigger(3)
    by (simp add: trigger(2) pool_ok_def)
  have "0 < sc_amount c" using assms(2) trigger(3) by (simp add: pool_ok_def)
  then show ?thesis
    using assms(2) keys trigger by (auto simp: pool_ok_def is_manual_def)
next
  case (release before c "after" kind now h who)
  have keys: "mset (map done_key (pl_releases k')) = released_keys (pl_schedules k')"
    using release_keys_step [OF release(4), where hs = "pl_releases k" and kind = kind and now = now
        and who = who and before = before and after = "after"] assms(2) release(3)
    by (simp add: release(2) pool_ok_def)
  have "0 < sc_amount c" using assms(2) release(3) by (simp add: pool_ok_def)
  then show ?thesis
    using assms(2) keys release by (auto simp: pool_ok_def is_manual_def)
qed (auto simp: pool_ok_def)

lemma pool_steps_ok: "pool_steps k ms k' \<Longrightarrow> pool_ok k \<Longrightarrow> pool_ok k'"
  by (rule pool_steps_preserve) (blast intro: pool_step_ok)+

text \<open>Distinct numbers make a release a matter of one schedule.\<close>

lemma pool_ok_distinct: "pool_ok k \<Longrightarrow> distinct (map sc_schedule_id (pl_schedules k))"
  by (simp add: pool_ok_def)

lemma pool_ok_released_once:
  assumes "pool_ok k"
  shows "distinct (map rh_schedule_id (pl_releases k))"
proof -
  have "mset (map done_key (pl_releases k)) =
      mset (map plan_key (filter sc_released (pl_schedules k)))"
    using assms by (simp only: pool_ok_def released_keys_def)
  then have "image_mset fst (mset (map done_key (pl_releases k))) =
      image_mset fst (mset (map plan_key (filter sc_released (pl_schedules k))))"
    by (rule arg_cong)
  then have "mset (map rh_schedule_id (pl_releases k)) =
      mset (map sc_schedule_id (filter sc_released (pl_schedules k)))"
    by (simp only: mset_map [symmetric] map_map comp_def done_key_def plan_key_def fst_conv)
  moreover have "distinct (map sc_schedule_id (filter sc_released (pl_schedules k)))"
    using pool_ok_distinct [OF assms] by (rule distinct_map_filter)
  ultimately show ?thesis using mset_eq_imp_distinct_iff by blast
qed

end
