(* ===== verification/ProgramTrigger.thy ===== *)
theory ProgramTrigger
  imports ProgramPool
begin

text \<open>
  The loop of \<open>trigger_program_releases\<close> against a reference: the first due schedules, up to
  the bound, are paid in order and marked as released, and all other schedules stay.
\<close>

section \<open>The reference\<close>

primrec mark_first :: "('a \<Rightarrow> bool) \<Rightarrow> ('a \<Rightarrow> 'a) \<Rightarrow> nat \<Rightarrow> 'a list \<Rightarrow> 'a list" where
  "mark_first P f k [] = []"
| "mark_first P f k (x # xs) =
     (if k = 0 then x # xs
      else if P x then f x # mark_first P f (k - 1) xs else x # mark_first P f k xs)"

definition first_due :: "u64 \<Rightarrow> 'w program \<Rightarrow> nat \<Rightarrow> release_schedule list \<Rightarrow> release_schedule list"
  where "first_due now s k cs = take k (filter (\<lambda>c. \<not> skips now s c) cs)"

definition pay_pair :: "release_schedule \<Rightarrow> addr \<times> i128" where
  "pay_pair c = (sc_recipient c, sc_amount c)"

text \<open>Each payment must be covered by what the ones before it left.\<close>

primrec affordable :: "i128 \<Rightarrow> release_schedule list \<Rightarrow> bool" where
  "affordable remaining [] \<longleftrightarrow> True"
| "affordable remaining (c # cs) \<longleftrightarrow>
     sc_amount c \<le> remaining \<and> affordable (remaining - sc_amount c) cs"

definition after_triggers :: "u64 \<Rightarrow> release_schedule list \<Rightarrow> program_data \<Rightarrow> program_data" where
  "after_triggers now picked d =
     d\<lparr>pd_remaining_balance := pd_remaining_balance d - (\<Sum>c\<leftarrow>picked. sc_amount c),
       pd_payout_history := pd_payout_history d @ map (payout_of now) picked\<rparr>"

lemma mark_first_0 [simp]: "mark_first P f 0 xs = xs"
  by (cases xs) simp_all

lemma skips_frame [simp]:
  "skips now (pr_emit e s) c = skips now s c"
  "skips now (s\<lparr>pr_world := w\<rparr>) c = skips now s c"
  "skips now (pr_set_entered s) c = skips now s c"
  by (simp_all add: skips_def is_schedule_scope_disputed_def is_dispute_open_for_key_def
      not_whitelisted_def pr_emit_def pr_set_entered_def)

lemma first_due_Nil [simp]: "first_due now s k [] = []" "first_due now s 0 cs = []"
  by (simp_all add: first_due_def)

lemma first_due_Cons:
  "0 < k \<Longrightarrow> first_due now s k (c # cs) =
    (if skips now s c then first_due now s k cs else c # first_due now s (k - 1) cs)"
  by (cases k) (simp_all add: first_due_def)

lemma first_due_frame [simp]:
  "first_due now (pr_emit e s) k cs = first_due now s k cs"
  "first_due now (s\<lparr>pr_world := w\<rparr>) k cs = first_due now s k cs"
  "first_due now (pr_set_entered s) k cs = first_due now s k cs"
  by (simp_all add: first_due_def)

section \<open>The loop computes it\<close>

lemma trigger_loop_ConsE:
  assumes "trigger_loop env (c # cs) passed d h n s = Inr r" and "n < MAX_BATCH_PAYOUT"
    and "\<not> skips (timestamp env) s c"
  obtains w where "sc_amount c \<le> pd_remaining_balance d"
    and "tk_transfer env (pd_token_address d) (current_contract_address env) (sc_recipient c)
      (sc_amount c) (pr_world s) = Some w"
    and "in_i128 (pd_remaining_balance d - sc_amount c)"
    and "trigger_loop env cs
      (passed @ [released_by_at (current_contract_address env) (timestamp env) c])
      (after_triggers (timestamp env) [c] d)
      (h @ [history_entry Automatic (timestamp env) c]) (n + 1)
      (pr_emit (ScheduleTriggeredEvent (pd_program_id d) (sc_schedule_id c) (sc_recipient c)
        (sc_amount c) Automatic) (s\<lparr>pr_world := w\<rparr>)) = Inr r"
  using assms
  by (auto simp: res_simps Let_def i128_ops_Inr after_triggers_def payout_of_def not_less
      split: if_splits)

lemma after_triggers_more:
  "after_triggers now cs (after_triggers now [c] d) = after_triggers now (c # cs) d"
  by (simp add: after_triggers_def)

lemma after_triggers_simps [simp]:
  "after_triggers now [] d = d"
  "pd_token_address (after_triggers now cs d) = pd_token_address d"
  "pd_total_funds (after_triggers now cs d) = pd_total_funds d"
  "pd_remaining_balance (after_triggers now cs d) =
     pd_remaining_balance d - (\<Sum>c\<leftarrow>cs. sc_amount c)"
  "pd_payout_history (after_triggers now cs d) = pd_payout_history d @ map (payout_of now) cs"
  by (simp_all add: after_triggers_def)

lemma after_triggers_one:
  "pd_remaining_balance (after_triggers now [c] d) = pd_remaining_balance d - sc_amount c"
  by simp

lemma emit_world: "pr_world (pr_emit e (s\<lparr>pr_world := w\<rparr>)) = w"
  by (simp add: pr_emit_def)

text \<open>
  What a run of the loop from its local variables to their final values comes to, with \<open>n\<close>
  releases already made.
\<close>

definition trigger_run ::
    "'w env \<Rightarrow> 'w program \<Rightarrow> release_schedule list \<Rightarrow> release_schedule list \<Rightarrow> program_data
      \<Rightarrow> release_history list \<Rightarrow> u32
      \<Rightarrow> 'w program \<times> release_schedule list \<times> program_data \<times> release_history list \<times> u32 \<Rightarrow> bool"
    where
  "trigger_run env s cs passed d h n r \<longleftrightarrow>
     (\<exists>w ev picked. picked = first_due (timestamp env) s (MAX_BATCH_PAYOUT - n) cs \<and>
       transfer_chain env (pd_token_address d) (map pay_pair picked) (pr_world s) = Some w \<and>
       affordable (pd_remaining_balance d) picked \<and>
       r = (s\<lparr>pr_world := w, pr_events := ev\<rparr>,
         passed @ mark_first (\<lambda>c. \<not> skips (timestamp env) s c)
           (released_by_at (current_contract_address env) (timestamp env))
           (MAX_BATCH_PAYOUT - n) cs,
         after_triggers (timestamp env) picked d,
         h @ map (history_entry Automatic (timestamp env)) picked, n + length picked))"

lemma run_stop:
  "cs = [] \<or> MAX_BATCH_PAYOUT \<le> n \<Longrightarrow> trigger_run env s cs passed d h n (s, passed @ cs, d, h, n)"
  unfolding trigger_run_def
  by (rule exI [of _ "pr_world s"], rule exI [of _ "pr_events s"]) auto

lemma run_skip:
  "n < MAX_BATCH_PAYOUT \<Longrightarrow> skips (timestamp env) s c \<Longrightarrow>
   trigger_run env s cs (passed @ [c]) d h n r \<Longrightarrow> trigger_run env s (c # cs) passed d h n r"
  by (simp add: trigger_run_def first_due_Cons)

lemma run_due:
  assumes "n < MAX_BATCH_PAYOUT" and "\<not> skips (timestamp env) s c"
    and "sc_amount c \<le> pd_remaining_balance d"
    and "tk_transfer env (pd_token_address d) (current_contract_address env) (sc_recipient c)
      (sc_amount c) (pr_world s) = Some w"
    and "trigger_run env (pr_emit e (s\<lparr>pr_world := w\<rparr>)) cs
      (passed @ [released_by_at (current_contract_address env) (timestamp env) c])
      (after_triggers (timestamp env) [c] d)
      (h @ [history_entry Automatic (timestamp env) c]) (n + 1) r"
  shows "trigger_run env s (c # cs) passed d h n r"
proof -
  let ?now = "timestamp env" and ?k = "MAX_BATCH_PAYOUT - n"
  let ?p = "first_due ?now s (?k - 1) cs"
  have k: "0 < ?k" "MAX_BATCH_PAYOUT - (n + 1) = ?k - 1" using assms(1) by simp_all
  obtain w' ev where run:
      "transfer_chain env (pd_token_address d) (map pay_pair ?p) w = Some w'"
      "affordable (pd_remaining_balance d - sc_amount c) ?p"
    and r: "r = ((pr_emit e (s\<lparr>pr_world := w\<rparr>))\<lparr>pr_world := w', pr_events := ev\<rparr>,
      (passed @ [released_by_at (current_contract_address env) ?now c]) @
        mark_first (\<lambda>c. \<not> skips ?now s c)
          (released_by_at (current_contract_address env) ?now) (?k - 1) cs,
      after_triggers ?now ?p (after_triggers ?now [c] d),
      (h @ [history_entry Automatic ?now c]) @ map (history_entry Automatic ?now) ?p,
      n + 1 + length ?p)"
    using assms(5)
    unfolding trigger_run_def k(2) skips_frame first_due_frame emit_world
      after_triggers_simps(2) after_triggers_one by blast
  have "transfer_chain env (pd_token_address d) (map pay_pair (c # ?p)) (pr_world s) = Some w'"
    using run(1) assms(4) by (simp add: pay_pair_def)
  moreover have "affordable (pd_remaining_balance d) (c # ?p)"
    using run(2) assms(3) by simp
  moreover have "r = (s\<lparr>pr_world := w', pr_events := ev\<rparr>,
      passed @ mark_first (\<lambda>c. \<not> skips ?now s c)
        (released_by_at (current_contract_address env) ?now) ?k (c # cs),
      after_triggers ?now (c # ?p) d, h @ map (history_entry Automatic ?now) (c # ?p),
      n + length (c # ?p))"
    using r assms(2) k(1) by (simp add: after_triggers_more) (simp add: pr_emit_def)
  moreover have "first_due ?now s ?k (c # cs) = c # ?p"
    using assms(2) k(1) by (simp add: first_due_Cons)
  ultimately show ?thesis unfolding trigger_run_def by metis
qed

lemma trigger_loop_run:
  assumes "trigger_loop env cs passed d h n s = Inr r"
  shows "trigger_run env s cs passed d h n r"
  using assms
proof (induction cs arbitrary: passed d h n s)
  case Nil
  then show ?case using run_stop [of "[]"] by auto
next
  case (Cons c cs)
  consider (full) "MAX_BATCH_PAYOUT \<le> n" | (skip) "n < MAX_BATCH_PAYOUT" "skips (timestamp env) s c"
    | (due) "n < MAX_BATCH_PAYOUT" "\<not> skips (timestamp env) s c" by linarith
  then show ?case
  proof cases
    case full
    then have "r = (s, passed @ c # cs, d, h, n)" using Cons.prems by simp
    then show ?thesis using run_stop [of "c # cs" n] full by blast
  next
    case skip
    then show ?thesis using Cons.prems by (intro run_skip [OF skip] Cons.IH) simp
  next
    case due
    show ?thesis
      by (rule trigger_loop_ConsE [OF Cons.prems due]) (rule run_due [OF due _ _ Cons.IH])
  qed
qed

lemma affordable_sum: "affordable r picked \<Longrightarrow> picked \<noteq> [] \<Longrightarrow> (\<Sum>c\<leftarrow>picked. sc_amount c) \<le> r"
proof (induction picked arbitrary: r)
  case (Cons c picked)
  then show ?case by (cases "picked = []") fastforce+
qed simp

section \<open>The whole call\<close>

definition trigger_open :: "'w env \<Rightarrow> 'w program \<Rightarrow> program_data \<Rightarrow> bool" where
  "trigger_open env s d \<longleftrightarrow> \<not> pr_guard s \<and> pb_get_state (pr_breaker s) \<noteq> Open \<and>
     \<not> is_dispute_open_for_key s Global \<and> pr_data s = Some d \<and>
     authorized env (pd_authorized_payout_key d)"

definition triggered :: "'w env \<Rightarrow> 'w program \<Rightarrow> release_schedule list \<Rightarrow> release_schedule list" where
  "triggered env s cs = first_due (timestamp env) s MAX_BATCH_PAYOUT cs"

definition marked :: "'w env \<Rightarrow> 'w program \<Rightarrow> release_schedule list \<Rightarrow> release_schedule list" where
  "marked env s cs = mark_first (\<lambda>c. \<not> skips (timestamp env) s c)
     (released_by_at (current_contract_address env) (timestamp env)) MAX_BATCH_PAYOUT cs"

definition triggered_state ::
    "'w env \<Rightarrow> program_data \<Rightarrow> release_schedule list \<Rightarrow> release_history list \<Rightarrow> 'w
      \<Rightarrow> program_breaker \<Rightarrow> program_monitor \<Rightarrow> program_event list \<Rightarrow> 'w program \<Rightarrow> 'w program" where
  "triggered_state env d cs h w b m ev s =
     s\<lparr>pr_world := w, pr_breaker := b,
       pr_data := Some (after_triggers (timestamp env) (triggered env s cs) d),
       pr_schedules := Some (marked env s cs),
       pr_history := Some (h @ map (history_entry Automatic (timestamp env))
         (triggered env s cs)), pr_monitor := m, pr_events := ev\<rparr>"

lemma report_triggersE:
  assumes "report_triggers env n d s = Inr s'"
  obtains b where "reported (s\<lparr>pr_breaker := b\<rparr>) s'"
    and "b = pr_breaker s \<or>
      pb_record_success (timestamp env) (pr_breaker s) = (Inr b :: _ pres)"
proof (cases "0 < n")
  case True
  then obtain s1 where s1: "breaker_success env s = Inr s1" "emit_aggregate_stats d s1 = Inr s'"
    using assms by (auto simp: report_triggers_def bnd_Inr)
  show thesis
    by (rule breaker_successE [OF s1(1)])
      (use emit_aggregate_reported [OF s1(2)] that in blast)
next
  case False
  then have "s' = s" using assms by (simp add: report_triggers_def)
  then show thesis using that [of "pr_breaker s"] by simp
qed

lemma triggerE:
  assumes "trigger_program_releases env s = Inr (s', n)"
  obtains d cs h w b m ev where "trigger_open env s d" and "pr_schedules s = Some cs"
    and "pr_history s = Some h"
    and "trigger_loop env cs [] d h 0 (pr_set_entered s) =
      Inr ((pr_set_entered s)\<lparr>pr_world := w, pr_events := ev\<rparr>, marked env s cs,
        after_triggers (timestamp env) (triggered env s cs) d,
        h @ map (history_entry Automatic (timestamp env)) (triggered env s cs), n)"
    and "transfer_chain env (pd_token_address d) (map pay_pair (triggered env s cs))
      (pr_world s) = Some w"
    and "affordable (pd_remaining_balance d) (triggered env s cs)"
    and "n = length (triggered env s cs)"
    and "\<exists>ev'. s' = triggered_state env d cs h w b m ev' s"
    and "quiet (pr_monitor s) \<longrightarrow> quiet m"
    and "b = pr_breaker s \<or>
      pb_record_success (timestamp env) (pr_breaker s) = (Inr b :: _ pres)"
proof -
  let ?now = "timestamp env" and ?s0 = "pr_set_entered s"
  obtain d cs h s1 cs' d' h' s3 where open_: "trigger_open env s d"
    and cs: "pr_schedules s = Some cs" and h: "pr_history s = Some h"
    and loop: "trigger_loop env cs [] d h 0 ?s0 = Inr (s1, cs', d', h', n)"
    and s3: "report_triggers env n d' (s1\<lparr>pr_data := Some d', pr_schedules := Some cs',
        pr_history := Some h'\<rparr>) = Inr s3"
    and s': "s' = pr_clear_entered s3"
    using assms by (auto simp: trigger_program_releases_def trigger_open_def res_simps Let_def
        split: if_splits)
  have "\<not> pr_guard s" using open_ by (simp add: trigger_open_def)
  obtain w ev where run:
      "transfer_chain env (pd_token_address d) (map pay_pair (triggered env s cs)) (pr_world s)
        = Some w"
      "affordable (pd_remaining_balance d) (triggered env s cs)"
      "s1 = ?s0\<lparr>pr_world := w, pr_events := ev\<rparr>" "cs' = marked env s cs"
      "d' = after_triggers ?now (triggered env s cs) d"
      "h' = h @ map (history_entry Automatic ?now) (triggered env s cs)"
      "n = length (triggered env s cs)"
    using trigger_loop_run [OF loop]
    unfolding trigger_run_def diff_zero skips_frame first_due_frame not_disputed_guard
      triggered_def [symmetric] marked_def [symmetric] append_Nil add_0 Pair_inject by blast
  define s2 where "s2 = s1\<lparr>pr_data := Some d', pr_schedules := Some cs', pr_history := Some h'\<rparr>"
  have br: "pr_breaker s2 = pr_breaker s"
    using run(3) by (simp add: s2_def pr_set_entered_def)
  obtain b where b: "reported (s2\<lparr>pr_breaker := b\<rparr>) s3"
    and b_from: "b = pr_breaker s \<or> pb_record_success ?now (pr_breaker s) = (Inr b :: _ pres)"
    by (rule report_triggersE [OF s3 [folded s2_def], unfolded br])
  obtain m ev' where "s3 = s2\<lparr>pr_breaker := b, pr_monitor := m, pr_events := ev'\<rparr>"
      and q: "quiet (pr_monitor (s2\<lparr>pr_breaker := b\<rparr>)) \<longrightarrow> quiet m"
    using reportedE [OF b] by metis
  then have "s' = triggered_state env d cs h w b m ev' s"
    using s' run \<open>\<not> pr_guard s\<close>
    by (cases s) (simp add: triggered_state_def s2_def pr_clear_entered_def pr_set_entered_def)
  moreover have "quiet (pr_monitor s) \<longrightarrow> quiet m"
    using q run(3) by (simp add: s2_def pr_set_entered_def)
  ultimately show thesis
    using open_ cs h loop run b_from by (intro that) auto
qed

end
