(* ===== verification/ProgramSystem.thy ===== *)
theory ProgramSystem
  imports ProgramTrigger
begin

text \<open>
  The program escrow as one machine: a call is one of the entrypoints that change the state, a
  step is a call that returns or a change of the world outside. Every call is simulated by
  moves of the pool (ProgramPool), so the invariant of the pool holds in every reachable state.
\<close>

section \<open>Calls\<close>

datatype program_call =
    Init_program string addr addr
  | Initialize_program string addr addr
  | Lock_program_funds addr i128
  | Lock_program_funds_v2 string addr i128
  | Single_payout addr i128
  | Single_payout_v2 string addr i128
  | Batch_payout "addr list" "i128 list"
  | Batch_payout_v2 string "addr list" "i128 list"
  | Create_schedule i128 u64 addr
  | Trigger_releases
  | Release_manual u64
  | Release_automatic u64
  | Initialize_contract addr
  | Setadmin addr
  | Propose_admin addr
  | Accept_admin addr
  | P_set_paused "bool option" "bool option" "bool option"
  | P_upgrade bytes32
  | Open_dispute dispute_scope string
  | Resolve_dispute dispute_scope
  | Cancel_dispute dispute_scope
  | Set_circuitadmin addr "addr option"
  | P_reset_circuit addr
  | Configure_circuit addr u32 u32 u32
  | Emergency_open addr
  | Update_rate_limit u64 u32 u64
  | Set_fund_caps "i128 option" "i128 option"
  | P_set_whitelist addr bool
  | Set_whitelist_enforced bool
  | Set_rate_limit_whitelist addr bool
  | P_set_governance_contract addr
  | P_set_min_governance_version u32
  | P_execute_governance_proposal u32
  | Set_large_payout_threshold u32

definition only_state :: "('w program \<times> 'a) pres \<Rightarrow> 'w program pres" where
  "only_state r = bnd r (\<lambda>(s, x). Inr s)"

lemma only_state_Inr [res_simps]: "only_state r = Inr s \<longleftrightarrow> (\<exists>x. r = Inr (s, x))"
  by (auto simp: only_state_def res_simps)

fun open_dispute_call :: "'w env \<Rightarrow> dispute_scope \<Rightarrow> string \<Rightarrow> 'w program \<Rightarrow> 'w program pres" where
  "open_dispute_call env Global reason s = open_dispute env s reason"
| "open_dispute_call env (Recipient r) reason s = open_recipient_dispute env s r reason"
| "open_dispute_call env (Schedule i) reason s = open_schedule_dispute env s i reason"

fun resolve_dispute_call :: "'w env \<Rightarrow> dispute_scope \<Rightarrow> 'w program \<Rightarrow> 'w program pres" where
  "resolve_dispute_call env Global s = resolve_dispute env s"
| "resolve_dispute_call env (Recipient r) s = resolve_recipient_dispute env s r"
| "resolve_dispute_call env (Schedule i) s = resolve_schedule_dispute env s i"

fun cancel_dispute_call :: "'w env \<Rightarrow> dispute_scope \<Rightarrow> 'w program \<Rightarrow> 'w program pres" where
  "cancel_dispute_call env Global s = cancel_dispute env s"
| "cancel_dispute_call env (Recipient r) s = cancel_recipient_dispute env s r"
| "cancel_dispute_call env (Schedule i) s = cancel_schedule_dispute env s i"

fun program_exec :: "'w env \<Rightarrow> program_call \<Rightarrow> 'w program \<Rightarrow> 'w program pres" where
  "program_exec env (Init_program i k t) s = only_state (init_program env s i k t)"
| "program_exec env (Initialize_program i k t) s = only_state (initialize_program env s i k t)"
| "program_exec env (Lock_program_funds f a) s = only_state (lock_program_funds env s f a)"
| "program_exec env (Lock_program_funds_v2 i f a) s =
     only_state (lock_program_funds_v2 env s i f a)"
| "program_exec env (Single_payout r a) s = only_state (single_payout env s r a)"
| "program_exec env (Single_payout_v2 i r a) s = only_state (single_payout_v2 env s i r a)"
| "program_exec env (Batch_payout rs as) s = only_state (batch_payout env s rs as)"
| "program_exec env (Batch_payout_v2 i rs as) s = only_state (batch_payout_v2 env s i rs as)"
| "program_exec env (Create_schedule a t r) s =
     only_state (create_program_release_schedule env s a t r)"
| "program_exec env Trigger_releases s = only_state (trigger_program_releases env s)"
| "program_exec env (Release_manual i) s = release_program_schedule_manual env s i"
| "program_exec env (Release_automatic i) s = release_prog_schedule_automatic env s i"
| "program_exec env (Initialize_contract a) s = initialize_contract env s a"
| "program_exec env (Setadmin a) s = setadmin env s a"
| "program_exec env (Propose_admin a) s = propose_admin env s a"
| "program_exec env (Accept_admin a) s = accept_admin env s a"
| "program_exec env (P_set_paused l r f) s = pr_set_paused env s l r f"
| "program_exec env (P_upgrade h) s = pr_upgrade env s h"
| "program_exec env (Open_dispute k r) s = open_dispute_call env k r s"
| "program_exec env (Resolve_dispute k) s = resolve_dispute_call env k s"
| "program_exec env (Cancel_dispute k) s = cancel_dispute_call env k s"
| "program_exec env (Set_circuitadmin a c) s = pr_set_circuitadmin env s a c"
| "program_exec env (P_reset_circuit c) s = pr_reset_circuit_breaker env s c"
| "program_exec env (Configure_circuit c f n l) s = configure_circuit_breaker env s c f n l"
| "program_exec env (Emergency_open c) s = emergency_open_circuit env s c"
| "program_exec env (Update_rate_limit w m c) s = update_rate_limit_config env s w m c"
| "program_exec env (Set_fund_caps t m) s = set_fund_cap_config env s t m"
| "program_exec env (P_set_whitelist a b) s = pr_set_whitelist env s a b"
| "program_exec env (Set_whitelist_enforced b) s = set_whitelist_enforced env s b"
| "program_exec env (Set_rate_limit_whitelist a b) s = set_rate_limit_whitelist env s a b"
| "program_exec env (P_set_governance_contract a) s = pr_set_governance_contract env s a"
| "program_exec env (P_set_min_governance_version v) s = pr_set_min_governance_version env s v"
| "program_exec env (P_execute_governance_proposal i) s =
     pr_execute_governance_proposal env s i"
| "program_exec env (Set_large_payout_threshold b) s = set_large_payout_threshold env s b"

text \<open>A wrapper checks the name of the program and is otherwise the function it wraps.\<close>

fun base_call :: "program_call \<Rightarrow> program_call" where
  "base_call (Init_program i k t) = Init_program i k t"
| "base_call (Lock_program_funds_v2 i f a) = Lock_program_funds f a"
| "base_call (Single_payout_v2 i r a) = Single_payout r a"
| "base_call (Batch_payout_v2 i rs as) = Batch_payout rs as"
| "base_call c = c"

lemma exec_base_call:
  "program_exec env c s = Inr s' \<Longrightarrow> program_exec env (base_call c) s = Inr s'"
  by (cases c) (auto simp: lock_program_funds_v2_def single_payout_v2_def batch_payout_v2_def
      res_simps)

section \<open>Steps\<close>

definition pr_held :: "'w env \<Rightarrow> 'w program \<Rightarrow> int" where
  "pr_held E s = (case pr_data s of None \<Rightarrow> 0
     | Some d \<Rightarrow> balance_of E (pd_token_address d) (current_contract_address E) (pr_world s))"

datatype 'w program_label = Pr_invoke "'w env" program_call | Pr_outside 'w

inductive program_step :: "'w env \<Rightarrow> 'w program \<Rightarrow> 'w program_label \<Rightarrow> 'w program \<Rightarrow> bool"
  for E where
  pr_invoke: "valid_env E env \<Longrightarrow> program_exec env c s = Inr s' \<Longrightarrow>
    program_step E s (Pr_invoke env c) s'"
| pr_outside: "pr_held E s \<le> pr_held E (s\<lparr>pr_world := w\<rparr>) \<Longrightarrow>
    program_step E s (Pr_outside w) (s\<lparr>pr_world := w\<rparr>)"

definition program_initial :: "'w program \<Rightarrow> bool" where
  "program_initial s \<longleftrightarrow> (\<exists>w. s = initial_program w)"

abbreviation program_reachable :: "'w env \<Rightarrow> 'w program \<Rightarrow> bool" where
  "program_reachable E \<equiv> reach program_initial (program_step E)"

inductive_cases program_step_invokeE: "program_step E s (Pr_invoke env c) s'"

section \<open>The pool of a state\<close>

definition pool_at ::
    "'w env \<Rightarrow> program_data \<Rightarrow> release_schedule list \<Rightarrow> release_history list \<Rightarrow> u64 \<Rightarrow> 'w \<Rightarrow> pool"
    where
  "pool_at E d cs h nx w =
     \<lparr>pl_total = pd_total_funds d, pl_remaining = pd_remaining_balance d,
      pl_payouts = pd_payout_history d, pl_schedules = cs, pl_releases = h, pl_next = nx,
      pl_held = balance_of E (pd_token_address d) (current_contract_address E) w\<rparr>"

definition schedules_of :: "'w program \<Rightarrow> release_schedule list" where
  "schedules_of s = (case pr_schedules s of None \<Rightarrow> [] | Some l \<Rightarrow> l)"

definition releases_of :: "'w program \<Rightarrow> release_history list" where
  "releases_of s = (case pr_history s of None \<Rightarrow> [] | Some l \<Rightarrow> l)"

definition next_of :: "'w program \<Rightarrow> u64" where
  "next_of s = (case pr_next_schedule_id s of None \<Rightarrow> 1 | Some n \<Rightarrow> n)"

definition pool_of :: "'w env \<Rightarrow> 'w program \<Rightarrow> pool" where
  "pool_of E s = (case pr_data s of None \<Rightarrow> empty_pool
     | Some d \<Rightarrow> pool_at E d (schedules_of s) (releases_of s) (next_of s) (pr_world s))"

lemma pool_of_Some: "pr_data s = Some d \<Longrightarrow>
    pool_of E s = pool_at E d (schedules_of s) (releases_of s) (next_of s) (pr_world s)"
  by (simp add: pool_of_def)

lemma pool_of_None: "pr_data s = None \<Longrightarrow> pool_of E s = empty_pool"
  by (simp add: pool_of_def)

lemma pool_at_simps [simp]:
  "pl_total (pool_at E d cs h nx w) = pd_total_funds d"
  "pl_remaining (pool_at E d cs h nx w) = pd_remaining_balance d"
  "pl_payouts (pool_at E d cs h nx w) = pd_payout_history d"
  "pl_schedules (pool_at E d cs h nx w) = cs"
  "pl_releases (pool_at E d cs h nx w) = h"
  "pl_next (pool_at E d cs h nx w) = nx"
  "pl_held (pool_at E d cs h nx w) =
     balance_of E (pd_token_address d) (current_contract_address E) w"
  by (simp_all add: pool_at_def)

lemma stored_of_simps [simp]:
  "pr_schedules s = Some cs \<Longrightarrow> schedules_of s = cs"
  "pr_history s = Some h \<Longrightarrow> releases_of s = h"
  "pr_next_schedule_id s = Some n \<Longrightarrow> next_of s = n"
  by (simp_all add: schedules_of_def releases_of_def next_of_def)

section \<open>Settings leave the pool alone\<close>

definition funds_same :: "'w program \<Rightarrow> 'w program \<Rightarrow> bool" where
  "funds_same s s' \<longleftrightarrow> pr_data s' = pr_data s \<and> pr_schedules s' = pr_schedules s \<and>
     pr_history s' = pr_history s \<and> pr_next_schedule_id s' = pr_next_schedule_id s \<and>
     pr_world s' = pr_world s"

fun touches_pool :: "program_call \<Rightarrow> bool" where
  "touches_pool (Init_program _ _ _) \<longleftrightarrow> True"
| "touches_pool (Initialize_program _ _ _) \<longleftrightarrow> True"
| "touches_pool (Lock_program_funds _ _) \<longleftrightarrow> True"
| "touches_pool (Lock_program_funds_v2 _ _ _) \<longleftrightarrow> True"
| "touches_pool (Single_payout _ _) \<longleftrightarrow> True"
| "touches_pool (Single_payout_v2 _ _ _) \<longleftrightarrow> True"
| "touches_pool (Batch_payout _ _) \<longleftrightarrow> True"
| "touches_pool (Batch_payout_v2 _ _ _) \<longleftrightarrow> True"
| "touches_pool (Create_schedule _ _ _) \<longleftrightarrow> True"
| "touches_pool Trigger_releases \<longleftrightarrow> True"
| "touches_pool (Release_manual _) \<longleftrightarrow> True"
| "touches_pool (Release_automatic _) \<longleftrightarrow> True"
| "touches_pool (P_execute_governance_proposal _) \<longleftrightarrow> True"
| "touches_pool _ \<longleftrightarrow> False"

lemma funds_same_fields:
  "pr_data s' = pr_data s \<Longrightarrow> pr_schedules s' = pr_schedules s \<Longrightarrow> pr_history s' = pr_history s \<Longrightarrow>
   pr_next_schedule_id s' = pr_next_schedule_id s \<Longrightarrow> pr_world s' = pr_world s \<Longrightarrow>
   funds_same s s'"
  by (simp add: funds_same_def)

lemma pause_one_fields [simp]:
  "pr_data (pause_one p f a s) = pr_data s"
  "pr_schedules (pause_one p f a s) = pr_schedules s"
  "pr_history (pause_one p f a s) = pr_history s"
  "pr_next_schedule_id (pause_one p f a s) = pr_next_schedule_id s"
  "pr_world (pause_one p f a s) = pr_world s"
  "pr_guard (pause_one p f a s) = pr_guard s"
  "pr_admin (pause_one p f a s) = pr_admin s"
  "pr_pending_admin (pause_one p f a s) = pr_pending_admin s"
  "pr_breaker (pause_one p f a s) = pr_breaker s"
  "pr_disputes (pause_one p f a s) = pr_disputes s"
  "pr_monitor (pause_one p f a s) = pr_monitor s"
  by (simp_all add: pause_one_def pr_emit_def split: option.split)

lemma pr_emit_fields [simp]:
  "pr_data (pr_emit e s) = pr_data s" "pr_schedules (pr_emit e s) = pr_schedules s"
  "pr_history (pr_emit e s) = pr_history s"
  "pr_next_schedule_id (pr_emit e s) = pr_next_schedule_id s"
  "pr_world (pr_emit e s) = pr_world s" "pr_guard (pr_emit e s) = pr_guard s"
  "pr_admin (pr_emit e s) = pr_admin s" "pr_pending_admin (pr_emit e s) = pr_pending_admin s"
  "pr_breaker (pr_emit e s) = pr_breaker s" "pr_disputes (pr_emit e s) = pr_disputes s"
  "pr_monitor (pr_emit e s) = pr_monitor s"
  by (simp_all add: pr_emit_def)

lemmas admin_call_defs = initialize_contract_def setadmin_def propose_admin_def
  accept_admin_def pr_set_paused_def pr_upgrade_def

lemmas dispute_call_defs = open_dispute_def open_recipient_dispute_def open_schedule_dispute_def
  resolve_dispute_def resolve_recipient_dispute_def resolve_schedule_dispute_def
  cancel_dispute_def cancel_recipient_dispute_def cancel_schedule_dispute_def
  open_dispute_at_def resolve_dispute_at_def cancel_dispute_at_def

lemmas config_call_defs = pr_set_circuitadmin_def pr_reset_circuit_breaker_def
  configure_circuit_breaker_def emergency_open_circuit_def update_rate_limit_config_def
  set_fund_cap_config_def pr_set_whitelist_def set_whitelist_enforced_def
  set_rate_limit_whitelist_def pr_set_governance_contract_def pr_set_min_governance_version_def
  set_large_payout_threshold_def

text \<open>A dispute call changes the disputes and the events.\<close>

lemma dispute_call_frame:
  "open_dispute_call env k r s = Inr s' \<Longrightarrow>
    \<exists>ds ev. s' = s\<lparr>pr_disputes := ds, pr_events := ev\<rparr>"
  "resolve_dispute_call env k s = Inr s' \<Longrightarrow>
    \<exists>ds ev. s' = s\<lparr>pr_disputes := ds, pr_events := ev\<rparr>"
  "cancel_dispute_call env k s = Inr s' \<Longrightarrow>
    \<exists>ds ev. s' = s\<lparr>pr_disputes := ds, pr_events := ev\<rparr>"
  by (cases k; auto simp: dispute_call_defs res_simps Let_def pr_emit_def split: if_splits)+

lemma settings_funds_same:
  assumes "program_exec env c s = Inr s'" and "\<not> touches_pool c"
  shows "funds_same s s'"
  using assms
  by (cases c)
    (auto simp: admin_call_defs config_call_defs res_simps Let_def funds_same_def
      split: if_splits dest!: dispute_call_frame)

section \<open>Every call is a sequence of moves\<close>

text \<open>The four pool cells are written together at initialisation.\<close>

definition stored_ok :: "'w program \<Rightarrow> bool" where
  "stored_ok s \<longleftrightarrow> (pr_schedules s = None \<longleftrightarrow> pr_data s = None) \<and>
     (pr_history s = None \<longleftrightarrow> pr_data s = None) \<and>
     (pr_next_schedule_id s = None \<longleftrightarrow> pr_data s = None)"

fun is_release :: "pool_move \<Rightarrow> bool" where
  "is_release (Release k i) \<longleftrightarrow> True"
| "is_release _ \<longleftrightarrow> False"

fun single_release :: "program_call \<Rightarrow> bool" where
  "single_release (Release_manual i) \<longleftrightarrow> True"
| "single_release (Release_automatic i) \<longleftrightarrow> True"
| "single_release _ \<longleftrightarrow> False"

definition moves :: "pool \<Rightarrow> bool \<Rightarrow> pool \<Rightarrow> bool" where
  "moves k releases k' \<longleftrightarrow>
     (\<exists>ms. pool_steps k ms k' \<and> (\<not> releases \<longrightarrow> list_all (\<lambda>m. \<not> is_release m) ms))"

lemma moves_one: "pool_step k m k' \<Longrightarrow> \<not> is_release m \<or> r \<Longrightarrow> moves k r k'"
  unfolding moves_def by (rule exI [of _ "[m]"]) (auto intro: pool_steps_single)

lemma moves_none: "moves k r k"
  unfolding moves_def by (rule exI [of _ "[]"]) (simp add: no_moves)

lemma moves_Cons: "pool_step k m k1 \<Longrightarrow> \<not> is_release m \<Longrightarrow> moves k1 r k2 \<Longrightarrow> moves k r k2"
  unfolding moves_def by (metis some_moves list.pred_inject(2))

lemma pool_of_same: "funds_same s s' \<Longrightarrow> pool_of E s' = pool_of E s"
  by (cases "pr_data s")
    (simp_all add: funds_same_def pool_of_def schedules_of_def releases_of_def next_of_def)

lemma stored_ok_same: "funds_same s s' \<Longrightarrow> stored_ok s \<Longrightarrow> stored_ok s'"
  by (simp add: funds_same_def stored_ok_def)

lemma valid_envD:
  assumes "valid_env E env"
  shows "current_contract_address env = current_contract_address E" and "sep41 env t"
    and "balance_of E t x w = balance_of env t x w" and "0 \<le> balance_of E t x w"
    and "\<not> authorized env (current_contract_address E)"
    and "balance_of E t (current_contract_address E) w
      \<le> balance_of E t (current_contract_address E) (snd (gv_execute_proposal env g p w))"
  using assms by (auto simp: valid_env_def balance_of_def gov_harmless_def)

text \<open>One transfer out, as the pool sees it.\<close>

lemma pays_out:
  assumes "valid_env E env"
    and "tk_transfer env t (current_contract_address env) r a w = Some w'"
  shows "balance_of E t (current_contract_address E) w - a
      \<le> balance_of E t (current_contract_address E) w'"
    and "a \<le> balance_of E t (current_contract_address E) w"
  using sep41_out [OF valid_envD(2) [OF assms(1)] assms(2)]
    valid_envD(1,3) [OF assms(1)] valid_envD(2) [OF assms(1), of t] assms(2)
  by (auto simp: sep41_def)

lemma chain_pays_out:
  assumes "valid_env E env" and "transfer_chain env t ps w = Some w'"
  shows "balance_of E t (current_contract_address E) w - (\<Sum>p\<leftarrow>ps. snd p)
    \<le> balance_of E t (current_contract_address E) w'"
  using assms(2)
proof (induction ps arbitrary: w)
  case (Cons p ps)
  then obtain w1 where "tk_transfer env t (current_contract_address env) (fst p) (snd p) w = Some w1"
    and "transfer_chain env t ps w1 = Some w'"
    by (auto split: option.splits)
  then show ?case using pays_out(1) [OF assms(1)] Cons.IH by fastforce
qed simp

lemma init_moves:
  assumes "valid_env E env" and "initialize_program env s i k t = Inr (s', d)" and "stored_ok s"
  shows "stored_ok s' \<and> moves (pool_of E s) r (pool_of E s')"
proof -
  have s': "pr_data s = None" "pr_data s' = Some d" "pr_schedules s' = Some []"
      "pr_history s' = Some []" "pr_next_schedule_id s' = Some 1"
      "pr_world s' = pr_world s" "pd_total_funds d = 0" "pd_remaining_balance d = 0"
      "pd_payout_history d = []"
    using assms(2) by (auto simp: initialize_program_def Let_def split: if_splits)
  have "pool_step (pool_of E s) Idle (empty_pool\<lparr>pl_held :=
      balance_of E (pd_token_address d) (current_contract_address E) (pr_world s)\<rparr>)"
    unfolding pool_of_None [OF s'(1)]
    by (rule pool_step.idle) (simp add: empty_pool_def valid_envD(4) [OF assms(1)])
  moreover have "pool_of E s' = empty_pool\<lparr>pl_held :=
      balance_of E (pd_token_address d) (current_contract_address E) (pr_world s)\<rparr>"
    using s' by (simp add: pool_of_Some pool_at_def empty_pool_def)
  ultimately show ?thesis
    using s' by (auto simp: stored_ok_def intro: moves_one)
qed

lemma init_program_moves:
  assumes "valid_env E env" and "init_program env s i k t = Inr (s', d)" and "stored_ok s"
  shows "stored_ok s' \<and> moves (pool_of E s) r (pool_of E s')"
proof -
  obtain s1 s2 where s1: "initialize_program env s i k t = Inr (s1, d)"
    and s2: "pr_track env ''init'' k True s1 = Inr s2"
    and s3: "pr_perf env ''init'' (timestamp env - timestamp env) s2 = Inr s'"
    using assms(2) by (auto simp: init_program_def Let_def bnd_Inr)
  have "reported s1 s'"
    using pr_track_reported [OF s2] pr_perf_reported [OF s3] by (rule reported_trans)
  then obtain m ev where "s' = s1\<lparr>pr_monitor := m, pr_events := ev\<rparr>"
    using reportedE by blast
  then have "funds_same s1 s'" by (simp add: funds_same_def)
  then show ?thesis
    using init_moves [OF assms(1) s1 assms(3)] pool_of_same stored_ok_same by metis
qed

lemma lock_moves:
  assumes "valid_env E env" and "lock_program_funds env s f amt = Inr (s', d')" and "stored_ok s"
  shows "stored_ok s' \<and> moves (pool_of E s) r (pool_of E s')"
proof -
  let ?me = "current_contract_address E"
  obtain rates d w m ev bal where ok: "authorized env f" "0 < amt" "pr_data s = Some d"
    and w: "tk_transfer env (pd_token_address d) f ?me amt (pr_world s) = Some w"
    and bal: "tk_balance env (pd_token_address d) ?me w = Some bal"
      "pd_remaining_balance d + amt \<le> bal"
    and d': "d' = d\<lparr>pd_total_funds := pd_total_funds d + amt,
      pd_remaining_balance := pd_remaining_balance d + amt\<rparr>"
    and s': "s' = s\<lparr>pr_rates := rates, pr_world := w, pr_data := Some d', pr_monitor := m,
      pr_events := ev\<rparr>"
    by (rule lock_program_fundsE [OF assms(2), unfolded valid_envD(1) [OF assms(1)]])
      (rule that; assumption)
  have "f \<noteq> ?me" using ok(1) valid_envD(5) [OF assms(1)] by auto
  then have h: "balance_of E (pd_token_address d) ?me w =
      balance_of E (pd_token_address d) ?me (pr_world s) + amt"
    using sep41_in [OF valid_envD(2) [OF assms(1)] w] valid_envD(3) [OF assms(1)] by simp
  have "balance_of E (pd_token_address d) ?me w = bal"
    using bal(1) valid_envD(3) [OF assms(1)] by (simp add: balance_of_def)
  then have "pool_step (pool_of E s) (Fund amt) (pool_of E s')"
    using pool_step.fund [of amt _ "pool_of E s"] ok h bal(2)
    by (simp add: pool_of_Some s' d' pool_at_def schedules_of_def releases_of_def next_of_def)
  then show ?thesis
    using assms(3) ok s' by (auto simp: stored_ok_def intro: moves_one)
qed

lemma pay_moves:
  assumes "valid_env E env" and "pr_data s = Some d" and "stored_ok s"
    and "transfer_chain env (pd_token_address d) ps (pr_world s) = Some w"
    and "\<forall>p\<in>set ps. 0 < snd p" and "(\<Sum>p\<leftarrow>ps. snd p) \<le> pd_remaining_balance d"
    and "s' = s\<lparr>pr_world := w, pr_breaker := b, pr_data := Some (d\<lparr>pd_remaining_balance :=
      pd_remaining_balance d - (\<Sum>p\<leftarrow>ps. snd p),
      pd_payout_history := pd_payout_history d @ payouts_of now ps\<rparr>), pr_monitor := m,
      pr_events := ev\<rparr>"
  shows "stored_ok s' \<and> moves (pool_of E s) r (pool_of E s')"
proof -
  let ?me = "current_contract_address E"
  have sums: "paid_sum (payouts_of now ps) = (\<Sum>p\<leftarrow>ps. snd p)"
      "\<forall>p\<in>set (payouts_of now ps). 0 < py_amount p"
    using assms(5) by (auto simp: payouts_of_def comp_def)
  have "pool_step (pool_of E s) (Pay (payouts_of now ps)) (pool_of E s')"
    using pool_step.pay [OF sums(2), where k = "pool_of E s"
        and h = "balance_of E (pd_token_address d) ?me w"]
      chain_pays_out [OF assms(1,4)] assms(2,6)
    by (simp add: pool_of_Some assms(7) pool_at_def schedules_of_def releases_of_def next_of_def
        sums(1))
  then show ?thesis
    using assms(2,3,7) by (auto simp: stored_ok_def intro: moves_one)
qed

lemma single_payout_moves:
  assumes "valid_env E env" and "single_payout env s x amt = Inr (s', d')" and "stored_ok s"
  shows "stored_ok s' \<and> moves (pool_of E s) r (pool_of E s')"
proof -
  obtain d w b m ev where ok: "payout_open env s d" "0 < amt" "amt \<le> pd_remaining_balance d"
    and w: "tk_transfer env (pd_token_address d) (current_contract_address env) x amt (pr_world s)
      = Some w"
    and d': "d' = d\<lparr>pd_remaining_balance := pd_remaining_balance d - amt,
      pd_payout_history := pd_payout_history d @
        [\<lparr>py_recipient = x, py_amount = amt, py_timestamp = timestamp env\<rparr>]\<rparr>"
    and s': "s' = s\<lparr>pr_world := w, pr_breaker := b, pr_data := Some d', pr_monitor := m,
      pr_events := ev\<rparr>"
    by (rule single_payoutE [OF assms(2)]) (rule that; assumption)
  show ?thesis
  proof (rule pay_moves [OF assms(1) _ assms(3)])
    show "pr_data s = Some d" using ok by (simp add: payout_open_def)
    show "transfer_chain env (pd_token_address d) [(x, amt)] (pr_world s) = Some w"
      using w by simp
    show "s' = s\<lparr>pr_world := w, pr_breaker := b, pr_data := Some (d\<lparr>pd_remaining_balance :=
      pd_remaining_balance d - (\<Sum>p\<leftarrow>[(x, amt)]. snd p), pd_payout_history :=
        pd_payout_history d @ payouts_of (timestamp env) [(x, amt)]\<rparr>), pr_monitor := m,
      pr_events := ev\<rparr>"
      using s' d' by (simp add: payouts_of_def)
  qed (use ok in simp_all)
qed

lemma sum_snd_zip: "length rs = length as \<Longrightarrow> (\<Sum>p\<leftarrow>zip rs as. snd p) = sum_list as"
  by simp

lemma batch_payout_moves:
  assumes "valid_env E env" and "batch_payout env s rs as = Inr (s', d')" and "stored_ok s"
  shows "stored_ok s' \<and> moves (pool_of E s) r (pool_of E s')"
proof -
  obtain d w b m ev where ok: "payout_open env s d" "length rs = length as"
      "\<forall>a\<in>set as. 0 < a" "sum_list as \<le> pd_remaining_balance d"
    and w: "transfer_chain env (pd_token_address d) (zip rs as) (pr_world s) = Some w"
    and d': "d' = d\<lparr>pd_payout_history := pd_payout_history d @
        payouts_of (timestamp env) (zip rs as),
      pd_remaining_balance := pd_remaining_balance d - sum_list as\<rparr>"
    and s': "s' = s\<lparr>pr_world := w, pr_breaker := b, pr_data := Some d', pr_monitor := m,
      pr_events := ev\<rparr>"
    by (rule batch_payoutE [OF assms(2)]) (rule that; assumption)
  show ?thesis
  proof (rule pay_moves [OF assms(1) _ assms(3) w])
    show "pr_data s = Some d" using ok by (simp add: payout_open_def)
    show "s' = s\<lparr>pr_world := w, pr_breaker := b, pr_data := Some (d\<lparr>pd_remaining_balance :=
      pd_remaining_balance d - (\<Sum>p\<leftarrow>zip rs as. snd p), pd_payout_history :=
        pd_payout_history d @ payouts_of (timestamp env) (zip rs as)\<rparr>), pr_monitor := m,
      pr_events := ev\<rparr>"
      using s' d' sum_snd_zip [OF ok(2)] by simp
    show "\<forall>p\<in>set (zip rs as). 0 < snd p"
      using ok(3) by (auto dest: set_zip_rightD)
    show "(\<Sum>p\<leftarrow>zip rs as. snd p) \<le> pd_remaining_balance d"
      using ok(4) sum_snd_zip [OF ok(2)] by simp
  qed
qed

lemma create_moves:
  assumes "create_program_release_schedule env s amt at x = Inr (s', c)" and "stored_ok s"
  shows "stored_ok s' \<and> moves (pool_of E s) r (pool_of E s')"
proof -
  obtain d cs where ok: "pr_data s = Some d" "0 < amt" "pr_schedules s = Some cs"
    and c: "c = \<lparr>sc_schedule_id = next_of s, sc_recipient = x, sc_amount = amt,
      sc_release_timestamp = at, sc_released = False, sc_released_at = None,
      sc_released_by = None\<rparr>"
    and s': "s' = s\<lparr>pr_schedules := Some (cs @ [c]), pr_next_schedule_id := Some (next_of s + 1)\<rparr>"
    by (rule create_scheduleE [OF assms(1), folded next_of_def]) (rule that; simp)
  have "pool_step (pool_of E s) (Plan (pl_next (pool_of E s))) (pool_of E s')"
    using pool_step.plan [of c "pool_of E s"] ok c
    by (simp add: pool_of_Some s' pool_at_def releases_of_def schedules_of_def next_of_def)
  then show ?thesis
    using assms(2) ok s' by (auto simp: stored_ok_def intro: moves_one)
qed

lemma trigger_loop_moves:
  assumes "valid_env E env"
    and "trigger_loop env cs passed d h n s = Inr (s', cs', d', h', n')"
  shows "moves (pool_at E d (passed @ cs) h nx (pr_world s)) r
    (pool_at E d' cs' h' nx (pr_world s'))"
  using assms(2)
proof (induction cs arbitrary: passed d h n s)
  case Nil
  then show ?case by (simp add: moves_none)
next
  case (Cons c cs)
  let ?now = "timestamp env" and ?me = "current_contract_address env"
  consider (full) "MAX_BATCH_PAYOUT \<le> n" | (skip) "n < MAX_BATCH_PAYOUT" "skips ?now s c"
    | (due) "n < MAX_BATCH_PAYOUT" "\<not> skips ?now s c" by linarith
  then show ?case
  proof cases
    case full
    then have "(s', cs', d', h', n') = (s, passed @ c # cs, d, h, n)"
      using Cons.prems by simp
    then show ?thesis by (simp add: moves_none)
  next
    case skip
    then show ?thesis using Cons.IH [of "passed @ [c]"] Cons.prems by simp
  next
    case due
    let ?e = "ScheduleTriggeredEvent (pd_program_id d) (sc_schedule_id c) (sc_recipient c)
      (sc_amount c) Automatic"
    obtain w where w: "sc_amount c \<le> pd_remaining_balance d"
        "tk_transfer env (pd_token_address d) ?me (sc_recipient c) (sc_amount c) (pr_world s)
          = Some w"
      and loop: "trigger_loop env cs (passed @ [released_by_at ?me ?now c])
        (after_triggers ?now [c] d) (h @ [history_entry Automatic ?now c]) (n + 1)
        (pr_emit ?e (s\<lparr>pr_world := w\<rparr>)) = Inr (s', cs', d', h', n')"
      using trigger_loop_ConsE [OF Cons.prems due] by metis
    have c: "\<not> sc_released c" "sc_release_timestamp c \<le> ?now"
      using due(2) by (auto simp: skips_def)
    have "pool_step (pool_at E d (passed @ c # cs) h nx (pr_world s)) (Trigger (sc_schedule_id c))
        (pool_at E (after_triggers ?now [c] d) ((passed @ [released_by_at ?me ?now c]) @ cs)
          (h @ [history_entry Automatic ?now c]) nx w)"
      using pool_step.trigger [where k = "pool_at E d (passed @ c # cs) h nx (pr_world s)" and
          before = passed and c = c and after = cs and now = ?now and who = ?me and
          h = "balance_of E (pd_token_address d) (current_contract_address E) w"]
        c w(1) pays_out(1) [OF assms(1) w(2)]
      by (simp add: pool_at_def after_triggers_def)
    moreover have "moves (pool_at E (after_triggers ?now [c] d)
        ((passed @ [released_by_at ?me ?now c]) @ cs) (h @ [history_entry Automatic ?now c]) nx w)
      r (pool_at E d' cs' h' nx (pr_world s'))"
      using Cons.IH [OF loop] by (simp add: emit_world)
    ultimately show ?thesis using moves_Cons is_release.simps by metis
  qed
qed

lemma trigger_moves:
  assumes "valid_env E env" and "trigger_program_releases env s = Inr (s', n)" and "stored_ok s"
  shows "stored_ok s' \<and> moves (pool_of E s) r (pool_of E s')"
proof -
  let ?now = "timestamp env"
  obtain d cs h w b m ev ev' where open_: "trigger_open env s d"
    and cs: "pr_schedules s = Some cs" "pr_history s = Some h"
    and loop: "trigger_loop env cs [] d h 0 (pr_set_entered s) =
      Inr ((pr_set_entered s)\<lparr>pr_world := w, pr_events := ev\<rparr>, marked env s cs,
        after_triggers ?now (triggered env s cs) d,
        h @ map (history_entry Automatic ?now) (triggered env s cs), n)"
    and s': "s' = triggered_state env d cs h w b m ev' s"
    by (rule triggerE [OF assms(2)]) (erule exE, rule that; assumption)
  have d: "pr_data s = Some d" using open_ by (simp add: trigger_open_def)
  have "moves (pool_at E d cs h (next_of s) (pr_world s)) r
      (pool_at E (after_triggers ?now (triggered env s cs) d) (marked env s cs)
        (h @ map (history_entry Automatic ?now) (triggered env s cs)) (next_of s) w)"
    using trigger_loop_moves [OF assms(1) loop, where nx = "next_of s" and r = r] by simp
  then show ?thesis
    using cs d assms(3) s'
    by (auto simp: pool_of_Some triggered_state_def stored_ok_def schedules_of_def
        releases_of_def next_of_def)
qed

lemma release_moves:
  assumes "valid_env E env" and "release_open env s d c" and "pr_schedules s = Some cs"
    and "split_at i [] cs = Some (before, c, after)"
    and "release_schedule_of env kind who d before c after (pr_set_entered s) = Inr s'"
    and "kind = Automatic \<longrightarrow> sc_release_timestamp c \<le> timestamp env"
    and "stored_ok s"
  shows "stored_ok s' \<and> moves (pool_of E s) True (pool_of E s')"
proof -
  let ?me = "current_contract_address E"
  have open_: "\<not> pr_guard s" "pr_data s = Some d" "\<not> sc_released c"
    using assms(2) by (simp_all add: release_open_def)
  obtain w b ev h where w: "tk_transfer env (pd_token_address d) (current_contract_address env)
      (sc_recipient c) (sc_amount c) (pr_world s) = Some w"
    and h: "pr_history s = Some h"
    and s': "s' = released_state env kind who d before c after h w b ev s"
    by (rule release_schedule_ofE [OF assms(5) open_(1)]) (rule that; assumption)
  have cs: "cs = before @ c # after" using split_at_append [OF assms(4)] by simp
  have "pool_step (pool_of E s) (Release kind (sc_schedule_id c)) (pool_of E s')"
    using pool_step.release [where k = "pool_of E s" and before = before and c = c and
        after = "after" and kind = kind and now = "timestamp env" and who = who and
        h = "balance_of E (pd_token_address d) ?me w"]
      pays_out [OF assms(1) w] open_ assms(3,6) h cs
    by (simp add: pool_of_Some s' released_state_def pool_at_def schedules_of_def releases_of_def
        next_of_def)
  then show ?thesis
    using assms(3,7) open_ h s'
    by (auto simp: stored_ok_def released_state_def intro: moves_one)
qed

lemma governance_moves:
  assumes "valid_env E env" and "pr_execute_governance_proposal env s i = Inr s'"
    and "stored_ok s"
  shows "stored_ok s' \<and> moves (pool_of E s) r (pool_of E s')"
proof -
  obtain w where w: "s' = s\<lparr>pr_world := w\<rparr>"
    and src: "w = pr_world s \<or> (\<exists>g. w = snd (gv_execute_proposal env g i (pr_world s)))"
    using assms(2)
    by (auto simp: pr_execute_governance_proposal_def pg_execute_governance_proposal_def
        res_simps split: option.splits if_splits) (metis snd_conv)
  have "moves (pool_of E s) r (pool_of E s')"
  proof (cases "pr_data s")
    case None
    then show ?thesis using w by (simp add: pool_of_None moves_none)
  next
    case (Some d)
    let ?b = "balance_of E (pd_token_address d) (current_contract_address E)"
    have "?b (pr_world s) \<le> ?b w"
      using src valid_envD(6) [OF assms(1)] by auto
    then have "pool_step (pool_of E s) Idle (pool_of E s')"
      using pool_step.idle [of "pool_of E s" "?b w"] Some w
      by (simp add: pool_of_Some pool_at_def schedules_of_def releases_of_def next_of_def)
    then show ?thesis by (rule moves_one) simp
  qed
  then show ?thesis using assms(3) w by (simp add: stored_ok_def)
qed

lemma pool_call_moves:
  assumes "valid_env E env" and "program_exec env (base_call c) s = Inr s'" and "stored_ok s"
    and "touches_pool c" and "\<not> single_release c"
  shows "stored_ok s' \<and> moves (pool_of E s) False (pool_of E s')"
proof -
  note plain = init_program_moves [OF assms(1) _ assms(3), where r = False]
    init_moves [OF assms(1) _ assms(3), where r = False]
    lock_moves [OF assms(1) _ assms(3), where r = False]
    single_payout_moves [OF assms(1) _ assms(3), where r = False]
    batch_payout_moves [OF assms(1) _ assms(3), where r = False]
    create_moves [OF _ assms(3), where r = False]
    trigger_moves [OF assms(1) _ assms(3), where r = False]
    governance_moves [OF assms(1) _ assms(3), where r = False]
  show ?thesis using assms(2,4,5) by (cases c) (auto simp: only_state_Inr dest: plain)
qed

lemma single_release_moves:
  assumes "valid_env E env" and "program_exec env c s = Inr s'" and "stored_ok s"
    and "single_release c"
  shows "stored_ok s' \<and> moves (pool_of E s) True (pool_of E s')"
proof -
  note release = release_moves [OF assms(1) _ _ _ _ _ assms(3)]
  consider (manual) i where "release_program_schedule_manual env s i = Inr s'"
    | (automatic) i where "release_prog_schedule_automatic env s i = Inr s'"
    using assms(2,4) by (cases c) auto
  then show ?thesis
  proof cases
    case manual
    then show ?thesis by (rule release_manualE) (rule release, assumption+, simp)
  next
    case automatic
    then show ?thesis by (rule release_automaticE) (rule release, assumption+, simp)
  qed
qed

lemma program_exec_moves:
  assumes "valid_env E env" and "program_exec env c s = Inr s'" and "stored_ok s"
  shows "stored_ok s' \<and> moves (pool_of E s) (single_release c) (pool_of E s')"
proof -
  consider "\<not> touches_pool c" | "touches_pool c" "\<not> single_release c" | "single_release c"
    by blast
  then show ?thesis
  proof cases
    case 1
    then have "funds_same s s'" by (rule settings_funds_same [OF assms(2)])
    then show ?thesis using assms(3) by (simp add: pool_of_same stored_ok_same moves_none)
  next
    case 2
    then show ?thesis
      using pool_call_moves [OF assms(1) exec_base_call [OF assms(2)] assms(3)] by simp
  next
    case 3
    then show ?thesis using single_release_moves [OF assms] by simp
  qed
qed

lemma outside_moves:
  assumes "pr_held E s \<le> pr_held E (s\<lparr>pr_world := w\<rparr>)"
  shows "moves (pool_of E s) r (pool_of E (s\<lparr>pr_world := w\<rparr>))"
proof (cases "pr_data s")
  case None
  then show ?thesis by (simp add: pool_of_None moves_none)
next
  case (Some d)
  have "pool_step (pool_of E s) Idle (pool_of E (s\<lparr>pr_world := w\<rparr>))"
    using pool_step.idle [of "pool_of E s"
        "balance_of E (pd_token_address d) (current_contract_address E) w"] Some assms
    by (simp add: pool_of_Some pool_at_def pr_held_def schedules_of_def releases_of_def
        next_of_def)
  then show ?thesis by (rule moves_one) simp
qed

section \<open>Invariants of the contract\<close>

lemma stored_init: "program_initial s \<Longrightarrow> stored_ok s"
  by (auto simp: program_initial_def initial_program_def stored_ok_def)

lemma stored_step: "stored_ok s \<Longrightarrow> program_step E s l t \<Longrightarrow> stored_ok t"
  by (erule program_step.cases) (blast dest: program_exec_moves, simp add: stored_ok_def)

interpretation stored_inv: invariant_system program_initial "program_step E" stored_ok
  by unfold_locales (erule stored_init, erule (1) stored_step)

lemma program_step_moves:
  assumes "stored_ok s" and "program_step E s l t"
  shows "moves (pool_of E s) (\<exists>env c. l = Pr_invoke env c \<and> single_release c) (pool_of E t)"
  using assms(2)
proof (cases rule: program_step.cases)
  case (pr_invoke env c)
  then show ?thesis using program_exec_moves [OF pr_invoke(2,3) assms(1)] by simp
next
  case (pr_outside w)
  show ?thesis unfolding pr_outside(2) by (rule outside_moves [OF pr_outside(3)])
qed

lemma moves_ok: "moves k r k' \<Longrightarrow> pool_ok k \<Longrightarrow> pool_ok k'"
  by (auto simp: moves_def intro: pool_steps_ok)

lemma initial_pool: "program_initial s \<Longrightarrow> pool_of E s = empty_pool"
  by (auto simp: program_initial_def initial_program_def pool_of_def)

lemma pool_init: "program_initial s \<Longrightarrow> pool_ok (pool_of E s)"
  by (simp add: initial_pool empty_pool_ok)

lemma pool_ok_step:
  "stored_ok s \<Longrightarrow> stored_ok t \<Longrightarrow> pool_ok (pool_of E s) \<Longrightarrow> program_step E s l t \<Longrightarrow>
   pool_ok (pool_of E t)"
  using program_step_moves moves_ok by blast

interpretation pool_inv: relative_invariant program_initial "program_step E" stored_ok
  "\<lambda>s. pool_ok (pool_of E s)"
  by unfold_locales (erule pool_init, erule (3) pool_ok_step)

lemmas reachable_stored_ok = stored_inv.reach_inv
lemmas reachable_pool_ok = pool_inv.reach_rel

end
