(* ===== verification/ProgramGuards.thy ===== *)
theory ProgramGuards
  imports ProgramSystem
begin

text \<open>
  What calls of the program escrow leave alone, and the invariants that follow: the reentrancy
  guard is down between calls, the monitoring never sees an error, only the circuit admin
  opens the breaker, and the admin changes only by the two-step rotation.
\<close>

section \<open>Frames\<close>

text \<open>
  An operation on the pool writes the pool, the limiter's counters, the monitor, the events
  and the breaker, the last only by reporting a success.
\<close>

definition operated :: "'w env \<Rightarrow> 'w program \<Rightarrow> 'w program \<Rightarrow> bool" where
  "operated env s s' \<longleftrightarrow>
     s' = s\<lparr>pr_data := pr_data s', pr_schedules := pr_schedules s', pr_history := pr_history s',
       pr_next_schedule_id := pr_next_schedule_id s', pr_rates := pr_rates s',
       pr_breaker := pr_breaker s', pr_monitor := pr_monitor s', pr_events := pr_events s',
       pr_world := pr_world s'\<rparr> \<and>
     (pr_breaker s' = pr_breaker s \<or>
       pb_record_success (timestamp env) (pr_breaker s) = (Inr (pr_breaker s') :: _ pres)) \<and>
     (quiet (pr_monitor s) \<longrightarrow> quiet (pr_monitor s'))"

lemma init_operated: "initialize_program env s i k t = Inr (s', d) \<Longrightarrow> operated env s s'"
  by (auto simp: initialize_program_def operated_def pr_emit_def Let_def split: if_splits)

lemma reported_operated: "operated env s s1 \<Longrightarrow> reported s1 s' \<Longrightarrow> operated env s s'"
  unfolding operated_def reported_def
  by (cases s; cases s1; cases s') auto

lemma init_program_operated:
  assumes "init_program env s i k t = Inr (s', d)"
  shows "operated env s s'"
proof -
  obtain s1 s2 where s1: "initialize_program env s i k t = Inr (s1, d)"
    and s2: "pr_track env ''init'' k True s1 = Inr s2"
    and s3: "pr_perf env ''init'' (timestamp env - timestamp env) s2 = Inr s'"
    using assms by (auto simp: init_program_def Let_def bnd_Inr)
  show ?thesis
    using reported_operated [OF init_operated [OF s1] reported_trans
        [OF pr_track_reported [OF s2] pr_perf_reported [OF s3]]] .
qed

lemma lock_operated:
  assumes "lock_program_funds env s f amt = Inr (s', d')"
  shows "operated env s s'"
  by (rule lock_program_fundsE [OF assms]) (simp add: operated_def)

lemma single_payout_operated:
  assumes "single_payout env s x amt = Inr (s', d')"
  shows "operated env s s'"
  by (rule single_payoutE [OF assms]) (simp add: operated_def)

lemma batch_payout_operated:
  assumes "batch_payout env s rs as = Inr (s', d')"
  shows "operated env s s'"
  by (rule batch_payoutE [OF assms]) (simp add: operated_def)

lemma create_operated:
  assumes "create_program_release_schedule env s amt at x = Inr (s', c)"
  shows "operated env s s'"
  by (rule create_scheduleE [OF assms]) (simp add: operated_def)

lemma trigger_operated:
  assumes "trigger_program_releases env s = Inr (s', n)"
  shows "operated env s s'"
  by (rule triggerE [OF assms]) (auto simp: operated_def triggered_state_def)

lemma release_operated:
  assumes "release_schedule_of env kind who d before c after (pr_set_entered s) = Inr s'"
    and "release_open env s d c"
  shows "operated env s s'"
proof -
  have "\<not> pr_guard s" using assms(2) by (simp add: release_open_def)
  show ?thesis
    by (rule release_schedule_ofE [OF assms(1) \<open>\<not> pr_guard s\<close>])
      (simp add: operated_def released_state_def)
qed

lemma governance_operated:
  "pr_execute_governance_proposal env s i = Inr s' \<Longrightarrow> operated env s s'"
  by (auto simp: pr_execute_governance_proposal_def res_simps operated_def split: if_splits)

lemma pool_call_operated:
  assumes "program_exec env c s = Inr s'" and "touches_pool c"
  shows "operated env s s'"
proof -
  have "program_exec env (base_call c) s = Inr s'" by (rule exec_base_call [OF assms(1)])
  then show ?thesis
    using assms(2)
    by (cases c)
      (auto simp: only_state_Inr dest: init_operated init_program_operated lock_operated
        single_payout_operated batch_payout_operated create_operated trigger_operated
        governance_operated elim!: release_manualE release_automaticE
        intro: release_operated)
qed

section \<open>The reentrancy guard\<close>

lemma settings_guard_quiet:
  assumes "program_exec env c s = Inr s'" and "\<not> touches_pool c"
  shows "pr_guard s' = pr_guard s \<and> (quiet (pr_monitor s) \<longrightarrow> quiet (pr_monitor s'))"
  using assms
  by (cases c)
    (auto simp: admin_call_defs config_call_defs res_simps Let_def quiet_def
      set_large_payout_threshold_bps_def split: if_splits dest!: dispute_call_frame)

text \<open>The cells that an operation on the pool does not write.\<close>

lemma operated_same:
  assumes "operated env s s'" and "\<And>d cs h n r b m ev w.
    f (s\<lparr>pr_data := d, pr_schedules := cs, pr_history := h, pr_next_schedule_id := n,
      pr_rates := r, pr_breaker := b, pr_monitor := m, pr_events := ev, pr_world := w\<rparr>) = f s"
  shows "f s' = f s"
proof -
  have "f s' = f (s\<lparr>pr_data := pr_data s', pr_schedules := pr_schedules s',
      pr_history := pr_history s', pr_next_schedule_id := pr_next_schedule_id s',
      pr_rates := pr_rates s', pr_breaker := pr_breaker s', pr_monitor := pr_monitor s',
      pr_events := pr_events s', pr_world := pr_world s'\<rparr>)"
    using assms(1) unfolding operated_def by (elim conjE) (rule arg_cong)
  then show ?thesis unfolding assms(2) .
qed

lemmas operated_guard = operated_same [where f = pr_guard, simplified]
lemmas operated_admin = operated_same [where f = pr_admin, simplified]
lemmas operated_pending = operated_same [where f = pr_pending_admin, simplified]

definition at_rest :: "'w program \<Rightarrow> bool" where
  "at_rest s \<longleftrightarrow> \<not> pr_guard s \<and> quiet (pr_monitor s)"

lemma at_rest_init: "program_initial s \<Longrightarrow> at_rest s"
  by (auto simp: program_initial_def initial_program_def at_rest_def quiet_def
      empty_program_monitor_def empty_monitor_def)

lemma at_rest_call:
  assumes "program_exec env c s = Inr s'" and "at_rest s"
  shows "at_rest s'"
proof (cases "touches_pool c")
  case True
  then have "operated env s s'" using pool_call_operated assms(1) by blast
  then show ?thesis
    using operated_guard assms(2) unfolding at_rest_def by (auto simp: operated_def)
next
  case False
  then show ?thesis
    using settings_guard_quiet [OF assms(1)] assms(2) by (simp add: at_rest_def)
qed

lemma at_rest_step: "at_rest s \<Longrightarrow> program_step E s l t \<Longrightarrow> at_rest t"
  by (erule program_step.cases) (blast dest: at_rest_call, simp add: at_rest_def)

interpretation at_rest_inv: invariant_system program_initial "program_step E" at_rest
  by unfold_locales (erule at_rest_init, erule (1) at_rest_step)

lemmas reachable_at_rest = at_rest_inv.reach_inv

section \<open>The breaker\<close>

lemma record_success_not_open:
  "pb_record_success now b = Inr b' \<Longrightarrow> pb_get_state b' = Open \<Longrightarrow> pb_get_state b = Open"
  by (auto simp: pb_record_success_def pb_close_circuit_def pb_get_state_def
      pb_emit_circuit_event_def res_simps Let_def split: circuit_state.splits if_splits)

lemma settings_breaker:
  assumes "program_exec env c s = Inr s'" and "\<not> touches_pool c"
    and "pb_get_state (pr_breaker s') = Open" and "pb_get_state (pr_breaker s) \<noteq> Open"
  shows "\<exists>a. c = Emergency_open a \<and> authorized env a \<and> pb_admin (pr_breaker s) = Some a"
  using assms
  by (cases c)
    (auto simp: admin_call_defs config_call_defs res_simps Let_def pb_get_state_def
      pb_set_config_def pb_set_circuitadmin_def pb_reset_circuit_breaker_def
      pb_close_circuit_def pb_half_open_circuit_def pb_emit_circuit_event_def
      split: if_splits option.splits circuit_state.splits dest!: dispute_call_frame)

lemma breaker_opened:
  assumes "program_exec env c s = Inr s'"
    and "pb_get_state (pr_breaker s') = Open" and "pb_get_state (pr_breaker s) \<noteq> Open"
  shows "\<exists>a. c = Emergency_open a \<and> authorized env a \<and> pb_admin (pr_breaker s) = Some a"
proof (cases "touches_pool c")
  case True
  then have "operated env s s'" using pool_call_operated assms(1) by blast
  then have False
    using assms(2,3) record_success_not_open unfolding operated_def by metis
  then show ?thesis ..
qed (rule settings_breaker [OF assms(1) _ assms(2,3)])

section \<open>The admin\<close>

definition admin_rotation :: "'w env \<Rightarrow> program_call \<Rightarrow> 'w program \<Rightarrow> 'w program \<Rightarrow> bool" where
  "admin_rotation env c s s' \<longleftrightarrow>
     (\<exists>a. pr_admin s' = Some a \<and> authorized env a \<and>
       (c = Accept_admin a \<and> pr_pending_admin s = Some a \<or>
        pr_admin s = None \<and> c \<in> {Initialize_contract a, Setadmin a}))"

lemma admin_changed:
  assumes "program_exec env c s = Inr s'" and "pr_admin s' \<noteq> pr_admin s"
  shows "admin_rotation env c s s'"
proof (cases "touches_pool c")
  case True
  then show ?thesis using operated_admin pool_call_operated assms by blast
next
  case False
  then show ?thesis
    using assms
    by (cases c)
      (auto simp: admin_rotation_def admin_call_defs config_call_defs res_simps Let_def
        split: if_splits dest!: dispute_call_frame)
qed

lemma pending_changed:
  assumes "program_exec env c s = Inr s'" and "pr_pending_admin s' \<noteq> pr_pending_admin s"
  shows "(\<exists>a b. c = Propose_admin a \<and> pr_pending_admin s' = Some a \<and> pr_admin s = Some b \<and>
      authorized env b) \<or>
    (\<exists>a. c = Accept_admin a \<and> pr_pending_admin s' = None)"
proof (cases "touches_pool c")
  case True
  then show ?thesis using operated_pending pool_call_operated assms by blast
next
  case False
  then show ?thesis
    using assms
    by (cases c)
      (auto simp: admin_call_defs config_call_defs res_simps Let_def
        split: if_splits dest!: dispute_call_frame)
qed

end
