(* ===== verification/ProgramScenario.thy ===== *)
theory ProgramScenario
  imports ProgramGuards
begin

text \<open>
  Concrete runs of the program escrow on the sample host. The contract is account 0, account 1
  its admin, 2 a sponsor, 3 the payout key; everybody else receives.
\<close>

definition program_call_in :: "'w env \<times> program_call \<Rightarrow> 'w program \<Rightarrow> 'w program pres" where
  "program_call_in = (\<lambda>(env, c). program_exec env c)"

definition program_run ::
    "('w env \<times> program_call) list \<Rightarrow> 'w program \<Rightarrow> 'w program pres" where
  "program_run = fold_res program_call_in"

lemma program_run_simps [simp]:
  "program_run [] s = Inr s"
  "program_run ((env, c) # cs) s = bnd (program_exec env c s) (program_run cs)"
  by (simp_all add: program_run_def program_call_in_def)

lemma program_run_append: "program_run (cs @ cs') s = bnd (program_run cs s) (program_run cs')"
  by (simp add: program_run_def fold_res_append)

lemma program_run_reachable:
  "program_run cs s = Inr s' \<Longrightarrow> list_all (\<lambda>(env, c). valid_env E env) cs \<Longrightarrow>
   program_reachable E s \<Longrightarrow> program_reachable E s'"
proof (induction cs arbitrary: s)
  case (Cons x cs)
  obtain env c where x: "x = (env, c)" by (cases x)
  then obtain s1 where "program_exec env c s = Inr s1" "program_run cs s1 = Inr s'"
      "valid_env E env"
    using Cons.prems by (auto simp: bnd_Inr)
  then show ?case using Cons by (auto simp: x intro: reach_step program_step.pr_invoke)
qed simp

lemma program_run_path:
  "program_run cs s = Inr s' \<Longrightarrow> list_all (\<lambda>(env, c). valid_env E env) cs \<Longrightarrow>
   path (program_step E) s (map (\<lambda>(env, c). Pr_invoke env c) cs) s'"
proof (induction cs arbitrary: s)
  case (Cons x cs)
  obtain env c where x: "x = (env, c)" by (cases x)
  then obtain s1 where "program_exec env c s = Inr s1" "program_run cs s1 = Inr s'"
      "valid_env E env"
    using Cons.prems by (auto simp: bnd_Inr)
  then show ?case using Cons by (auto simp: x intro: path_cons program_step.pr_invoke)
qed (simp add: path_nil)

abbreviation p_sample :: "ledger env" where
  "p_sample \<equiv> sample_env 0 []"

definition p_start :: "ledger program" where
  "p_start = initial_program (\<lambda>a. if a = 0 then 0 else 1000)"

lemma p_start_initial [simp]: "program_initial p_start"
  by (auto simp: program_initial_def p_start_def)

lemma p_start_reachable [simp]: "program_reachable p_sample p_start"
  by (rule reach_init) simp

definition p_after :: "(ledger env \<times> program_call) list \<Rightarrow> ledger program" where
  "p_after cs = (case program_run cs p_start of Inl _ \<Rightarrow> p_start | Inr s \<Rightarrow> s)"

lemma p_after_run: "is_ok (program_run cs p_start) \<Longrightarrow> program_run cs p_start = Inr (p_after cs)"
  by (auto simp: p_after_def is_ok_def split: sum.splits)

lemma p_after_reachable:
  "is_ok (program_run cs p_start) \<Longrightarrow> list_all (\<lambda>(env, c). valid_env p_sample env) cs \<Longrightarrow>
   program_reachable p_sample (p_after cs)"
  by (rule program_run_reachable [OF p_after_run]) simp_all

lemmas program_defs = p_start_def initial_program_def initialize_contract_def require_auth_def
  init_program_def initialize_program_def pr_track_def pm_track_operation_def
  track_operation_def empty_program_monitor_def empty_monitor_def WINDOW_DURATION_def
  pr_perf_def pm_emit_performance_def emit_performance_def pr_emit_def add_u64_def
  lock_program_funds_def get_rate_limit_config_def pr_check_paused_def pr_get_pause_flags_def
  no_program_pause_def pa_check_rate_limit_def pa_is_whitelisted_def add_u32_def
  sat_add_u64_def load_program_def check_fund_caps_def get_fund_cap_config_def
  pr_transfer_def ledger_transfer_def pr_balance_def only_state_def Let_def

lemmas payout_defs = single_payout_def batch_payout_def pr_check_not_entered_def
  pr_set_entered_def pr_clear_entered_def breaker_allows_def pb_check_and_allow_def
  pb_get_state_def empty_program_breaker_def is_dispute_open_for_key_def
  governance_or_panic_def pr_check_governance_requirements_def pg_check_governance_version_def
  pg_get_governance_contract_def empty_gov_link_def not_whitelisted_def breaker_success_def
  pb_record_success_def check_and_emit_large_payout_def get_large_payout_threshold_amount_def
  get_large_payout_threshold_bps_def DEFAULT_LARGE_PAYOUT_THRESHOLD_BPS_def
  LARGE_PAYOUT_THRESHOLD_DENOMINATOR_def emit_aggregate_stats_def count_unreleased_def
  MAX_BATCH_PAYOUT_def

lemmas schedule_defs = create_program_release_schedule_def trigger_program_releases_def
  skips_def is_schedule_scope_disputed_def released_by_at_def history_entry_def
  report_triggers_def release_program_schedule_manual_def release_prog_schedule_automatic_def
  load_program_release_schedules_def get_program_info_def disputed_or_unlisted_def
  release_schedule_of_def

lemmas program_eval = program_defs payout_defs schedule_defs arith_defs sub_i128_def add_i128_def
  mul_i128_def

section \<open>Runs\<close>

definition funded :: "(ledger env \<times> program_call) list" where
  "funded =
     [(sample_env 100 [1], Initialize_contract 1),
      (sample_env 100 [], Init_program ''p'' 3 9),
      (sample_env 100 [2], Lock_program_funds 2 100)]"

lemma funded_ok: "is_ok (program_run funded p_start)"
  by (simp add: funded_def program_eval)

lemma funded_reachable: "program_reachable p_sample (p_after funded)"
  by (rule p_after_reachable [OF funded_ok]) (simp add: funded_def)

text \<open>Two schedules, the first of which is due at time 200, the other at time 300.\<close>

definition planned :: "(ledger env \<times> program_call) list" where
  "planned = funded @
     [(sample_env 110 [3], Create_schedule 40 200 4),
      (sample_env 110 [3], Create_schedule 30 300 5)]"

lemma planned_ok: "is_ok (program_run planned p_start)"
  by (simp add: planned_def funded_def program_eval)

lemma planned_reachable: "program_reachable p_sample (p_after planned)"
  by (rule p_after_reachable [OF planned_ok]) (simp add: planned_def funded_def)

lemma planned_triggers:
  "\<exists>s'. trigger_program_releases (sample_env 250 [3]) (p_after planned) = Inr (s', 1)"
  by (simp add: p_after_def planned_def funded_def program_eval)

end
