(* ===== verification/ProgramProps.thy ===== *)
theory ProgramProps
  imports ProgramScenario ProgramQueries
begin

text \<open>
  The properties of the program escrow: it refines the pool, stays solvent, releases every
  schedule at most once and accounts for what left it.
\<close>

section \<open>Refinement and accounts\<close>

text \<open>
  C2: every call that returns, from any reachable state, is a sequence of moves of the abstract
  pool, and no direct release is among them unless the call is the release of one schedule.
\<close>

theorem program_refines_pool:
  assumes "program_reachable E s" and "valid_env E env" and "program_exec env c s = Inr s'"
  shows "\<exists>ms. pool_steps (pool_of E s) ms (pool_of E s') \<and>
    (\<not> single_release c \<longrightarrow> list_all (\<lambda>m. \<not> is_release m) ms)"
  using program_exec_moves [OF assms(2,3) reachable_stored_ok [OF assms(1)]]
  by (simp add: moves_def)

lemma program_refines_pool_witness:
  "\<exists>s' ms. program_exec (sample_env 250 [3]) Trigger_releases (p_after planned) = Inr s' \<and>
     pool_steps (pool_of p_sample (p_after planned)) ms (pool_of p_sample s') \<and>
     list_all (\<lambda>m. \<not> is_release m) ms"
proof -
  obtain s' where ok:
      "program_exec (sample_env 250 [3]) Trigger_releases (p_after planned) = Inr s'"
    using planned_triggers by (auto simp: only_state_def)
  then show ?thesis
    using program_refines_pool [OF planned_reachable _ ok] by auto
qed

text \<open>
  C4: the contract always holds the tokens for what it says remains of its pool.
\<close>

theorem program_always_solvent:
  assumes "program_reachable E s" and "pr_data s = Some d"
  shows "pd_remaining_balance d
      \<le> balance_of E (pd_token_address d) (current_contract_address E) (pr_world s)"
  using reachable_pool_ok [OF assms(1)] by (simp add: pool_ok_def pool_of_Some [OF assms(2)])

lemma planned_data:
  "\<exists>d. pr_data (p_after planned) = Some d \<and> pd_remaining_balance d = 100 \<and>
     pd_total_funds d = 100 \<and> pd_payout_history d = [] \<and> pd_token_address d = 9"
  by (simp add: p_after_def planned_def funded_def program_eval)

lemma program_always_solvent_witness:
  "(100 :: int) \<le> balance_of p_sample 9 0 (pr_world (p_after planned))"
proof -
  obtain d where "pr_data (p_after planned) = Some d" "pd_remaining_balance d = 100"
      "pd_token_address d = 9"
    using planned_data by blast
  then show ?thesis using program_always_solvent [OF planned_reachable] by fastforce
qed

text \<open>
  What left the pool is accounted for: the recorded payouts and the manual releases never
  exceed it, and together with the automatic releases they reach it.
\<close>

theorem program_accounts_bounded:
  assumes "program_reachable E s" and "pr_data s = Some d"
  shows "paid_sum (pd_payout_history d) + released_total is_manual (releases_of s)
      \<le> pd_total_funds d - pd_remaining_balance d \<and>
    pd_total_funds d - pd_remaining_balance d
      \<le> paid_sum (pd_payout_history d) + released_total (\<lambda>_. True) (releases_of s)"
  using reachable_pool_ok [OF assms(1)] by (simp add: pool_ok_def pool_of_Some [OF assms(2)])

text \<open>One schedule paid by the trigger, the other released by hand.\<close>

definition both_released :: "(ledger env \<times> program_call) list" where
  "both_released = planned @
     [(sample_env 250 [3], Trigger_releases), (sample_env 260 [3], Release_manual 2)]"

lemma both_released_ok: "is_ok (program_run both_released p_start)"
  by (simp add: both_released_def planned_def funded_def program_eval)

lemma both_released_reachable: "program_reachable p_sample (p_after both_released)"
  by (rule p_after_reachable [OF both_released_ok])
    (simp add: both_released_def planned_def funded_def)

lemma both_released_data:
  "\<exists>d. pr_data (p_after both_released) = Some d \<and> pd_remaining_balance d = 30 \<and>
     pd_total_funds d = 100 \<and> paid_sum (pd_payout_history d) = 40"
  by (simp add: p_after_def both_released_def planned_def funded_def program_eval)

lemma program_accounts_bounded_witness:
  "released_total is_manual (releases_of (p_after both_released)) \<le> 30 \<and>
   30 \<le> released_total (\<lambda>_. True) (releases_of (p_after both_released))"
proof -
  obtain d where d: "pr_data (p_after both_released) = Some d" "pd_remaining_balance d = 30"
      "pd_total_funds d = 100" "paid_sum (pd_payout_history d) = 40"
    using both_released_data by blast
  show ?thesis using program_accounts_bounded [OF both_released_reachable d(1)] d by simp
qed

text \<open>
  C10: schedules are numbered from 1 in the order of creation, and the release history holds
  exactly the schedules that are marked as released, with their recipients and amounts, each
  of them once.
\<close>

theorem schedules_released_once:
  assumes "program_reachable E s"
  shows "map sc_schedule_id (schedules_of s) = [1..<next_of s] \<and>
    mset (map done_key (releases_of s)) = released_keys (schedules_of s) \<and>
    distinct (map rh_schedule_id (releases_of s))"
proof (cases "pr_data s")
  case None
  then have "schedules_of s = []" "releases_of s = []" "next_of s = 1"
    using reachable_stored_ok [OF assms]
    by (simp_all add: stored_ok_def schedules_of_def releases_of_def next_of_def)
  then show ?thesis by (simp add: released_keys_def)
next
  case (Some d)
  note ok = reachable_pool_ok [OF assms]
  show ?thesis
    using ok pool_ok_released_once [OF ok] by (simp add: pool_ok_def pool_of_Some [OF Some])
qed

lemma schedules_released_once_witness:
  "map sc_schedule_id (schedules_of (p_after both_released)) = [1, 2] \<and>
   distinct (map rh_schedule_id (releases_of (p_after both_released))) \<and>
   mset (map done_key (releases_of (p_after both_released))) =
     released_keys (schedules_of (p_after both_released))"
proof -
  have "next_of (p_after both_released) = 3"
    by (simp add: p_after_def both_released_def planned_def funded_def program_eval next_of_def)
  then show ?thesis
    using schedules_released_once [OF both_released_reachable] by (simp add: upt_rec)
qed

text \<open>Moves without direct releases keep the payout history complete.\<close>

definition accounted :: "pool \<Rightarrow> bool" where
  "accounted k \<longleftrightarrow> 0 \<le> pl_remaining k \<and>
     pl_total k - pl_remaining k = paid_sum (pl_payouts k)"

lemma accounted_step: "pool_step k m k' \<Longrightarrow> \<not> is_release m \<Longrightarrow> accounted k \<Longrightarrow> accounted k'"
  by (induction rule: pool_step.induct) (auto simp: accounted_def)

lemma accounted_steps:
  "pool_steps k ms k' \<Longrightarrow> list_all (\<lambda>m. \<not> is_release m) ms \<Longrightarrow> accounted k \<Longrightarrow> accounted k'"
  by (induction rule: pool_steps.induct) (auto intro: accounted_step)

fun releases_one :: "'w program_label \<Rightarrow> bool" where
  "releases_one (Pr_invoke env c) \<longleftrightarrow> single_release c"
| "releases_one (Pr_outside w) \<longleftrightarrow> False"

lemma accounted_path:
  "path (program_step E) s ls t \<Longrightarrow> list_all (\<lambda>l. \<not> releases_one l) ls \<Longrightarrow> stored_ok s \<Longrightarrow>
   accounted (pool_of E s) \<Longrightarrow> accounted (pool_of E t)"
proof (induction rule: path.induct)
  case (path_cons s l t ls u)
  have "\<not> (\<exists>env c. l = Pr_invoke env c \<and> single_release c)"
    using path_cons.prems(1) by (cases l) auto
  then have "accounted (pool_of E t)"
    using program_step_moves [OF path_cons.prems(2) path_cons.hyps(1)] path_cons.prems(3)
      accounted_steps unfolding moves_def by blast
  then show ?case
    using path_cons stored_step by auto
qed simp

text \<open>
  C11: as long as schedules are paid only by the trigger, the payout history is complete: its
  amounts add up to exactly what left the pool, and the pool is never overdrawn.
\<close>

theorem payouts_complete_under_triggers:
  assumes "program_initial s0" and "path (program_step E) s0 ls s"
    and "list_all (\<lambda>l. \<not> releases_one l) ls" and "pr_data s = Some d"
  shows "paid_sum (pd_payout_history d) = pd_total_funds d - pd_remaining_balance d \<and>
    0 \<le> pd_remaining_balance d"
proof -
  have "accounted (pool_of E s0)"
    using assms(1) by (simp add: initial_pool accounted_def empty_pool_def)
  then have "accounted (pool_of E s)"
    using accounted_path [OF assms(2,3) stored_init [OF assms(1)]] by blast
  then show ?thesis by (auto simp: accounted_def pool_of_Some [OF assms(4)])
qed

definition triggered_once :: "(ledger env \<times> program_call) list" where
  "triggered_once = planned @ [(sample_env 250 [3], Trigger_releases)]"

lemma triggered_once_ok: "is_ok (program_run triggered_once p_start)"
  by (simp add: triggered_once_def planned_def funded_def program_eval)

lemma payouts_complete_under_triggers_witness:
  "\<exists>d. pr_data (p_after triggered_once) = Some d \<and> pd_remaining_balance d = 60 \<and>
     pd_total_funds d = 100 \<and> paid_sum (pd_payout_history d) = 40"
proof -
  obtain d where d: "pr_data (p_after triggered_once) = Some d" "pd_remaining_balance d = 60"
      "pd_total_funds d = 100"
    by (simp add: p_after_def triggered_once_def planned_def funded_def program_eval)
  have "path (program_step p_sample) p_start (map (\<lambda>(env, c). Pr_invoke env c) triggered_once)
      (p_after triggered_once)"
    by (rule program_run_path [OF p_after_run [OF triggered_once_ok]])
      (simp add: triggered_once_def planned_def funded_def)
  then have "paid_sum (pd_payout_history d) = pd_total_funds d - pd_remaining_balance d"
    using payouts_complete_under_triggers [OF p_start_initial _ _ d(1)]
    by (simp add: triggered_once_def planned_def funded_def)
  then show ?thesis using d by simp
qed

end
