(* ===== verification/ProgramReleases.thy ===== *)
theory ProgramReleases
  imports ProgramProps
begin

text \<open>
  The releases of single schedules, manual and automatic, against the pool they pay from and
  the records they leave, and what a schedule that the pool cannot pay does to the trigger.
\<close>

section \<open>When a release goes through\<close>

lemma release_schedule_of_returns:
  assumes "\<not> pr_guard s" and "pr_history s = Some h"
    and "tk_transfer env (pd_token_address d) (current_contract_address env) (sc_recipient c)
      (sc_amount c) (pr_world s) = Some w"
    and "in_i128 (pd_remaining_balance d - sc_amount c)"
    and "pb_record_success (timestamp env) (pr_breaker s) = (Inr b :: _ pres)"
  shows "\<exists>ev. release_schedule_of env kind who d before c after (pr_set_entered s) =
    Inr (released_state env kind who d before c after h w b ev s)"
proof -
  obtain s' where s': "release_schedule_of env kind who d before c after (pr_set_entered s) = Inr s'"
    using assms
    by (auto simp: release_schedule_of_def Let_def bnd_Inr pr_transfer_def ok_or_Inr
        sub_i128_def checked_i128_def breaker_success_def pr_emit_def)
  show ?thesis
    by (rule release_schedule_ofE [OF s' assms(1)]) (use s' assms in auto)
qed

lemma release_open_returns:
  assumes "release_open env s d c" and "pr_schedules s = Some cs"
    and "split_at i [] cs = Some (before, c, after)"
  shows "release_program_schedule_manual env s i =
      release_schedule_of env Manual (pd_authorized_payout_key d) d before c after
        (pr_set_entered s)"
    and "sc_release_timestamp c \<le> timestamp env \<Longrightarrow> release_prog_schedule_automatic env s i =
      release_schedule_of env Automatic (current_contract_address env) d before c after
        (pr_set_entered s)"
proof -
  have "breaker_allows env msg (pr_set_entered s) = Inr ()" for msg
    using assms(1) by (simp add: breaker_allows_Inr release_open_def)
  then show "release_program_schedule_manual env s i =
      release_schedule_of env Manual (pd_authorized_payout_key d) d before c after
        (pr_set_entered s)"
    and "sc_release_timestamp c \<le> timestamp env \<Longrightarrow> release_prog_schedule_automatic env s i =
      release_schedule_of env Automatic (current_contract_address env) d before c after
        (pr_set_entered s)"
    using assms
    by (simp_all add: release_program_schedule_manual_def release_prog_schedule_automatic_def
        release_open_def pr_check_not_entered_def load_program_release_schedules_def
        bump_persistent_symbol_ttl_def get_program_info_def load_program_def require_auth_def
        disputed_or_unlisted_def Let_def)
qed

lemma release_open_guard: "release_open env s d c \<Longrightarrow> \<not> pr_guard s"
  by (simp add: release_open_def)

text \<open>Both functions at once: \<open>direct_release F\<close> says that \<open>F\<close> is one of them.\<close>

abbreviation direct_release :: "('w env \<Rightarrow> 'w program \<Rightarrow> u64 \<Rightarrow> 'w program pres) \<Rightarrow> bool" where
  "direct_release F \<equiv>
     F = release_program_schedule_manual \<or> F = release_prog_schedule_automatic"

lemma direct_releaseE:
  assumes "direct_release F" and "F env s i = Inr s'"
  obtains d cs before c after kind who w b ev h where "release_open env s d c"
    and "pr_schedules s = Some cs" and "split_at i [] cs = Some (before, c, after)"
    and "cs = before @ c # after" and "sc_schedule_id c = i"
    and "tk_transfer env (pd_token_address d) (current_contract_address env) (sc_recipient c)
      (sc_amount c) (pr_world s) = Some w"
    and "pb_record_success (timestamp env) (pr_breaker s) = (Inr b :: _ pres)"
    and "pr_history s = Some h"
    and "s' = released_state env kind who d before c after h w b ev s"
    and "\<And>s2 d2. release_open env s2 d2 c \<Longrightarrow> pr_schedules s2 = Some cs \<Longrightarrow>
      pd_authorized_payout_key d2 = pd_authorized_payout_key d \<Longrightarrow>
      F env s2 i = release_schedule_of env kind who d2 before c after (pr_set_entered s2)"
  using assms(1)
proof
  assume F: "F = release_program_schedule_manual"
  show thesis
  proof (rule release_manualE [OF assms(2) [unfolded F]])
    fix d cs before c after
    assume o: "release_open env s d c" "pr_schedules s = Some cs"
        "split_at i [] cs = Some (before, c, after)"
        "release_schedule_of env Manual (pd_authorized_payout_key d) d before c after
          (pr_set_entered s) = Inr s'"
    have c: "cs = before @ c # after" "sc_schedule_id c = i"
      using split_at_append [OF o(3)] by simp_all
    show thesis
      by (rule release_schedule_ofE [OF o(4) release_open_guard [OF o(1)]],
          rule that [OF o(1-3) c], assumption+)
        (simp add: F release_open_returns(1) [OF _ _ o(3)])
  qed
next
  assume F: "F = release_prog_schedule_automatic"
  show thesis
  proof (rule release_automaticE [OF assms(2) [unfolded F]])
    fix d cs before c after
    assume o: "release_open env s d c" "pr_schedules s = Some cs"
        "sc_release_timestamp c \<le> timestamp env" "split_at i [] cs = Some (before, c, after)"
        "release_schedule_of env Automatic (current_contract_address env) d before c after
          (pr_set_entered s) = Inr s'"
    have c: "cs = before @ c # after" "sc_schedule_id c = i"
      using split_at_append [OF o(4)] by simp_all
    show thesis
      by (rule release_schedule_ofE [OF o(5) release_open_guard [OF o(1)]],
          rule that [OF o(1,2,4) c], assumption+)
        (simp add: F release_open_returns(2) [OF _ _ o(4,3)])
  qed
qed

section \<open>What a release leaves on record\<close>

lemma queries_of_history:
  assumes "pr_data s = Some d" and "pr_data s' = Some d'"
    and "pd_payout_history d' = pd_payout_history d"
  shows "query_payouts s' P off lim = query_payouts s P off lim"
  using assms by (simp add: query_payouts_def load_program_def)

text \<open>
  C18: A schedule released by either of the two functions, whichever it is and in whatever state,
  leaves no trace among the payouts. Its tokens go to its recipient and the remaining balance
  falls by its amount; but the payout history does not change, so that every query for
  payouts answers as before, and while the statistics count the amount as paid out, their
  number and list of payouts stay what they were.
\<close>

theorem manual_release_leaves_no_payout:
  assumes "direct_release F" and "F env s i = Inr s'" and "pr_data s = Some d"
  shows "\<exists>c\<in>set (schedules_of s). \<exists>d'. sc_schedule_id c = i \<and> \<not> sc_released c \<and>
    tk_transfer env (pd_token_address d) (current_contract_address env) (sc_recipient c)
      (sc_amount c) (pr_world s) = Some (pr_world s') \<and>
    pr_data s' = Some d' \<and>
    pd_remaining_balance d' = pd_remaining_balance d - sc_amount c \<and>
    pd_payout_history d' = pd_payout_history d \<and>
    (\<forall>r off lim. query_payouts_by_recipient s' r off lim =
       query_payouts_by_recipient s r off lim) \<and>
    (\<forall>lo hi off lim. query_payouts_by_amount s' lo hi off lim =
       query_payouts_by_amount s lo hi off lim) \<and>
    (\<forall>lo hi off lim. query_payouts_by_timestamp s' lo hi off lim =
       query_payouts_by_timestamp s lo hi off lim) \<and>
    (\<forall>st st'. get_program_aggregate_stats s = Inr st \<longrightarrow>
       get_program_aggregate_stats s' = Inr st' \<longrightarrow>
       pas_total_paid_out st' = pas_total_paid_out st + sc_amount c \<and>
       pas_payout_count st' = pas_payout_count st \<and>
       pas_payout_history st' = pas_payout_history st)"
proof (rule direct_releaseE [OF assms(1,2)])
  fix d1 cs before c after kind who w b ev h
  assume o: "release_open env s d1 c" "pr_schedules s = Some cs" "cs = before @ c # after"
      "sc_schedule_id c = i"
    and w: "tk_transfer env (pd_token_address d1) (current_contract_address env)
      (sc_recipient c) (sc_amount c) (pr_world s) = Some w"
    and s': "s' = released_state env kind who d1 before c after h w b ev s"
  let ?d = "d\<lparr>pd_remaining_balance := pd_remaining_balance d - sc_amount c\<rparr>"
  have d1: "d1 = d" using o(1) assms(3) by (simp add: release_open_def)
  have d': "pr_data s' = Some ?d" by (simp add: s' released_state_def d1)
  have queries: "query_payouts s' P off lim = query_payouts s P off lim" for P off lim
    by (rule queries_of_history [OF assms(3) d']) simp
  have stats: "pas_total_paid_out st' = pas_total_paid_out st + sc_amount c \<and>
      pas_payout_count st' = pas_payout_count st \<and>
      pas_payout_history st' = pas_payout_history st"
    if "get_program_aggregate_stats s = Inr st" "get_program_aggregate_stats s' = Inr st'"
    for st st'
    using that assms(3) d'
    by (auto simp: get_program_aggregate_stats_def load_program_def bnd_Inr i128_ops_Inr
        count_schedules_lengths)
  have "c \<in> set (schedules_of s)" using o(2,3) by (simp add: schedules_of_def)
  moreover have "\<not> sc_released c" using o(1) by (simp add: release_open_def)
  moreover have "tk_transfer env (pd_token_address d) (current_contract_address env)
      (sc_recipient c) (sc_amount c) (pr_world s) = Some (pr_world s')"
    using w by (simp add: s' released_state_def d1)
  moreover have "query_payouts_by_recipient s' = query_payouts_by_recipient s"
      "query_payouts_by_amount s' = query_payouts_by_amount s"
      "query_payouts_by_timestamp s' = query_payouts_by_timestamp s"
    by (intro ext, simp only: query_payouts_by_recipient_def query_payouts_by_amount_def
        query_payouts_by_timestamp_def queries)+
  moreover have "pd_remaining_balance ?d = pd_remaining_balance d - sc_amount c"
      "pd_payout_history ?d = pd_payout_history d" by simp_all
  ultimately show ?thesis using o(4) d' stats by metis
qed

lemma manual_release_leaves_no_payout_witness:
  "\<exists>s'. release_program_schedule_manual (sample_env 250 [3]) (p_after planned) 1 = Inr s' \<and>
     pr_world s' 4 = 1040 \<and> query_payouts_by_recipient s' 4 0 10 = Inr []"
proof -
  obtain s' d where s': "release_program_schedule_manual (sample_env 250 [3]) (p_after planned) 1
      = Inr s'" "pr_world s' 4 = 1040"
    and d: "pr_data (p_after planned) = Some d"
    and q: "query_payouts_by_recipient (p_after planned) 4 0 10 = Inr []"
    by (simp add: p_after_def planned_def funded_def program_eval query_payouts_by_recipient_def
        query_payouts_def)
  then show ?thesis
    using manual_release_leaves_no_payout [OF disjI1 [OF refl] s'(1) d] by auto
qed

section \<open>What a release asks of the pool\<close>

text \<open>A schedule larger than the pool, and tokens sent to the contract directly.\<close>

definition overplanned :: "(ledger env \<times> program_call) list" where
  "overplanned = funded @ [(sample_env 110 [3], Create_schedule 150 200 4)]"

definition donated :: "ledger program \<Rightarrow> ledger program" where
  "donated s = s\<lparr>pr_world := (pr_world s)(0 := pr_world s 0 + 60, 6 := pr_world s 6 - 60)\<rparr>"

lemma donated_reachable:
  "program_reachable p_sample s \<Longrightarrow> program_reachable p_sample (donated s)"
  unfolding donated_def
  by (rule reach_step [where l = "Pr_outside ((pr_world s)(0 := pr_world s 0 + 60,
        6 := pr_world s 6 - 60))"], assumption)
    (rule program_step.pr_outside, simp add: pr_held_def split: option.split)

text \<open>
  C19: The release of a single schedule never looks at what remains of the pool. When it goes
  through, then so it does, paying the same, with any other remaining balance \<open>r\<close> on record,
  even one below the amount of the schedule: what remains on record is then negative.
\<close>

theorem releases_overdraw_the_pool:
  assumes "direct_release F" and "F env s i = Inr s'" and "pr_data s = Some d"
  shows "\<exists>c\<in>set (schedules_of s). sc_schedule_id c = i \<and>
    (\<forall>r. in_i128 (r - sc_amount c) \<longrightarrow>
      (\<exists>s''. F env (s\<lparr>pr_data := Some (d\<lparr>pd_remaining_balance := r\<rparr>)\<rparr>) i = Inr s'' \<and>
        pr_world s'' = pr_world s' \<and>
        pr_data s'' = Some (d\<lparr>pd_remaining_balance := r - sc_amount c\<rparr>)))"
proof (rule direct_releaseE [OF assms(1,2)])
  fix d1 cs before c after kind who w b ev h
  assume o: "release_open env s d1 c" "pr_schedules s = Some cs" "cs = before @ c # after"
      "sc_schedule_id c = i"
    and w: "tk_transfer env (pd_token_address d1) (current_contract_address env)
      (sc_recipient c) (sc_amount c) (pr_world s) = Some w"
    and b: "pb_record_success (timestamp env) (pr_breaker s) = (Inr b :: _ pres)"
    and h: "pr_history s = Some h"
    and s': "s' = released_state env kind who d1 before c after h w b ev s"
    and F: "\<And>s2 d2. release_open env s2 d2 c \<Longrightarrow> pr_schedules s2 = Some cs \<Longrightarrow>
      pd_authorized_payout_key d2 = pd_authorized_payout_key d1 \<Longrightarrow>
      F env s2 i = release_schedule_of env kind who d2 before c after (pr_set_entered s2)"
  have d1: "d1 = d" using o(1) assms(3) by (simp add: release_open_def)
  have "\<exists>s''. F env (s\<lparr>pr_data := Some (d\<lparr>pd_remaining_balance := r\<rparr>)\<rparr>) i = Inr s'' \<and>
      pr_world s'' = w \<and> pr_data s'' = Some (d\<lparr>pd_remaining_balance := r - sc_amount c\<rparr>)"
    if r: "in_i128 (r - sc_amount c)" for r
  proof -
    let ?d = "d\<lparr>pd_remaining_balance := r\<rparr>"
    let ?s = "s\<lparr>pr_data := Some ?d\<rparr>"
    have "release_open env ?s ?d c"
      using o(1) by (simp add: release_open_def d1 is_dispute_open_for_key_def
          is_schedule_scope_disputed_def not_whitelisted_def)
    then have "F env ?s i = release_schedule_of env kind who ?d before c after (pr_set_entered ?s)"
      by (rule F) (simp_all add: o(2) d1)
    moreover obtain ev where "release_schedule_of env kind who ?d before c after
        (pr_set_entered ?s) = Inr (released_state env kind who ?d before c after h w b ev ?s)"
      using release_schedule_of_returns [of ?s h env ?d c w b kind who before after] release_open_guard [OF o(1)]
        h w b r d1 by auto
    ultimately show ?thesis by (simp add: released_state_def)
  qed
  moreover have "pr_world s' = w" by (simp add: s' released_state_def)
  moreover have "c \<in> set (schedules_of s)" using o(2,3) by (simp add: schedules_of_def)
  ultimately show ?thesis using o(4) by auto
qed

text \<open>
  A pool of 100 with a schedule of 150, and 60 tokens sent to the contract directly: in this
  reachable state the release goes through and leaves a remaining balance of -50.
\<close>

lemma releases_overdraw_the_pool_witness:
  "\<exists>s' d. program_reachable p_sample (donated (p_after overplanned)) \<and>
     release_program_schedule_manual (sample_env 250 [3]) (donated (p_after overplanned)) 1
       = Inr s' \<and> pr_data s' = Some d \<and> pd_remaining_balance d = - 50"
proof -
  let ?s = "donated (p_after overplanned)"
  have "is_ok (program_run overplanned p_start)"
    by (simp add: overplanned_def funded_def program_eval)
  then have "program_reachable p_sample (p_after overplanned)"
    by (rule p_after_reachable) (simp add: overplanned_def funded_def)
  then have start: "program_reachable p_sample ?s"
    by (rule donated_reachable)
  obtain s' d where s': "release_program_schedule_manual (sample_env 250 [3]) ?s 1 = Inr s'"
    and d: "pr_data ?s = Some d" "pd_remaining_balance d = 100"
    and c: "map sc_amount (schedules_of ?s) = [150]"
    by (simp add: donated_def p_after_def overplanned_def funded_def program_eval
        schedules_of_def)
  obtain z where "z \<in> set (schedules_of ?s)" and all: "\<And>r. in_i128 (r - sc_amount z) \<Longrightarrow>
      \<exists>s''. release_program_schedule_manual (sample_env 250 [3])
        (?s\<lparr>pr_data := Some (d\<lparr>pd_remaining_balance := r\<rparr>)\<rparr>) 1 = Inr s'' \<and>
        pr_data s'' = Some (d\<lparr>pd_remaining_balance := r - sc_amount z\<rparr>)"
    using releases_overdraw_the_pool [OF disjI1 [OF refl] s' d(1)] by blast
  then have "sc_amount z = 150" using c by auto
  then obtain s'' where "release_program_schedule_manual (sample_env 250 [3])
      (?s\<lparr>pr_data := Some (d\<lparr>pd_remaining_balance := 100\<rparr>)\<rparr>) 1 = Inr s''"
      "pr_data s'' = Some (d\<lparr>pd_remaining_balance := - 50\<rparr>)"
    using all [of 100] by (auto simp: in_i128_def)
  moreover have "?s\<lparr>pr_data := Some (d\<lparr>pd_remaining_balance := 100\<rparr>)\<rparr> = ?s"
    using d by (cases ?s; cases d) simp
  ultimately show ?thesis using start s' by auto
qed

section \<open>A trigger that cannot pay\<close>








end
