(* ===== verification/ProgramPayments.thy ===== *)
theory ProgramPayments
  imports ProgramReleases
begin

text \<open>
  The effects of the calls that move tokens, on the pool and on the balances of everybody
  involved, and what the gates in front of them let through.
\<close>

section \<open>Balances\<close>

definition received :: "addr \<Rightarrow> (addr \<times> i128) list \<Rightarrow> int" where
  "received x ps = (\<Sum>p\<leftarrow>filter (\<lambda>p. fst p = x) ps. snd p)"

lemma received_simps [simp]:
  "received x [] = 0"
  "received x (p # ps) = (if fst p = x then snd p + received x ps else received x ps)"
  by (simp_all add: received_def)

lemma chain_received:
  assumes "valid_env E env" and "transfer_chain env t ps w = Some w'"
    and "x \<noteq> current_contract_address E"
  shows "balance_of E t x w' = balance_of E t x w + received x ps"
  using assms(2)
proof (induction ps arbitrary: w)
  case (Cons p ps)
  then obtain w1 where w1: "tk_transfer env t (current_contract_address E) (fst p) (snd p) w = Some w1"
      "transfer_chain env t ps w1 = Some w'"
    using valid_envD(1) [OF assms(1)] by (auto split: option.splits)
  have "balance_of E t x w1 = balance_of E t x w + (if fst p = x then snd p else 0)"
    using sep41_balance [OF valid_envD(2) [OF assms(1)] w1(1), of x] assms(3)
      valid_envD(3) [OF assms(1)] by auto
  then show ?case using Cons.IH [OF w1(2)] by auto
qed simp

lemma chain_paid:
  assumes "valid_env E env" and "transfer_chain env t ps w = Some w'"
    and "\<forall>p\<in>set ps. fst p \<noteq> current_contract_address E"
  shows "balance_of E t (current_contract_address E) w' =
    balance_of E t (current_contract_address E) w - (\<Sum>p\<leftarrow>ps. snd p)"
  using assms(2,3)
proof (induction ps arbitrary: w)
  case (Cons p ps)
  let ?me = "current_contract_address E"
  obtain w1 where w1: "tk_transfer env t ?me (fst p) (snd p) w = Some w1"
      "transfer_chain env t ps w1 = Some w'"
    using Cons.prems(1) valid_envD(1) [OF assms(1)] by (auto split: option.splits)
  have "balance_of E t ?me w1 = balance_of E t ?me w - snd p"
    using sep41_balance [OF valid_envD(2) [OF assms(1)] w1(1), of ?me] Cons.prems(2)
      valid_envD(3) [OF assms(1)] by auto
  then show ?case using Cons.IH [OF w1(2)] Cons.prems(2) by auto
qed simp

section \<open>Payouts\<close>

text \<open>
  A single payout that goes through was open to the caller: no guard, breaker, pause,
  dispute or whitelist stood against it and the payout key authorised it. It takes exactly the
  amount, positive and within what remains, out of the pool, records it at the end of the
  payout history and hands it to the recipient; schedules and total are unchanged.
\<close>

theorem single_payout_effect:
  assumes "valid_env E env" and "single_payout env s x amt = Inr (s', d')"
    and "x \<noteq> current_contract_address E"
  shows "\<exists>d. payout_open env s d \<and> \<not> is_dispute_open_for_key s (Recipient x) \<and>
    \<not> not_whitelisted s x \<and> 0 < amt \<and> amt \<le> pd_remaining_balance d \<and>
    pr_data s' = Some d' \<and> pd_total_funds d' = pd_total_funds d \<and>
    pd_remaining_balance d' = pd_remaining_balance d - amt \<and>
    pd_payout_history d' = pd_payout_history d @
      [\<lparr>py_recipient = x, py_amount = amt, py_timestamp = timestamp env\<rparr>] \<and>
    pr_schedules s' = pr_schedules s \<and> pr_history s' = pr_history s \<and>
    balance_of E (pd_token_address d) x (pr_world s') =
      balance_of E (pd_token_address d) x (pr_world s) + amt \<and>
    pr_held E s' = pr_held E s - amt"
proof -
  obtain d w b m ev where ok: "payout_open env s d" "\<not> is_dispute_open_for_key s (Recipient x)"
      "\<not> not_whitelisted s x" "0 < amt" "amt \<le> pd_remaining_balance d"
    and w: "tk_transfer env (pd_token_address d) (current_contract_address env) x amt (pr_world s)
      = Some w"
    and d': "d' = d\<lparr>pd_remaining_balance := pd_remaining_balance d - amt,
      pd_payout_history := pd_payout_history d @
        [\<lparr>py_recipient = x, py_amount = amt, py_timestamp = timestamp env\<rparr>]\<rparr>"
    and s': "s' = s\<lparr>pr_world := w, pr_breaker := b, pr_data := Some d', pr_monitor := m,
      pr_events := ev\<rparr>"
    by (rule single_payoutE [OF assms(2)]) (rule that; assumption)
  have chain: "transfer_chain env (pd_token_address d) [(x, amt)] (pr_world s) = Some w"
    using w by simp
  have "balance_of E (pd_token_address d) x w =
      balance_of E (pd_token_address d) x (pr_world s) + amt"
    using chain_received [OF assms(1) chain assms(3)] by simp
  moreover have "balance_of E (pd_token_address d) (current_contract_address E) w =
      balance_of E (pd_token_address d) (current_contract_address E) (pr_world s) - amt"
    using chain_paid [OF assms(1) chain] assms(3) by simp
  moreover have "pr_data s = Some d" using ok(1) by (simp add: payout_open_def)
  ultimately show ?thesis using ok d' s' by (intro exI [of _ d]) (simp add: pr_held_def)
qed

lemma single_payout_effect_witness:
  "\<exists>s' d'. single_payout (sample_env 250 [3]) (p_after planned) 4 10 = Inr (s', d') \<and>
     pd_remaining_balance d' = 90 \<and> pr_held p_sample s' = pr_held p_sample (p_after planned) - 10"
proof -
  obtain s' d' where ok: "single_payout (sample_env 250 [3]) (p_after planned) 4 10 = Inr (s', d')"
    and "pd_remaining_balance d' = 90"
    by (simp add: p_after_def planned_def funded_def program_eval)
  then show ?thesis
    using single_payout_effect [where E = p_sample, OF _ ok] by auto
qed

text \<open>
  C14: a batch payout pays everybody on the list or nobody: of 1 to 100 recipients every one
  gets the sum of the amounts listed for him, in records appended in the order of the list,
  and the pool and the contract's tokens shrink by the total, which what remained covers.
\<close>

theorem batch_payout_effect:
  assumes "valid_env E env" and "batch_payout env s rs as = Inr (s', d')"
    and "current_contract_address E \<notin> set rs"
  shows "\<exists>d. payout_open env s d \<and> length rs = length as \<and> rs \<noteq> [] \<and>
    length rs \<le> MAX_BATCH_PAYOUT \<and> (\<forall>a\<in>set as. 0 < a) \<and>
    sum_list as \<le> pd_remaining_balance d \<and> pr_data s' = Some d' \<and>
    pd_total_funds d' = pd_total_funds d \<and>
    pd_remaining_balance d' = pd_remaining_balance d - sum_list as \<and>
    pd_payout_history d' =
      pd_payout_history d @ payouts_of (timestamp env) (zip rs as) \<and>
    (\<forall>x. x \<noteq> current_contract_address E \<longrightarrow>
      balance_of E (pd_token_address d) x (pr_world s') =
        balance_of E (pd_token_address d) x (pr_world s) + received x (zip rs as)) \<and>
    pr_held E s' = pr_held E s - sum_list as"
proof -
  obtain d w b m ev where ok: "payout_open env s d" "length rs = length as" "rs \<noteq> []"
      "length rs \<le> MAX_BATCH_PAYOUT" "\<forall>a\<in>set as. 0 < a"
      "sum_list as \<le> pd_remaining_balance d"
    and w: "transfer_chain env (pd_token_address d) (zip rs as) (pr_world s) = Some w"
    and d': "d' = d\<lparr>pd_payout_history := pd_payout_history d @
        payouts_of (timestamp env) (zip rs as),
      pd_remaining_balance := pd_remaining_balance d - sum_list as\<rparr>"
    and s': "s' = s\<lparr>pr_world := w, pr_breaker := b, pr_data := Some d', pr_monitor := m,
      pr_events := ev\<rparr>"
    by (rule batch_payoutE [OF assms(2)]) (rule that; assumption)
  have "\<forall>p\<in>set (zip rs as). fst p \<noteq> current_contract_address E"
    using assms(3) by (auto dest: set_zip_leftD)
  then have "balance_of E (pd_token_address d) (current_contract_address E) w =
      balance_of E (pd_token_address d) (current_contract_address E) (pr_world s) - sum_list as"
    using chain_paid [OF assms(1) w] ok(2) by simp
  moreover have "pr_data s = Some d" using ok(1) by (simp add: payout_open_def)
  ultimately show ?thesis
    using ok d' s' chain_received [OF assms(1) w]
    by (intro exI [of _ d]) (simp add: pr_held_def)
qed

lemma batch_payout_effect_witness:
  "\<exists>s' d'. batch_payout (sample_env 250 [3]) (p_after planned) [4, 5, 4] [10, 20, 5] = Inr (s', d') \<and>
     pd_remaining_balance d' = 65 \<and>
     balance_of p_sample 9 4 (pr_world s') = balance_of p_sample 9 4 (pr_world (p_after planned)) + 15"
proof -
  obtain s' d' where ok:
      "batch_payout (sample_env 250 [3]) (p_after planned) [4, 5, 4] [10, 20, 5] = Inr (s', d')"
    and d': "pd_remaining_balance d' = 65"
    by (simp add: p_after_def planned_def funded_def program_eval)
  obtain d where d: "pr_data (p_after planned) = Some d" "pd_token_address d = 9"
    using planned_data by blast
  show ?thesis
    using batch_payout_effect [where E = p_sample, OF _ ok] ok d' d
    by (auto simp: payout_open_def)
qed

section \<open>Triggers\<close>

lemma length_first_due: "length (first_due now s k cs) \<le> k"
  by (simp add: first_due_def)

lemma paid_pairs: "map snd (map pay_pair cs) = map sc_amount cs"
  by (simp add: pay_pair_def comp_def)

text \<open>
  C13: a trigger that returns has paid the first 100 schedules that are due, unreleased,
  undisputed and payable, in order, each covered by what the ones before left; it has marked
  exactly these as released, entered each in the release history and in the payout history,
  and returns their number. The pool and the contract's tokens shrink by their sum.
\<close>

theorem trigger_effect:
  assumes "valid_env E env" and "trigger_program_releases env s = Inr (s', n)"
    and "current_contract_address E \<notin> set (map sc_recipient (schedules_of s))"
  shows "\<exists>d. let now = timestamp env;
      paid = take MAX_BATCH_PAYOUT (filter (\<lambda>c. \<not> skips now s c) (schedules_of s)) in
    trigger_open env s d \<and> n = length paid \<and> affordable (pd_remaining_balance d) paid \<and>
    schedules_of s' = mark_first (\<lambda>c. \<not> skips now s c)
      (released_by_at (current_contract_address env) now) MAX_BATCH_PAYOUT (schedules_of s) \<and>
    releases_of s' = releases_of s @ map (history_entry Automatic now) paid \<and>
    pr_data s' = Some (after_triggers now paid d) \<and>
    (\<forall>x. x \<noteq> current_contract_address E \<longrightarrow>
      balance_of E (pd_token_address d) x (pr_world s') =
        balance_of E (pd_token_address d) x (pr_world s) + received x (map pay_pair paid)) \<and>
    pr_held E s' = pr_held E s - (\<Sum>c\<leftarrow>paid. sc_amount c)"
proof -
  obtain d cs h w b m ev ev' where ok: "trigger_open env s d" "pr_schedules s = Some cs"
      "pr_history s = Some h"
    and w: "transfer_chain env (pd_token_address d) (map pay_pair (triggered env s cs))
      (pr_world s) = Some w"
    and aff: "affordable (pd_remaining_balance d) (triggered env s cs)"
    and n: "n = length (triggered env s cs)"
    and s': "s' = triggered_state env d cs h w b m ev' s"
    by (rule triggerE [OF assms(2)]) (erule exE, rule that; assumption)
  have "set (triggered env s cs) \<subseteq> set cs"
    by (auto simp: triggered_def first_due_def dest: in_set_takeD)
  then have "\<forall>p\<in>set (map pay_pair (triggered env s cs)). fst p \<noteq> current_contract_address E"
    using assms(3) ok(2) by (auto simp: pay_pair_def image_iff subset_iff) metis
  then have "balance_of E (pd_token_address d) (current_contract_address E) w =
      balance_of E (pd_token_address d) (current_contract_address E) (pr_world s)
        - (\<Sum>c\<leftarrow>triggered env s cs. sc_amount c)"
    using chain_paid [OF assms(1) w] by (simp only: paid_pairs)
  moreover have "pr_data s = Some d" using ok(1) by (simp add: trigger_open_def)
  ultimately show ?thesis
    using ok n aff chain_received [OF assms(1) w] s'
    unfolding triggered_def marked_def first_due_def Let_def
    by (intro exI [of _ d]) (simp add: triggered_state_def pr_held_def triggered_def marked_def
        first_due_def)
qed

lemma planned_schedules:
  "map sc_recipient (schedules_of (p_after planned)) = [4, 5]"
  "filter (\<lambda>c. \<not> skips 250 (p_after planned) c) (schedules_of (p_after planned)) =
     [hd (schedules_of (p_after planned))]"
  by (simp_all add: p_after_def planned_def funded_def program_eval schedules_of_def)

lemma trigger_effect_witness:
  "\<exists>s'. trigger_program_releases (sample_env 250 [3]) (p_after planned) = Inr (s', 1) \<and>
     releases_of s' = releases_of (p_after planned) @
       [history_entry Automatic 250 (hd (schedules_of (p_after planned)))]"
proof -
  obtain s' where ok: "trigger_program_releases (sample_env 250 [3]) (p_after planned)
      = Inr (s', 1)"
    using planned_triggers by blast
  have "current_contract_address p_sample \<notin>
      set (map sc_recipient (schedules_of (p_after planned)))"
    by (simp only: planned_schedules) simp
  from trigger_effect [OF _ ok this] ok show ?thesis
    by (auto simp: planned_schedules Let_def MAX_BATCH_PAYOUT_def)
qed

section \<open>The release pause\<close>

definition release_paused :: "(ledger env \<times> program_call) list" where
  "release_paused = planned @ [(sample_env 120 [1], P_set_paused None (Some True) None)]"

text \<open>
  The release pause stops direct payouts but not schedules. With releases paused a single
  payout is refused with \<open>Funds Paused\<close>, while the trigger pays a schedule that is due and
  the manual release pays one that is not.
\<close>

theorem release_pause_spares_schedules:
  "\<exists>s s1 s2. program_run release_paused p_start = Inr s \<and> pr_check_paused s ''release'' \<and>
     single_payout (sample_env 250 [3]) s 4 10 = panic_msg ''Funds Paused'' \<and>
     trigger_program_releases (sample_env 250 [3]) s = Inr (s1, 1) \<and> pr_world s1 4 = 1040 \<and>
     release_program_schedule_manual (sample_env 250 [3]) s 2 = Inr s2 \<and> pr_world s2 5 = 1030"
  by (simp add: release_paused_def planned_def funded_def program_eval pr_set_paused_def
      admin_auth_def pause_one_def)

end
