(* ===== verification/ProgramPolicies.thy ===== *)
theory ProgramPolicies
  imports ProgramPayments
begin

text \<open>
  The rules around the pool: limits on locking, whitelists, disputes, the breaker and the admin,
  the ranges of the stored numbers, the views, and the upgrade gate of a linked contract.
\<close>

section \<open>Locking\<close>

lemma within_capsD:
  assumes "within_caps caps now_total amt"
  shows "\<forall>m. max_single_lock caps = Some m \<longrightarrow> amt \<le> m"
    and "\<forall>m. max_total_funds caps = Some m \<longrightarrow> now_total + amt \<le> m"
  using assms by (auto simp: within_caps_def)

text \<open>
  C15: a lock that goes through was authorised by its payer, not paused, positive and within
  both configured caps; it adds exactly the amount to the total and to what remains, and the
  payer's tokens move to the contract.
\<close>

theorem lock_program_effect:
  assumes "valid_env E env" and "lock_program_funds env s x amt = Inr (s', d')"
  shows "\<exists>d. pr_data s = Some d \<and> authorized env x \<and> \<not> pr_check_paused s ''lock'' \<and> 0 < amt \<and>
    (\<forall>m. max_single_lock (get_fund_cap_config s) = Some m \<longrightarrow> amt \<le> m) \<and>
    (\<forall>m. max_total_funds (get_fund_cap_config s) = Some m \<longrightarrow> pd_total_funds d' \<le> m) \<and>
    pr_data s' = Some d' \<and> d' = d\<lparr>pd_total_funds := pd_total_funds d + amt,
      pd_remaining_balance := pd_remaining_balance d + amt\<rparr> \<and>
    balance_of E (pd_token_address d) x (pr_world s') =
      balance_of E (pd_token_address d) x (pr_world s) - amt \<and>
    pr_held E s' = pr_held E s + amt"
proof -
  let ?me = "current_contract_address E"
  obtain rates d w m ev where ok: "authorized env x" "\<not> pr_check_paused s ''lock''" "0 < amt"
      "pr_data s = Some d" "within_caps (get_fund_cap_config s) (pd_total_funds d) amt"
    and w: "tk_transfer env (pd_token_address d) x ?me amt (pr_world s) = Some w"
    and d': "d' = d\<lparr>pd_total_funds := pd_total_funds d + amt,
      pd_remaining_balance := pd_remaining_balance d + amt\<rparr>"
    and s': "s' = s\<lparr>pr_rates := rates, pr_world := w, pr_data := Some d', pr_monitor := m,
      pr_events := ev\<rparr>"
    by (rule lock_program_fundsE [OF assms(2), unfolded valid_envD(1) [OF assms(1)]])
      (rule that; assumption)
  have "x \<noteq> ?me" using ok(1) valid_envD(5) [OF assms(1)] by auto
  then have "balance_of E (pd_token_address d) x w =
      balance_of E (pd_token_address d) x (pr_world s) - amt"
    and "balance_of E (pd_token_address d) ?me w =
      balance_of E (pd_token_address d) ?me (pr_world s) + amt"
    using sep41_balance [OF valid_envD(2) [OF assms(1)] w] valid_envD(3) [OF assms(1)] by auto
  then show ?thesis
    using ok d' s' within_capsD [OF ok(5)] by (intro exI [of _ d]) (simp add: pr_held_def)
qed

lemma lock_program_effect_witness:
  "\<exists>s' d'. lock_program_funds (sample_env 300 [2]) (p_after planned) 2 25 = Inr (s', d') \<and>
     pr_held p_sample s' = pr_held p_sample (p_after planned) + 25"
proof -
  obtain s' d' where ok:
      "lock_program_funds (sample_env 300 [2]) (p_after planned) 2 25 = Inr (s', d')"
    by (simp add: p_after_def planned_def funded_def program_eval)
  then show ?thesis using lock_program_effect [where E = p_sample, OF _ ok] by auto
qed

section \<open>The last check of a lock\<close>

text \<open>Results other than the panic of that check.\<close>

definition lock_alarm :: string where
  "lock_alarm = ''Invariant violation: token balance < remaining balance''"

definition mute :: "('a) pres \<Rightarrow> bool" where
  "mute r \<longleftrightarrow> r \<noteq> panic_msg lock_alarm"

lemma mute_bnd: "mute r \<Longrightarrow> (\<And>x. r = Inr x \<Longrightarrow> mute (f x)) \<Longrightarrow> mute (bnd r f)"
  by (cases r) (auto simp: mute_def)

lemma mute_simps [simp]:
  "mute (Inr x)" "mute (panic_msg m) \<longleftrightarrow> m \<noteq> lock_alarm"
  "mute (ok_or v (Panic (Message m))) \<longleftrightarrow> (v = None \<longrightarrow> m \<noteq> lock_alarm)"
  "mute (ok_or v (Panic Token_trap))"
  by (auto simp: mute_def ok_or_def split: option.splits)

lemma mute_calls [simp]:
  "mute (require_auth env x)" "mute (pr_track env opn x b s)" "mute (pr_perf env opn t s)"
  "mute (pa_check_rate_limit now x w m c wl st)" "mute (load_program s)"
  "mute (pr_transfer env t x y amt s)" "mute (pr_balance env t x s)"
  by (auto simp: mute_def require_auth_def pr_track_def pr_perf_def pm_track_operation_def
      track_operation_def pm_emit_performance_def emit_performance_def add_u64_def add_u32_def
      pa_check_rate_limit_def load_program_def pr_transfer_def pr_balance_def ok_or_def Let_def
      lock_alarm_def bnd_Inl split: option.splits if_splits)

lemma mute_fail [simp]: "mute (fail_tracked env opn x m s) \<longleftrightarrow> True" if "m \<noteq> lock_alarm"
  using that by (auto simp: fail_tracked_def intro!: mute_bnd)

lemma mute_caps [simp]: "mute (check_fund_caps env x amt d s)"
  by (auto simp: check_fund_caps_def Let_def lock_alarm_def split: option.split
      intro!: mute_bnd)

lemma lock_mute:
  assumes "program_reachable E s" and "valid_env E env"
  shows "mute (lock_program_funds env s x amt)"
proof -
  let ?me = "current_contract_address E"
  have covered: "pd_remaining_balance d + amt \<le> bal"
    if "authorized env x" "pr_data s = Some d"
      and "tk_transfer env (pd_token_address d) x ?me amt (pr_world s) = Some w"
      and "tk_balance env (pd_token_address d) ?me w = Some bal" for d w bal
  proof -
    have "x \<noteq> ?me" using that(1) valid_envD(5) [OF assms(2)] by auto
    then have "balance_of E (pd_token_address d) ?me w =
        balance_of E (pd_token_address d) ?me (pr_world s) + amt"
      using sep41_in [OF valid_envD(2) [OF assms(2)] that(3)] valid_envD(3) [OF assms(2)] by simp
    moreover have "balance_of E (pd_token_address d) ?me w = bal"
      using that(4) valid_envD(3) [OF assms(2)] by (simp add: balance_of_def)
    ultimately show ?thesis
      using reachable_pool_ok [OF assms(1)] by (simp add: pool_ok_def pool_of_Some [OF that(2)])
  qed
  show ?thesis
    unfolding lock_program_funds_def Let_def valid_envD(1) [OF assms(2)]
    by (intro mute_bnd, auto simp: res_simps pr_balance_def checked_add_i128_Some lock_alarm_def
        not_less intro!: mute_bnd, erule (3) covered)
qed

text \<open>
  The last check of a lock can never fail. In no reachable state does a lock end in the
  panic about a token balance below the remaining balance, whatever the payer and the amount.
\<close>

theorem lock_alarm_never_raised:
  assumes "program_reachable E s" and "valid_env E env"
  shows "lock_program_funds env s x amt
    \<noteq> panic_msg ''Invariant violation: token balance < remaining balance''"
  using lock_mute [OF assms, of x amt] by (simp add: mute_def lock_alarm_def)

lemma lock_alarm_never_raised_witness:
  "lock_program_funds (sample_env 300 [2]) (p_after planned) 2 5000
     \<noteq> panic_msg ''Invariant violation: token balance < remaining balance'' \<and>
   lock_program_funds (sample_env 300 [2]) (p_after planned) 2 5000 = Inl (Panic Token_trap)"
  using lock_alarm_never_raised [OF planned_reachable, of "sample_env 300 [2]" 2 5000]
  by (simp add: p_after_def planned_def funded_def program_eval)

section \<open>Whitelists\<close>

text \<open>
  C21: the payout whitelist and the rate limiter's whitelist are one map in storage, so each
  setter changes the other list. Whatever flag the payout whitelist gives an address, it
  exempts that address from the rate limit; and the limiter's setter makes the address payable
  or takes it off the payout whitelist.
\<close>

theorem whitelists_share_entries:
  assumes "pr_set_whitelist env s a flag = Inr s1"
    and "set_rate_limit_whitelist env' s a exempt = Inr s2"
  shows "is_rate_limit_whitelisted s1 a \<and>
    pa_check_rate_limit now a window max_ops cooldown (pr_whitelist s1) (pr_rates s1)
      = (Inr (pr_rates s1) :: _ pres) \<and>
    pr_is_whitelisted s2 a = exempt \<and>
    (is_whitelist_enforced s2 \<longrightarrow> not_whitelisted s2 a = (\<not> exempt))"
proof -
  have "pr_whitelist s1 a = Some flag"
    using assms(1) by (auto simp: pr_set_whitelist_def res_simps pr_emit_def)
  moreover have "pr_whitelist s2 a = (if exempt then Some True else None)"
    using assms(2) by (auto simp: set_rate_limit_whitelist_def res_simps pa_set_whitelist_def)
  ultimately show ?thesis
    by (simp add: is_rate_limit_whitelisted_def pa_check_rate_limit_def pa_is_whitelisted_def
        pr_is_whitelisted_def not_whitelisted_alt)
qed

lemma whitelists_share_entries_witness:
  "\<exists>s1 s2. pr_set_whitelist (sample_env 120 [1]) (p_after funded) 4 False = Inr s1 \<and>
     is_rate_limit_whitelisted s1 4 \<and>
     set_rate_limit_whitelist (sample_env 120 [1]) (p_after funded) 4 True = Inr s2 \<and>
     pr_is_whitelisted s2 4"
proof -
  obtain s1 s2 where ok: "pr_set_whitelist (sample_env 120 [1]) (p_after funded) 4 False = Inr s1"
      "set_rate_limit_whitelist (sample_env 120 [1]) (p_after funded) 4 True = Inr s2"
    by (simp add: p_after_def funded_def program_eval pr_set_whitelist_def
        set_rate_limit_whitelist_def admin_auth_def)
  then show ?thesis using whitelists_share_entries [OF ok] by blast
qed

section \<open>Monitoring\<close>

text \<open>
  C35: the monitoring never counts an error, so the health check is always good. A failing
  operation is tracked and then panics, and the host rolls the tracking back with the rest.
\<close>

theorem program_monitoring_sees_no_errors:
  assumes "program_reachable E s"
  shows "is_healthy (pr_health_check env s) \<and>
    error_count (pr_get_monitoring_analytics s) = 0 \<and>
    error_rate (pr_get_monitoring_analytics s) = 0 \<and>
    ss_total_errors (pr_get_state_snapshot env s) = 0"
  using reachable_at_rest [OF assms]
  by (simp add: at_rest_def quiet_def pr_health_check_def pm_health_check_def
      pr_get_monitoring_analytics_def pm_get_analytics_def get_monitor_analytics_def Let_def
      pr_get_state_snapshot_def pm_get_state_snapshot_def get_state_snapshot_def
      ERROR_RATE_THRESHOLD_BPS_def split: option.split)

lemma program_monitoring_sees_no_errors_witness:
  "single_payout (sample_env 120 [3]) (p_after funded) 4 500 = panic_msg ''Insufficient balance'' \<and>
   is_healthy (pr_health_check (sample_env 120 []) (p_after funded)) \<and>
   error_count (pr_get_monitoring_analytics (p_after funded)) = 0"
  using program_monitoring_sees_no_errors [OF funded_reachable]
  by (simp add: p_after_def funded_def program_eval fail_recorded_def pb_record_failure_def
      pb_get_failure_count_def pb_get_config_def pb_default_config_def pb_get_error_log_def
      pb_emit_circuit_event_def)

section \<open>Breaker and admin\<close>

text \<open>
  C34: the breaker opens only by the hand of the circuit admin. No sequence of failing payouts
  opens it: a step after which it is open and before which it was not is an emergency opening
  authorised by the registered circuit admin.
\<close>

theorem program_breaker_opened_by_admin:
  assumes "program_step E s l t" and "pb_get_state (pr_breaker t) = Open"
    and "pb_get_state (pr_breaker s) \<noteq> Open"
  shows "\<exists>env a. l = Pr_invoke env (Emergency_open a) \<and> authorized env a \<and>
    pr_get_circuitadmin s = Some a"
  using assms(1)
proof (cases rule: program_step.cases)
  case (pr_invoke env c)
  then show ?thesis
    using breaker_opened [OF pr_invoke(3) assms(2,3)]
    by (auto simp: pr_get_circuitadmin_def pb_get_circuitadmin_def)
qed (use assms(2,3) in simp)

definition circuit_ready :: "(ledger env \<times> program_call) list" where
  "circuit_ready = funded @ [(sample_env 120 [1], Set_circuitadmin 8 None)]"

lemma program_breaker_opened_by_admin_witness:
  "\<exists>t. program_step p_sample (p_after circuit_ready)
       (Pr_invoke (sample_env 130 [8]) (Emergency_open 8)) t \<and>
     pb_get_state (pr_breaker t) = Open \<and> pr_get_circuitadmin (p_after circuit_ready) = Some 8"
proof -
  obtain t where t: "program_exec (sample_env 130 [8]) (Emergency_open 8) (p_after circuit_ready)
      = Inr t" "pb_get_state (pr_breaker t) = Open"
      "pb_get_state (pr_breaker (p_after circuit_ready)) \<noteq> Open"
    by (simp add: p_after_def circuit_ready_def funded_def program_eval pr_set_circuitadmin_def
        pb_get_circuitadmin_def pb_set_circuitadmin_def admin_auth_def
        emergency_open_circuit_def circuit_admin_auth_def pb_open_circuit_def
        pb_emit_circuit_event_def)
  have "program_step p_sample (p_after circuit_ready)
      (Pr_invoke (sample_env 130 [8]) (Emergency_open 8)) t"
    by (rule program_step.pr_invoke [OF _ t(1)]) simp
  then show ?thesis using program_breaker_opened_by_admin [OF _ t(2,3)] t(2) by blast
qed

text \<open>
  C33: the admin changes only by rotation. A call after which the contract has another admin
  was authorised by that new admin, who had been proposed before and accepts, or there was no
  admin yet; and only the admin in office proposes.
\<close>

theorem program_admin_rotates_by_consent:
  assumes "program_exec env c s = Inr s'"
  shows "(pr_admin s' \<noteq> pr_admin s \<longrightarrow> (\<exists>a. pr_admin s' = Some a \<and> authorized env a \<and>
      (c = Accept_admin a \<and> pr_pending_admin s = Some a \<or>
       pr_admin s = None \<and> c \<in> {Initialize_contract a, Setadmin a}))) \<and>
    (pr_pending_admin s' \<noteq> pr_pending_admin s \<longrightarrow>
      (\<exists>a b. c = Propose_admin a \<and> pr_pending_admin s' = Some a \<and> pr_admin s = Some b \<and>
        authorized env b) \<or> (\<exists>a. c = Accept_admin a \<and> pr_pending_admin s' = None))"
  using admin_changed [OF assms] pending_changed [OF assms] unfolding admin_rotation_def by blast

lemma program_admin_rotates_by_consent_witness:
  "\<exists>s1 s2. program_exec (sample_env 120 [1]) (Propose_admin 6) (p_after funded) = Inr s1 \<and>
     program_exec (sample_env 130 [6]) (Accept_admin 6) s1 = Inr s2 \<and>
     pr_admin (p_after funded) = Some 1 \<and> pr_admin s2 = Some 6 \<and> pr_pending_admin s1 = Some 6"
proof -
  obtain s1 s2 where ok:
      "program_exec (sample_env 120 [1]) (Propose_admin 6) (p_after funded) = Inr s1"
      "program_exec (sample_env 130 [6]) (Accept_admin 6) s1 = Inr s2"
    and a: "pr_admin (p_after funded) = Some 1" "pr_admin s1 = Some 1" "pr_admin s2 = Some 6"
    by (simp add: p_after_def funded_def program_eval propose_admin_def accept_admin_def)
  have "pr_pending_admin s1 = Some 6"
    using program_admin_rotates_by_consent [OF ok(2)] a by auto
  then show ?thesis using ok a by blast
qed

end
