(* ===== verification/ProgramRecords.thy ===== *)
theory ProgramRecords
  imports ProgramPolicies ProgramQueries
begin

text \<open>
  What the program escrow stores and shows: the ranges of its counters, disputes and their
  resolution, alerts on large payouts, the views over its lists, and the upgrade of a contract
  whose governance calls are answered by a core contract.
\<close>

section \<open>Ranges\<close>

definition in_range :: "'w program \<Rightarrow> bool" where
  "in_range s \<longleftrightarrow> (\<forall>d. pr_data s = Some d \<longrightarrow>
     in_i128 (pd_total_funds d) \<and> in_i128 (pd_remaining_balance d) \<and> 0 \<le> pd_total_funds d) \<and>
     next_of s \<le> u64_max"

lemma in_range_same: "funds_same s s' \<Longrightarrow> in_range s \<Longrightarrow> in_range s'"
  by (simp add: funds_same_def in_range_def next_of_def)

lemma reported_range: "reported s s' \<Longrightarrow> in_range s \<Longrightarrow> in_range s'"
  by (erule reportedE) (simp add: in_range_def next_of_def)

lemma init_range: "initialize_program env s i k t = Inr (s', d) \<Longrightarrow> in_range s'"
  by (auto simp: initialize_program_def in_range_def next_of_def in_i128_def Let_def
      split: if_splits)

lemma init_program_range:
  assumes "init_program env s i k t = Inr (s', d)"
  shows "in_range s'"
proof -
  obtain s1 s2 where s1: "initialize_program env s i k t = Inr (s1, d)"
    and s2: "pr_track env ''init'' k True s1 = Inr s2"
    and s3: "pr_perf env ''init'' (timestamp env - timestamp env) s2 = Inr s'"
    using assms by (auto simp: init_program_def Let_def bnd_Inr)
  show ?thesis
    using reported_range [OF reported_trans [OF pr_track_reported [OF s2]
          pr_perf_reported [OF s3]] init_range [OF s1]] .
qed

lemma lock_range:
  assumes "lock_program_funds env s f amt = Inr (s', d')" and "in_range s"
  shows "in_range s'"
  by (rule lock_program_fundsE [OF assms(1)])
    (use assms(2) in \<open>simp add: in_range_def next_of_def\<close>)

lemma single_payout_range:
  assumes "single_payout env s x amt = Inr (s', d')" and "in_range s"
  shows "in_range s'"
  by (rule single_payoutE [OF assms(1)])
    (use assms(2) in \<open>simp add: in_range_def next_of_def payout_open_def\<close>)

lemma batch_payout_range:
  assumes "batch_payout env s rs as = Inr (s', d')" and "in_range s"
  shows "in_range s'"
  by (rule batch_payoutE [OF assms(1)])
    (use assms(2) in \<open>simp add: in_range_def next_of_def payout_open_def\<close>)

lemma create_range:
  assumes "create_program_release_schedule env s amt rt x = Inr (s', c)" and "in_range s"
  shows "in_range s'"
  using assms
  by (auto simp: create_program_release_schedule_def in_range_def next_of_def res_simps Let_def
      add_u64_def checked_add_u64_def split: if_splits)

lemma trigger_loop_range:
  assumes "trigger_loop env cs passed d h n s = Inr (s', cs', d', h', n')"
    and "in_i128 (pd_remaining_balance d)"
  shows "in_i128 (pd_remaining_balance d') \<and> pd_total_funds d' = pd_total_funds d"
  using assms
proof (induction cs arbitrary: passed d h n s)
  case (Cons c cs)
  consider (full) "MAX_BATCH_PAYOUT \<le> n" | (skip) "n < MAX_BATCH_PAYOUT" "skips (timestamp env) s c"
    | (due) "n < MAX_BATCH_PAYOUT" "\<not> skips (timestamp env) s c" by linarith
  then show ?case
  proof cases
    case due
    show ?thesis
    proof (rule trigger_loop_ConsE [OF Cons.prems(1) due])
      fix w
      assume "in_i128 (pd_remaining_balance d - sc_amount c)"
        and "trigger_loop env cs
          (passed @ [released_by_at (current_contract_address env) (timestamp env) c])
          (after_triggers (timestamp env) [c] d)
          (h @ [history_entry Automatic (timestamp env) c]) (n + 1)
          (pr_emit (ScheduleTriggeredEvent (pd_program_id d) (sc_schedule_id c)
            (sc_recipient c) (sc_amount c) Automatic) (s\<lparr>pr_world := w\<rparr>)) =
          Inr (s', cs', d', h', n')"
      then show ?thesis using Cons.IH by fastforce
    qed
  qed (use Cons in auto)
qed simp

lemma trigger_range:
  assumes "trigger_program_releases env s = Inr (s', n)" and "in_range s"
  shows "in_range s'"
proof -
  obtain d cs h w b m ev ev' where open_: "trigger_open env s d"
    and loop: "trigger_loop env cs [] d h 0 (pr_set_entered s) =
      Inr ((pr_set_entered s)\<lparr>pr_world := w, pr_events := ev\<rparr>, marked env s cs,
        after_triggers (timestamp env) (triggered env s cs) d,
        h @ map (history_entry Automatic (timestamp env)) (triggered env s cs), n)"
    and s': "s' = triggered_state env d cs h w b m ev' s"
    by (rule triggerE [OF assms(1)]) (erule exE, rule that; assumption)
  have d: "pr_data s = Some d" using open_ by (simp add: trigger_open_def)
  then show ?thesis
    using trigger_loop_range [OF loop] assms(2) s'
    by (simp add: in_range_def next_of_def triggered_state_def)
qed

lemma release_range:
  assumes "release_schedule_of env kind who d before c after (pr_set_entered s) = Inr s'"
    and "release_open env s d c" and "in_range s"
  shows "in_range s'"
proof -
  have "\<not> pr_guard s" "pr_data s = Some d" using assms(2) by (simp_all add: release_open_def)
  show ?thesis
    by (rule release_schedule_ofE [OF assms(1) \<open>\<not> pr_guard s\<close>])
      (use assms(3) \<open>pr_data s = Some d\<close> in
        \<open>simp add: released_state_def in_range_def next_of_def\<close>)
qed

lemma governance_range:
  "pr_execute_governance_proposal env s i = Inr s' \<Longrightarrow> in_range s \<Longrightarrow> in_range s'"
  by (auto simp: pr_execute_governance_proposal_def res_simps in_range_def next_of_def
      split: if_splits)

lemma call_range:
  assumes "program_exec env c s = Inr s'" and "in_range s"
  shows "in_range s'"
proof (cases "touches_pool c")
  case True
  have "program_exec env (base_call c) s = Inr s'" by (rule exec_base_call [OF assms(1)])
  then show ?thesis
    using True assms(2)
    by (cases c)
      (auto simp: only_state_Inr dest: init_range init_program_range lock_range
        single_payout_range batch_payout_range create_range trigger_range governance_range
        elim!: release_manualE release_automaticE intro: release_range)
qed (use settings_funds_same [OF assms(1)] in_range_same assms(2) in blast)

lemma range_init: "program_initial s \<Longrightarrow> in_range s"
  by (auto simp: program_initial_def initial_program_def in_range_def next_of_def)

lemma range_step: "in_range s \<Longrightarrow> program_step E s l t \<Longrightarrow> in_range t"
  by (erule program_step.cases) (blast dest: call_range, simp add: in_range_def next_of_def)

interpretation range_inv: invariant_system program_initial "program_step E" in_range
  by unfold_locales (erule range_init, erule (1) range_step)

text \<open>
  C27: the counters of a program keep to the types they are stored in: in every reachable state
  the total and what remains are values of \<open>i128\<close>, the total not negative, and the next
  schedule number is a \<open>u64\<close>.
\<close>

theorem program_counters_in_range:
  assumes "program_reachable E s" and "pr_data s = Some d"
  shows "in_i128 (pd_total_funds d) \<and> 0 \<le> pd_total_funds d \<and>
    in_i128 (pd_remaining_balance d) \<and> next_of s \<le> u64_max"
  using range_inv.reach_inv [OF assms(1)] assms(2) by (simp add: in_range_def)

lemma program_counters_in_range_witness:
  "\<exists>d. pr_data (p_after planned) = Some d \<and> in_i128 (pd_remaining_balance d) \<and>
     next_of (p_after planned) \<le> u64_max"
  using program_counters_in_range [OF planned_reachable] planned_data by blast

section \<open>Disputes\<close>

lemma open_dispute_result:
  assumes "open_dispute_call env k reason s = Inr s'"
  shows "\<exists>a ev. pr_admin s = Some a \<and> authorized env a \<and> \<not> is_dispute_open_for_key s k \<and>
    s' = s\<lparr>pr_disputes := (pr_disputes s)(k \<mapsto> \<lparr>dr_opened_by = a,
      dr_opened_at = timestamp env, dr_reason = reason, dr_status = Dispute_Open,
      dr_resolved_by = None, dr_resolved_at = None\<rparr>), pr_events := ev\<rparr>"
  using assms
  by (cases k) (auto simp: dispute_call_defs requireadmin_def res_simps Let_def pr_emit_def
      split: if_splits)

lemma close_dispute_result:
  assumes "resolve_dispute_call env k s = Inr s' \<and> st = Dispute_Resolved \<or>
      cancel_dispute_call env k s = Inr s' \<and> st = Dispute_Cancelled"
  shows "\<exists>a r ev. pr_admin s = Some a \<and> authorized env a \<and> pr_disputes s k = Some r \<and>
    dr_status r = Dispute_Open \<and>
    s' = s\<lparr>pr_disputes := (pr_disputes s)(k \<mapsto> r\<lparr>dr_status := st,
      dr_resolved_by := Some a, dr_resolved_at := Some (timestamp env)\<rparr>), pr_events := ev\<rparr>"
  using assms
  by (cases k) (auto simp: dispute_call_defs requireadmin_def res_simps Let_def pr_emit_def
      split: if_splits)

text \<open>
  C32: a dispute that is opened and then resolved or cancelled comes back to where it was: the
  same disputes are open, so the same payments are allowed, and the record kept under its
  scope names who opened and who closed it, when, and why; nothing else but the events
  changed. While it is open neither opening it again nor a payout to its scope succeeds.
\<close>

theorem dispute_roundtrip:
  assumes "open_dispute_call env k reason s = Inr s1"
    and "resolve_dispute_call env' k s1 = Inr s2 \<and> st = Dispute_Resolved \<or>
      cancel_dispute_call env' k s1 = Inr s2 \<and> st = Dispute_Cancelled"
  shows "(\<forall>key. is_dispute_open_for_key s2 key = is_dispute_open_for_key s key) \<and>
    (\<exists>a. pr_admin s = Some a \<and> authorized env a \<and> authorized env' a \<and>
      pr_disputes s2 k = Some \<lparr>dr_opened_by = a, dr_opened_at = timestamp env,
        dr_reason = reason, dr_status = st, dr_resolved_by = Some a,
        dr_resolved_at = Some (timestamp env')\<rparr>) \<and>
    s2 = s\<lparr>pr_disputes := pr_disputes s2, pr_events := pr_events s2\<rparr> \<and>
    is_dispute_open_for_key s1 k \<and> open_dispute_call env'' k reason' s1 \<noteq> Inr s3 \<and>
    (k = Global \<or> k = Recipient x \<longrightarrow> single_payout env'' s1 x amt \<noteq> Inr r)"
proof -
  obtain a ev where a: "pr_admin s = Some a" "authorized env a" "\<not> is_dispute_open_for_key s k"
    and s1: "s1 = s\<lparr>pr_disputes := (pr_disputes s)(k \<mapsto> \<lparr>dr_opened_by = a,
      dr_opened_at = timestamp env, dr_reason = reason, dr_status = Dispute_Open,
      dr_resolved_by = None, dr_resolved_at = None\<rparr>), pr_events := ev\<rparr>"
    using open_dispute_result [OF assms(1)] by blast
  obtain a' rec ev' where a': "pr_admin s1 = Some a'" "authorized env' a'"
      "pr_disputes s1 k = Some rec"
    and s2: "s2 = s1\<lparr>pr_disputes := (pr_disputes s1)(k \<mapsto> rec\<lparr>dr_status := st,
      dr_resolved_by := Some a', dr_resolved_at := Some (timestamp env')\<rparr>), pr_events := ev'\<rparr>"
    using close_dispute_result [OF assms(2)] by blast
  have "st \<noteq> Dispute_Open" using assms(2) by auto
  have open1: "is_dispute_open_for_key s1 k" by (simp add: s1 is_dispute_open_for_key_def)
  have "open_dispute_call env'' k reason' s1 \<noteq> Inr s3"
    using open_dispute_result [of env'' k reason' s1 s3] open1 by blast
  moreover have "single_payout env'' s1 x amt \<noteq> Inr r" if "k = Global \<or> k = Recipient x"
  proof
    assume "single_payout env'' s1 x amt = Inr r"
    then obtain s' d' where "single_payout env'' s1 x amt = Inr (s', d')" by (cases r) auto
    then show False
      by (rule single_payoutE) (use that open1 in \<open>auto simp: payout_open_def\<close>)
  qed
  moreover have "\<forall>key. is_dispute_open_for_key s2 key = is_dispute_open_for_key s key"
    using a(3) \<open>st \<noteq> Dispute_Open\<close> by (simp add: s1 s2 is_dispute_open_for_key_def)
  ultimately show ?thesis
    using open1 a a' s1 s2 by auto
qed

lemma dispute_roundtrip_witness:
  "\<exists>s1 s2. open_dispute_call (sample_env 120 [1]) (Recipient 4) ''why'' (p_after funded) = Inr s1 \<and>
     resolve_dispute_call (sample_env 130 [1]) (Recipient 4) s1 = Inr s2 \<and>
     \<not> is_recipient_disputed s2 4 \<and> is_recipient_disputed s1 4 \<and>
     (\<forall>r. single_payout (sample_env 125 [3]) s1 4 10 \<noteq> Inr r)"
proof -
  obtain s1 s2 where ok:
      "open_dispute_call (sample_env 120 [1]) (Recipient 4) ''why'' (p_after funded) = Inr s1"
      "resolve_dispute_call (sample_env 130 [1]) (Recipient 4) s1 = Inr s2"
    by (simp add: p_after_def funded_def program_eval dispute_call_defs requireadmin_def
        program_id_for_event_def)
  have "\<not> is_dispute_open_for_key (p_after funded) (Recipient 4)"
    by (simp add: p_after_def funded_def program_eval)
  then show ?thesis
    using dispute_roundtrip [OF ok(1), of "sample_env 130 [1]" s2 Dispute_Resolved] ok
    unfolding is_recipient_disputed_def by blast
qed

section \<open>Alerts on large payouts\<close>

text \<open>A pool so large that its alert threshold cannot be computed in \<open>i128\<close>.\<close>

definition rich_start :: "ledger program" where
  "rich_start = initial_program (\<lambda>a. if a = 2 then 2 ^ 120 else 0)"

definition rich :: "(ledger env \<times> program_call) list" where
  "rich =
     [(sample_env 100 [1], Initialize_contract 1),
      (sample_env 100 [], Init_program ''p'' 3 9),
      (sample_env 100 [2], Lock_program_funds 2 (2 ^ 120))]"

text \<open>
  The alert of a single payout can stop the payout. It multiplies the whole of the funds
  by the threshold in basis points with a plain operator: in a program of \<open>2 ^ 120\<close> units
  every single payout panics after its checks, whatever the amount, although a batch payout of
  the same amount, which divides instead, goes through.
\<close>

theorem single_payout_alert_overflows:
  "\<exists>s s' d'. program_run rich rich_start = Inr s \<and> get_remaining_balance s = Inr (2 ^ 120) \<and>
     single_payout (sample_env 200 [3]) s 4 10 = Inl (Panic Arithmetic_overflow) \<and>
     batch_payout (sample_env 200 [3]) s [4] [10] = Inr (s', d')"
  by (simp add: rich_start_def rich_def program_eval get_remaining_balance_def sdiv_pos)

definition raised_threshold :: "(ledger env \<times> program_call) list" where
  "raised_threshold = funded @ [(sample_env 110 [1], Set_large_payout_threshold 5000)]"

fun is_large_alert :: "program_event \<Rightarrow> bool" where
  "is_large_alert (LargePayoutEvent _ _ _ _) \<longleftrightarrow> True"
| "is_large_alert _ \<longleftrightarrow> False"

text \<open>
  The configured threshold governs the alerts of single payouts only. After it is raised
  to half of the funds, a payout of 10 out of 100 raises no alert when paid singly and still
  raises one when paid in a batch, whose threshold is a fixed tenth.
\<close>

theorem batch_ignores_alert_threshold:
  "\<exists>s s1 s2 d1 d2. program_run raised_threshold p_start = Inr s \<and>
     get_large_payout_threshold s = 5000 \<and>
     single_payout (sample_env 200 [3]) s 4 10 = Inr (s1, d1) \<and>
     filter is_large_alert (pr_events s1) = [] \<and>
     batch_payout (sample_env 200 [3]) s [4] [10] = Inr (s2, d2) \<and>
     filter is_large_alert (pr_events s2) = [LargePayoutEvent ''p'' 4 10 10]"
  by (simp add: raised_threshold_def funded_def program_eval get_large_payout_threshold_def
      set_large_payout_threshold_def set_large_payout_threshold_bps_def admin_auth_def sdiv_pos)

section \<open>Views\<close>

text \<open>
  C38: the filtered views show a page of the entries that match: those by recipient, amount and
  time of the payout history, those by recipient and state of the schedules, the pending and
  the due ones with at most 100 to a page, and the releases by recipient. The scheduled amount
  is the sum of what is not released, and the statistics count the two kinds of schedules.
\<close>

theorem program_views_exact:
  assumes "pr_data s = Some d" and "pr_schedules s = Some cs" and "pr_history s = Some hs"
  shows "query_payouts_by_recipient s x off lim =
      Inr (take lim (drop off (filter (\<lambda>r. py_recipient r = x) (pd_payout_history d)))) \<and>
    query_payouts_by_amount s lo hi off lim = Inr (take lim (drop off
      (filter (\<lambda>r. lo \<le> py_amount r \<and> py_amount r \<le> hi) (pd_payout_history d)))) \<and>
    query_payouts_by_timestamp s t1 t2 off lim = Inr (take lim (drop off
      (filter (\<lambda>r. t1 \<le> py_timestamp r \<and> py_timestamp r \<le> t2) (pd_payout_history d)))) \<and>
    query_schedules_by_recipient s x off lim =
      Inr (take lim (drop off (filter (\<lambda>c. sc_recipient c = x) cs))) \<and>
    query_schedules_by_status s b off lim =
      Inr (take lim (drop off (filter (\<lambda>c. sc_released c = b) cs))) \<and>
    get_pending_schedules s off lim =
      Inr (take (min lim 100) (drop off (filter (\<lambda>c. \<not> sc_released c) cs))) \<and>
    get_due_schedules env s off lim = Inr (take (min lim 100) (drop off
      (filter (\<lambda>c. \<not> sc_released c \<and> sc_release_timestamp c \<le> timestamp env) cs))) \<and>
    query_releases_by_recipient s x off lim =
      Inr (take lim (drop off (filter (\<lambda>h. rh_recipient h = x) hs))) \<and>
    (\<forall>v. get_total_scheduled_amount s = Inr v \<longrightarrow>
      v = (\<Sum>c\<leftarrow>filter (\<lambda>c. \<not> sc_released c) cs. sc_amount c)) \<and>
    (\<forall>st. get_program_aggregate_stats s = Inr st \<longrightarrow>
      pas_released_count st = length (filter sc_released cs) \<and>
      pas_scheduled_count st = length (filter (\<lambda>c. \<not> sc_released c) cs) \<and>
      pas_total_paid_out st = pd_total_funds d - pd_remaining_balance d)"
proof -
  note loads = load_program_def load_program_release_schedules_def load_release_history_def
  have total: "\<forall>v. get_total_scheduled_amount s = Inr v \<longrightarrow>
      v = (\<Sum>c\<leftarrow>filter (\<lambda>c. \<not> sc_released c) cs. sc_amount c)"
    using total_unreleased_sum [where t = 0]
    by (auto simp: get_total_scheduled_amount_def loads assms)
  have stats: "\<forall>st. get_program_aggregate_stats s = Inr st \<longrightarrow>
      pas_released_count st = length (filter sc_released cs) \<and>
      pas_scheduled_count st = length (filter (\<lambda>c. \<not> sc_released c) cs) \<and>
      pas_total_paid_out st = pd_total_funds d - pd_remaining_balance d"
    by (auto simp: get_program_aggregate_stats_def loads assms count_schedules_lengths
        count_unreleased_def bnd_Inr i128_ops_Inr)
  have pages: "query_payouts_by_recipient s x off lim =
      Inr (take lim (drop off (filter (\<lambda>r. py_recipient r = x) (pd_payout_history d))))"
    "query_payouts_by_amount s lo hi off lim = Inr (take lim (drop off
      (filter (\<lambda>r. lo \<le> py_amount r \<and> py_amount r \<le> hi) (pd_payout_history d))))"
    "query_payouts_by_timestamp s t1 t2 off lim = Inr (take lim (drop off
      (filter (\<lambda>r. t1 \<le> py_timestamp r \<and> py_timestamp r \<le> t2) (pd_payout_history d))))"
    "query_schedules_by_recipient s x off lim =
      Inr (take lim (drop off (filter (\<lambda>c. sc_recipient c = x) cs)))"
    "query_schedules_by_status s b off lim =
      Inr (take lim (drop off (filter (\<lambda>c. sc_released c = b) cs)))"
    "query_releases_by_recipient s x off lim =
      Inr (take lim (drop off (filter (\<lambda>h. rh_recipient h = x) hs)))"
    by (simp_all add: query_payouts_by_recipient_def query_payouts_by_amount_def
        query_payouts_by_timestamp_def query_payouts_def query_schedules_by_recipient_def
        query_schedules_by_status_def query_releases_by_recipient_def page_loop_page loads assms)
  have capped: "get_pending_schedules s off lim =
      Inr (take (min lim 100) (drop off (filter (\<lambda>c. \<not> sc_released c) cs)))"
    "get_due_schedules env s off lim = Inr (take (min lim 100) (drop off
      (filter (\<lambda>c. \<not> sc_released c \<and> sc_release_timestamp c \<le> timestamp env) cs)))"
    by (simp_all add: get_pending_schedules_def get_due_schedules_def page_loop_page loads assms
        MAX_SCHEDULE_QUERY_def Let_def)
  show ?thesis using pages capped total stats by blast
qed

lemma program_views_exact_witness:
  "get_pending_schedules (p_after planned) 1 5 = Inr [schedules_of (p_after planned) ! 1] \<and>
   length (schedules_of (p_after planned)) = 2"
proof -
  obtain d cs where s: "pr_data (p_after planned) = Some d"
      "pr_schedules (p_after planned) = Some cs" "pr_history (p_after planned) = Some []"
    and cs: "length cs = 2" "list_all (\<lambda>c. \<not> sc_released c) cs"
    by (simp add: p_after_def planned_def funded_def program_eval)
  obtain a b where ab: "cs = [a, b]" using cs(1) by (auto simp: numeral_2_eq_2 length_Suc_conv)
  have "get_pending_schedules (p_after planned) 1 5 =
      Inr (take (min 5 100) (drop 1 (filter (\<lambda>c. \<not> sc_released c) cs)))"
    using program_views_exact [OF s] by blast
  then show ?thesis using s ab cs(2) by simp
qed

text \<open>
  C39: before a program is initialised the views that promise an empty result trap. They read a
  missing list as empty and then extend the time to live of an entry that is not there, which
  the host refuses; only the views that test for the program first answer.
\<close>

theorem views_trap_before_initialisation:
  assumes "program_reachable E s" and "\<not> program_exists s"
  shows "get_program_release_schedules s off lim = panic_msg ''MissingValue'' \<and>
    get_pending_schedules s off lim = panic_msg ''MissingValue'' \<and>
    get_due_schedules env s off lim = panic_msg ''MissingValue'' \<and>
    get_total_scheduled_amount s = panic_msg ''MissingValue'' \<and>
    get_program_release_history s = panic_msg ''MissingValue'' \<and>
    get_program_info s = panic_msg ''Program not initialized'' \<and>
    list_programs s = Inr [] \<and> get_program_count s = 0"
proof -
  have "pr_data s = None" "pr_schedules s = None" "pr_history s = None"
    using assms(2) reachable_stored_ok [OF assms(1)]
    by (simp_all add: program_exists_def stored_ok_def)
  then show ?thesis
    by (simp add: get_program_release_schedules_def get_pending_schedules_def
        get_due_schedules_def get_total_scheduled_amount_def get_program_release_history_def
        load_program_release_schedules_def load_release_history_def get_program_info_def
        load_program_def bump_persistent_symbol_ttl_def list_programs_def get_program_count_def)
qed

lemma views_trap_before_initialisation_witness:
  "get_total_scheduled_amount p_start = panic_msg ''MissingValue'' \<and>
   list_programs p_start = Inr []"
proof -
  have "\<not> program_exists p_start"
    by (simp add: program_exists_def p_start_def initial_program_def)
  then show ?thesis using views_trap_before_initialisation [OF p_start_reachable] by blast
qed

end
