(* ===== verification/CoreTypes.thy ===== *)
theory CoreTypes
  imports Monitoring
begin

text \<open>
  The data model of the core contract (grainlify-core/src): the types of governance.rs and
  multisig.rs, the structs and events of lib.rs, and the storage as one record. The modules
  share the instance storage of one contract, so they share the record too: the fields
  \<open>ms_\<close> are those of multisig.rs, \<open>gs_\<close> those of governance.rs, \<open>cs_\<close> those of lib.rs.
  Constructors and fields whose plain name the escrow contracts also use carry a prefix.
\<close>

section \<open>Governance types\<close>

datatype proposal_status =
    Pending | Active | Approved | Rejected | Executed | Gov_Expired | Gov_Cancelled

datatype vote_type = For | Against | Abstain

datatype voting_scheme = OnePersonOneVote | TokenWeighted

record gov_proposal =
  gp_id :: u32
  gp_proposer :: addr
  gp_wasm_hash :: bytes32
  gp_description :: symbol
  gp_created_at :: u64
  gp_voting_start :: u64
  gp_voting_end :: u64
  gp_execution_delay :: u64
  gp_status :: proposal_status
  gp_votes_for :: i128
  gp_votes_against :: i128
  gp_votes_abstain :: i128
  gp_total_votes :: u32

record governance_config =
  gc_voting_period :: u64
  gc_execution_delay :: u64
  gc_quorum_percentage :: u32
  gc_approval_threshold :: u32
  gc_min_proposal_stake :: i128
  gc_voting_scheme :: voting_scheme
  gc_governance_token :: addr
  gc_one_person_total_voters :: u32
  gc_token_total_voting_power :: i128
  gc_snapshot_ledger :: "u32 option"

record vote =
  v_voter :: addr
  v_proposal_id :: u32
  v_vote_type :: vote_type
  v_voting_power :: i128
  v_timestamp :: u64

datatype gov_error =
    Gov_NotInitialized | Gov_InvalidThreshold | Gov_ThresholdTooLow | Gov_InsufficientStake
  | Gov_ProposalsNotFound | Gov_ProposalNotFound | Gov_ProposalNotActive
  | Gov_VotingNotStarted | Gov_VotingEnded | Gov_VotingStillActive | Gov_AlreadyVoted
  | Gov_ProposalNotApproved | Gov_ExecutionDelayNotMet | Gov_ProposalExpired
  | Gov_ZeroVotingPower | Gov_InvalidTotalVotingPower | Gov_Unauthorized
  | Gov_VoteWeightOverflow | Gov_AlreadyInitialized

fun gov_error_code :: "gov_error \<Rightarrow> u32" where
  "gov_error_code Gov_NotInitialized = 1"
| "gov_error_code Gov_InvalidThreshold = 2"
| "gov_error_code Gov_ThresholdTooLow = 3"
| "gov_error_code Gov_InsufficientStake = 4"
| "gov_error_code Gov_ProposalsNotFound = 5"
| "gov_error_code Gov_ProposalNotFound = 6"
| "gov_error_code Gov_ProposalNotActive = 7"
| "gov_error_code Gov_VotingNotStarted = 8"
| "gov_error_code Gov_VotingEnded = 9"
| "gov_error_code Gov_VotingStillActive = 10"
| "gov_error_code Gov_AlreadyVoted = 11"
| "gov_error_code Gov_ProposalNotApproved = 12"
| "gov_error_code Gov_ExecutionDelayNotMet = 13"
| "gov_error_code Gov_ProposalExpired = 14"
| "gov_error_code Gov_ZeroVotingPower = 15"
| "gov_error_code Gov_InvalidTotalVotingPower = 16"
| "gov_error_code Gov_Unauthorized = 17"
| "gov_error_code Gov_VoteWeightOverflow = 18"
| "gov_error_code Gov_AlreadyInitialized = 19"

type_synonym 'a cres = "(gov_error, 'a) res"

section \<open>Multisig types\<close>

record multi_sig_config =
  mc_signers :: "addr list"
  mc_threshold :: u32

datatype proposal_action = Upgrade bytes32

record ms_proposal =
  mp_action :: proposal_action
  mp_approvals :: "addr list"
  mp_executed :: bool
  mp_signers :: "addr list"
  mp_threshold :: u32
  mp_executed_nonce :: "u64 option"

datatype multisig_error =
    NotSigner | AlreadyApproved | ProposalNotFound | AlreadyExecuted | ThresholdNotMet
  | InvalidThreshold | ActionMismatch | NonceMismatch | RemovalWouldBreakThreshold
  | AlreadySigner

text \<open>
  The multisig never returns its errors, it panics with their debug text
  (\<open>panic!("\{:?\}", e)\<close>), which for an enum without fields is the constructor's name.
\<close>

fun debug_text :: "multisig_error \<Rightarrow> string" where
  "debug_text NotSigner = ''NotSigner''"
| "debug_text AlreadyApproved = ''AlreadyApproved''"
| "debug_text ProposalNotFound = ''ProposalNotFound''"
| "debug_text AlreadyExecuted = ''AlreadyExecuted''"
| "debug_text ThresholdNotMet = ''ThresholdNotMet''"
| "debug_text InvalidThreshold = ''InvalidThreshold''"
| "debug_text ActionMismatch = ''ActionMismatch''"
| "debug_text NonceMismatch = ''NonceMismatch''"
| "debug_text RemovalWouldBreakThreshold = ''RemovalWouldBreakThreshold''"
| "debug_text AlreadySigner = ''AlreadySigner''"

abbreviation ms_fault :: "multisig_error \<Rightarrow> gov_error fault" where
  "ms_fault e \<equiv> Panic (Message (debug_text e))"

lemma debug_text_inject [simp]: "debug_text e = debug_text e' \<longleftrightarrow> e = e'"
  by (cases e; cases e') simp_all

section \<open>Structs and events of the contract\<close>

datatype upgrade_mode = Multisig_mode | Governance_mode | SingleAdmin_mode

record migration_state =
  mg_from_version :: u32
  mg_to_version :: u32
  mg_migrated_at :: u64
  mg_migration_hash :: bytes32

record scheduled_upgrade =
  su_wasm_hash :: bytes32
  su_scheduled_at :: u64
  su_executable_at :: u64

text \<open>
  One constructor per published event, its arguments the payload in order; \<open>ProposalCreated\<close>,
  \<open>ProposalApproved\<close>, \<open>ProposalExecuted\<close>, \<open>SignerRot\<close> and \<open>PropCanc\<close> stand for the events
  whose payload is a tuple. The constant \<open>version\<close> fields are left out.
\<close>

datatype core_event =
    ProposalCreated u64
  | UpgradeProposed u64 addr bytes32
  | ProposalApproved u64 addr
  | UpgradeApproved u64 addr u32
  | ProposalExecuted u64 u64
  | SignerRot symbol addr addr u32
  | PropCanc u32 addr
  | UpgradeScheduledEvent bytes32 u64 u64 u64
  | UpgradeExecutedEvent bytes32 u64 u32
  | Core_UpgradeExecuted "u64 option" bytes32
  | VersionChanged u32 u32 addr
  | MigrationEvent u32 u32 u64 bytes32 bool "string option"
  | MigrationCompleted u32 u32 u64 bytes32 bool "string option"
  | Metric metric_event
  | GovernanceMetric symbol u64 u64

definition VERSION :: u32 where "VERSION = 2"
definition MIN_UPGRADE_DELAY_SECONDS :: u64 where "MIN_UPGRADE_DELAY_SECONDS = 5 * 60"
definition DEFAULT_UPGRADE_DELAY_SECONDS :: u64 where
  "DEFAULT_UPGRADE_DELAY_SECONDS = 24 * 60 * 60"

section \<open>Storage\<close>

text \<open>
  \<open>cs_wasm\<close> is the code installed by the last upgrade. The counters \<open>cs_gov_prop\<close> to
  \<open>cs_gov_migr\<close> are those that this contract's monitoring adds to the shared module.
\<close>

record core =
  cs_admin :: "addr option"
  cs_version :: "u32 option"
  cs_migration :: "migration_state option"
  cs_previous_version :: "u32 option"
  cs_upgrade_delay :: "u64 option"
  cs_scheduled :: "scheduled_upgrade option"
  cs_mode :: "upgrade_mode option"
  ms_config :: "multi_sig_config option"
  ms_proposals :: "u64 \<rightharpoonup> ms_proposal"
  ms_counter :: "u64 option"
  ms_nonce :: "u64 option"
  gs_admin :: "addr option"
  gs_config :: "governance_config option"
  gs_count :: "u32 option"
  gs_proposals :: "(u32 \<rightharpoonup> gov_proposal) option"
  gs_votes :: "(u32 \<times> addr \<rightharpoonup> vote) option"
  cs_monitor :: monitor
  cs_gov_prop :: "u64 option"
  cs_gov_vote :: "u64 option"
  cs_gov_upg :: "u64 option"
  cs_gov_migr :: "u64 option"
  cs_wasm :: "bytes32 option"
  cs_events :: "core_event list"

definition initial_core :: core where
  "initial_core =
     \<lparr>cs_admin = None, cs_version = None, cs_migration = None, cs_previous_version = None,
      cs_upgrade_delay = None, cs_scheduled = None, cs_mode = None, ms_config = None,
      ms_proposals = Map.empty, ms_counter = None, ms_nonce = None, gs_admin = None,
      gs_config = None, gs_count = None, gs_proposals = None, gs_votes = None,
      cs_monitor = empty_monitor, cs_gov_prop = None, cs_gov_vote = None, cs_gov_upg = None,
      cs_gov_migr = None, cs_wasm = None, cs_events = []\<rparr>"

definition publish :: "core_event \<Rightarrow> core \<Rightarrow> core" where
  "publish e s = s\<lparr>cs_events := cs_events s @ [e]\<rparr>"

lemma publish_simps [simp]:
  "cs_admin (publish e s) = cs_admin s" "cs_version (publish e s) = cs_version s"
  "cs_migration (publish e s) = cs_migration s"
  "cs_previous_version (publish e s) = cs_previous_version s"
  "cs_upgrade_delay (publish e s) = cs_upgrade_delay s"
  "cs_scheduled (publish e s) = cs_scheduled s" "cs_mode (publish e s) = cs_mode s"
  "ms_config (publish e s) = ms_config s" "ms_proposals (publish e s) = ms_proposals s"
  "ms_counter (publish e s) = ms_counter s" "ms_nonce (publish e s) = ms_nonce s"
  "gs_admin (publish e s) = gs_admin s" "gs_config (publish e s) = gs_config s"
  "gs_count (publish e s) = gs_count s" "gs_proposals (publish e s) = gs_proposals s"
  "gs_votes (publish e s) = gs_votes s" "cs_monitor (publish e s) = cs_monitor s"
  "cs_gov_upg (publish e s) = cs_gov_upg s" "cs_wasm (publish e s) = cs_wasm s"
  by (simp_all add: publish_def)

end
