(* ===== verification/Multisig.thy ===== *)
theory Multisig
  imports CoreTypes
begin

text \<open>
  The threshold approval of grainlify-core/src/multisig.rs: signers propose an action,
  approve it, and once the threshold of the proposal is met it can be executed, once, with
  the current nonce. A proposal keeps a copy of the signers and of the threshold from the
  time it was made. The lemmas state the invariant \<open>ms_ok\<close> and that every operation keeps it.
\<close>

section \<open>Helpers\<close>

definition ms_get_config :: "core \<Rightarrow> multi_sig_config cres" where
  "ms_get_config s = ok_or (ms_config s) (Panic (Message ''multisig not initialized''))"

definition get_proposal :: "core \<Rightarrow> u64 \<Rightarrow> ms_proposal cres" where
  "get_proposal s proposal_id = ok_or (ms_proposals s proposal_id) (ms_fault ProposalNotFound)"

definition assert_signer :: "multi_sig_config \<Rightarrow> addr \<Rightarrow> unit cres" where
  "assert_signer config signer =
     (if signer \<notin> set (mc_signers config) then Inl (ms_fault NotSigner) else Inr ())"

definition assert_proposal_signer :: "ms_proposal \<Rightarrow> addr \<Rightarrow> unit cres" where
  "assert_proposal_signer proposal signer =
     (if signer \<notin> set (mp_signers proposal) then Inl (ms_fault NotSigner) else Inr ())"

lemma ms_helpers_Inr [res_simps]:
  "ms_get_config s = Inr c \<longleftrightarrow> ms_config s = Some c"
  "get_proposal s i = Inr p \<longleftrightarrow> ms_proposals s i = Some p"
  "assert_signer c a = Inr u \<longleftrightarrow> a \<in> set (mc_signers c)"
  "assert_proposal_signer p a = Inr u \<longleftrightarrow> a \<in> set (mp_signers p)"
  by (auto simp: ms_get_config_def get_proposal_def assert_signer_def
      assert_proposal_signer_def res_simps)

section \<open>Initialisation\<close>

text \<open>The loop over the signers with the list \<open>seen\<close>.\<close>

fun no_duplicates :: "addr list \<Rightarrow> addr list \<Rightarrow> unit cres" where
  "no_duplicates [] seen = Inr ()"
| "no_duplicates (s # ss) seen =
     (if s \<in> set seen then Inl (ms_fault AlreadySigner) else no_duplicates ss (seen @ [s]))"

definition ms_init :: "core \<Rightarrow> addr list \<Rightarrow> u32 \<Rightarrow> core cres" where
  "ms_init s sigs threshold =
     (if ms_config s \<noteq> None then Inl (Panic (Message ''multisig already initialized''))
      else if threshold = 0 \<or> length sigs < threshold then Inl (ms_fault InvalidThreshold)
      else
        bnd (no_duplicates sigs []) (\<lambda>_.
          Inr (s\<lparr>ms_config := Some \<lparr>mc_signers = sigs, mc_threshold = threshold\<rparr>,
                 ms_counter := Some 0, ms_nonce := Some 0\<rparr>)))"

section \<open>Proposals and approvals\<close>

definition propose :: "'w env \<Rightarrow> core \<Rightarrow> addr \<Rightarrow> proposal_action \<Rightarrow> (core \<times> u64) cres" where
  "propose env s proposer action =
     bnd (require_auth env proposer) (\<lambda>_.
     bnd (ms_get_config s) (\<lambda>config.
     bnd (assert_signer config proposer) (\<lambda>_.
     bnd (add_u64 (case ms_counter s of None \<Rightarrow> 0 | Some n \<Rightarrow> n) 1) (\<lambda>counter.
       let proposal = \<lparr>mp_action = action, mp_approvals = [], mp_executed = False,
                       mp_signers = mc_signers config, mp_threshold = mc_threshold config,
                       mp_executed_nonce = None\<rparr>;
           s1 = s\<lparr>ms_proposals := (ms_proposals s)(counter \<mapsto> proposal)\<rparr>;
           s2 = publish (ProposalCreated counter) (s1\<lparr>ms_counter := Some counter\<rparr>)
       in Inr (case action of Upgrade wasm_hash \<Rightarrow>
                 publish (UpgradeProposed counter proposer wasm_hash) s2, counter)))))"

definition approve :: "'w env \<Rightarrow> core \<Rightarrow> u64 \<Rightarrow> addr \<Rightarrow> core cres" where
  "approve env s proposal_id signer =
     bnd (require_auth env signer) (\<lambda>_.
     bnd (get_proposal s proposal_id) (\<lambda>proposal.
     bnd (assert_proposal_signer proposal signer) (\<lambda>_.
       if mp_executed proposal then Inl (ms_fault AlreadyExecuted)
       else if signer \<in> set (mp_approvals proposal) then Inl (ms_fault AlreadyApproved)
       else
         let proposal' = proposal\<lparr>mp_approvals := mp_approvals proposal @ [signer]\<rparr>;
             s1 = publish (ProposalApproved proposal_id signer)
                    (s\<lparr>ms_proposals := (ms_proposals s)(proposal_id \<mapsto> proposal')\<rparr>)
         in Inr (case mp_action proposal' of Upgrade _ \<Rightarrow>
                   publish (UpgradeApproved proposal_id signer
                              (length (mp_approvals proposal'))) s1))))"

definition can_execute :: "core \<Rightarrow> u64 \<Rightarrow> bool cres" where
  "can_execute s proposal_id =
     bnd (get_proposal s proposal_id) (\<lambda>proposal.
       Inr (\<not> mp_executed proposal \<and> mp_threshold proposal \<le> length (mp_approvals proposal)))"

definition nonce :: "core \<Rightarrow> u64" where
  "nonce s = (case ms_nonce s of None \<Rightarrow> 0 | Some n \<Rightarrow> n)"

section \<open>Execution\<close>

definition mark_executed :: "core \<Rightarrow> u64 \<Rightarrow> u64 \<Rightarrow> core cres" where
  "mark_executed s proposal_id n =
     bnd (get_proposal s proposal_id) (\<lambda>proposal.
       if mp_executed proposal then Inl (ms_fault AlreadyExecuted)
       else
         bnd (can_execute s proposal_id) (\<lambda>ok.
           if \<not> ok then Inl (ms_fault ThresholdNotMet)
           else
             let proposal' = proposal\<lparr>mp_executed := True, mp_executed_nonce := Some n\<rparr>
             in Inr (publish (ProposalExecuted proposal_id n)
                       (s\<lparr>ms_proposals := (ms_proposals s)(proposal_id \<mapsto> proposal')\<rparr>))))"

text \<open>The closure that the caller passes is a function on the storage that may fail.\<close>

definition execute ::
    "core \<Rightarrow> u64 \<Rightarrow> proposal_action \<Rightarrow> u64 \<Rightarrow> (core \<Rightarrow> core cres) \<Rightarrow> core cres" where
  "execute s proposal_id expected_action expected_nonce action =
     bnd (get_proposal s proposal_id) (\<lambda>proposal.
       if mp_executed proposal then Inl (ms_fault AlreadyExecuted)
       else if mp_action proposal \<noteq> expected_action then Inl (ms_fault ActionMismatch)
       else
         bnd (can_execute s proposal_id) (\<lambda>ok.
           if \<not> ok then Inl (ms_fault ThresholdNotMet)
           else
             let current_nonce = nonce s in
             if expected_nonce \<noteq> current_nonce then Inl (ms_fault NonceMismatch)
             else
               bnd (action s) (\<lambda>s1.
               bnd (mark_executed s1 proposal_id current_nonce) (\<lambda>s2.
               bnd (add_u64 current_nonce 1) (\<lambda>n.
                 Inr (s2\<lparr>ms_nonce := Some n\<rparr>))))))"

definition get_action :: "core \<Rightarrow> u64 \<Rightarrow> proposal_action cres" where
  "get_action s proposal_id = bnd (get_proposal s proposal_id) (\<lambda>p. Inr (mp_action p))"

section \<open>Changes of the signer set\<close>

definition remove_signer :: "'w env \<Rightarrow> core \<Rightarrow> addr \<Rightarrow> addr \<Rightarrow> core cres" where
  "remove_signer env s caller signer_to_remove =
     bnd (require_auth env caller) (\<lambda>_.
     bnd (ms_get_config s) (\<lambda>config.
     bnd (assert_signer config caller) (\<lambda>_.
       if signer_to_remove \<notin> set (mc_signers config) then Inl (ms_fault NotSigner)
       else if length (mc_signers config) - 1 < mc_threshold config
       then Inl (ms_fault RemovalWouldBreakThreshold)
       else
         let config' = config\<lparr>mc_signers :=
               filter (\<lambda>x. x \<noteq> signer_to_remove) (mc_signers config)\<rparr>
         in Inr (publish (SignerRot ''remove'' caller signer_to_remove (mc_threshold config'))
                   (s\<lparr>ms_config := Some config'\<rparr>)))))"

definition add_signer :: "'w env \<Rightarrow> core \<Rightarrow> addr \<Rightarrow> addr \<Rightarrow> core cres" where
  "add_signer env s caller new_signer =
     bnd (require_auth env caller) (\<lambda>_.
     bnd (ms_get_config s) (\<lambda>config.
     bnd (assert_signer config caller) (\<lambda>_.
       if new_signer \<in> set (mc_signers config) then Inl (ms_fault AlreadySigner)
       else
         let config' = config\<lparr>mc_signers := mc_signers config @ [new_signer]\<rparr>
         in Inr (publish (SignerRot ''add'' caller new_signer (mc_threshold config'))
                   (s\<lparr>ms_config := Some config'\<rparr>)))))"

fun remove_all_signers :: "addr list \<Rightarrow> addr list \<Rightarrow> addr list cres" where
  "remove_all_signers [] sigs = Inr sigs"
| "remove_all_signers (x # xs) sigs =
     (if x \<notin> set sigs then Inl (ms_fault NotSigner)
      else remove_all_signers xs (filter (\<lambda>y. y \<noteq> x) sigs))"

fun add_all_signers :: "addr list \<Rightarrow> addr list \<Rightarrow> addr list cres" where
  "add_all_signers [] sigs = Inr sigs"
| "add_all_signers (x # xs) sigs =
     (if x \<in> set sigs then Inl (ms_fault AlreadySigner)
      else add_all_signers xs (sigs @ [x]))"

definition publish_all :: "core_event list \<Rightarrow> core \<Rightarrow> core" where
  "publish_all es s = fold publish es s"

definition rotate_signers ::
    "'w env \<Rightarrow> core \<Rightarrow> addr \<Rightarrow> addr list \<Rightarrow> addr list \<Rightarrow> u32 option \<Rightarrow> core cres" where
  "rotate_signers env s caller to_add to_remove new_threshold =
     bnd (require_auth env caller) (\<lambda>_.
     bnd (ms_get_config s) (\<lambda>config.
     bnd (assert_signer config caller) (\<lambda>_.
     bnd (remove_all_signers to_remove (mc_signers config)) (\<lambda>kept.
     bnd (add_all_signers to_add kept) (\<lambda>sigs.
       let config' = \<lparr>mc_signers = sigs,
                      mc_threshold = (case new_threshold of None \<Rightarrow> mc_threshold config
                                      | Some t \<Rightarrow> t)\<rparr>
       in if mc_threshold config' = 0 \<or> length (mc_signers config') < mc_threshold config'
          then Inl (ms_fault RemovalWouldBreakThreshold)
          else
            let t = mc_threshold config';
                s1 = s\<lparr>ms_config := Some config'\<rparr>;
                s2 = publish_all (map (\<lambda>x. SignerRot ''add'' caller x t) to_add) s1;
                s3 = publish_all (map (\<lambda>x. SignerRot ''remove'' caller x t) to_remove) s2
            in Inr (if to_add = [] \<and> to_remove = [] \<and> new_threshold \<noteq> None
                    then publish (SignerRot ''thresh'' caller caller t) s3 else s3))))))"


section \<open>The invariant\<close>

text \<open>
  The configured threshold can be met, and so can that of every proposal; approvals come
  from different signers of the proposal; an executed proposal has its threshold; and the
  nonces below the next one have each been used by exactly one proposal.
\<close>

definition viable :: "addr list \<Rightarrow> u32 \<Rightarrow> bool" where
  "viable sigs threshold \<longleftrightarrow> distinct sigs \<and> 0 < threshold \<and> threshold \<le> length sigs"

definition proposal_ok :: "ms_proposal \<Rightarrow> bool" where
  "proposal_ok p \<longleftrightarrow> viable (mp_signers p) (mp_threshold p) \<and>
     distinct (mp_approvals p) \<and> set (mp_approvals p) \<subseteq> set (mp_signers p) \<and>
     (mp_executed p \<longleftrightarrow> mp_executed_nonce p \<noteq> None) \<and>
     (mp_executed p \<longrightarrow> mp_threshold p \<le> length (mp_approvals p))"

definition used :: "(u64 \<rightharpoonup> ms_proposal) \<Rightarrow> u64 \<Rightarrow> u64 \<Rightarrow> bool" where
  "used P n i \<longleftrightarrow> (\<exists>p. P i = Some p \<and> mp_executed_nonce p = Some n)"

definition nonces_ok :: "(u64 \<rightharpoonup> ms_proposal) \<Rightarrow> u64 \<Rightarrow> bool" where
  "nonces_ok P next_nonce \<longleftrightarrow> (\<forall>n i. used P n i \<longrightarrow> n < next_nonce) \<and>
     (\<forall>n < next_nonce. \<exists>!i. used P n i)"

definition ms_ok :: "core \<Rightarrow> bool" where
  "ms_ok s \<longleftrightarrow>
     (\<forall>c. ms_config s = Some c \<longrightarrow> viable (mc_signers c) (mc_threshold c)) \<and>
     (\<forall>i p. ms_proposals s i = Some p \<longrightarrow> proposal_ok p \<and> ms_config s \<noteq> None \<and>
        0 < i \<and> i \<le> (case ms_counter s of None \<Rightarrow> 0 | Some n \<Rightarrow> n)) \<and>
     nonces_ok (ms_proposals s) (nonce s)"

lemma ms_ok_cong:
  "ms_ok s \<Longrightarrow> ms_config s' = ms_config s \<Longrightarrow> ms_proposals s' = ms_proposals s \<Longrightarrow>
   ms_counter s' = ms_counter s \<Longrightarrow> ms_nonce s' = ms_nonce s \<Longrightarrow> ms_ok s'"
  by (simp add: ms_ok_def nonce_def)

lemma used_upd: "used (P(i \<mapsto> p)) n j = (if j = i then mp_executed_nonce p = Some n else used P n j)"
  by (simp add: used_def)

lemma nonces_ok_same:
  assumes "nonces_ok P n" and "mp_executed_nonce p = (case P i of None \<Rightarrow> None | Some q \<Rightarrow> mp_executed_nonce q)"
  shows "nonces_ok (P(i \<mapsto> p)) n"
proof -
  have "used (P(i \<mapsto> p)) = used P"
    by (intro ext) (use assms(2) in \<open>simp add: used_upd used_def split: option.splits\<close>)
  then show ?thesis using assms(1) by (simp add: nonces_ok_def)
qed

lemma nonces_ok_use:
  assumes "nonces_ok P n" and "P i = Some q" and "mp_executed_nonce q = None"
    and "mp_executed_nonce p = Some n"
  shows "nonces_ok (P(i \<mapsto> p)) (n + 1)"
proof -
  have no: "\<not> used P k i" for k using assms(2,3) by (simp add: used_def)
  have below: "used P k j \<Longrightarrow> k < n" for k j using assms(1) unfolding nonces_ok_def by blast
  have "\<exists>!j. used (P(i \<mapsto> p)) k j" if "k < n + 1" for k
  proof (cases "k = n")
    case True
    then show ?thesis using below assms(4) by (auto simp: used_upd)
  next
    case False
    then have "\<exists>!j. used P k j" using that assms(1) by (simp add: nonces_ok_def)
    then have "\<exists>!j. used (P(i \<mapsto> p)) k j" if "used (P(i \<mapsto> p)) k = used P k" using that by simp
    moreover have "used (P(i \<mapsto> p)) k = used P k"
      using no assms(4) False by (intro ext) (simp add: used_upd)
    ultimately show ?thesis by blast
  qed
  moreover have "k < n + 1" if "used (P(i \<mapsto> p)) k j" for k j
    using that below assms(4) by (auto simp: used_upd less_Suc_eq split: if_splits)
  ultimately show ?thesis by (simp add: nonces_ok_def)
qed

lemma ms_ok_proposal: "ms_ok s \<Longrightarrow> ms_proposals s i = Some p \<Longrightarrow> proposal_ok p"
  by (simp add: ms_ok_def)

section \<open>Every operation keeps it\<close>

lemma no_duplicates_Inr:
  "no_duplicates xs seen = Inr u \<Longrightarrow> distinct xs \<and> set xs \<inter> set seen = {}"
  by (induction xs arbitrary: seen) (fastforce split: if_splits)+

lemma ms_init_ok: "ms_init s sigs threshold = Inr s' \<Longrightarrow> ms_ok s \<Longrightarrow> ms_ok s'"
  by (auto simp: ms_init_def res_simps ms_ok_def viable_def nonce_def nonces_ok_def used_def
      dest!: no_duplicates_Inr)

lemma propose_ok:
  assumes "propose env s a action = Inr (s', i)" and "ms_ok s"
  shows "ms_ok s'"
proof -
  obtain c where c: "ms_config s = Some c"
      "viable (mc_signers c) (mc_threshold c)"
      "i = (case ms_counter s of None \<Rightarrow> 0 | Some n \<Rightarrow> n) + 1"
    using assms by (auto simp: propose_def res_simps Let_def ms_ok_def)
  let ?p = "\<lparr>mp_action = action, mp_approvals = [], mp_executed = False,
     mp_signers = mc_signers c, mp_threshold = mc_threshold c, mp_executed_nonce = None\<rparr>"
  have "j \<le> (case ms_counter s of None \<Rightarrow> 0 | Some n \<Rightarrow> n)" if "ms_proposals s j \<noteq> None" for j
    using assms(2) that by (auto simp: ms_ok_def)
  then have fresh: "ms_proposals s i = None" using c(3) by fastforce
  have s': "ms_config s' = ms_config s" "ms_proposals s' = (ms_proposals s)(i \<mapsto> ?p)"
      "ms_counter s' = Some i" "ms_nonce s' = ms_nonce s"
    using assms(1) c(1,3) by (auto simp: propose_def res_simps Let_def split: proposal_action.splits)
  have "nonces_ok ((ms_proposals s)(i \<mapsto> ?p)) (nonce s)"
    using assms(2) fresh by (intro nonces_ok_same) (simp_all add: ms_ok_def)
  then show ?thesis
    using assms(2) c unfolding ms_ok_def s' nonce_def
    by (auto simp: proposal_ok_def intro: le_SucI)
qed

lemma approve_ok:
  assumes "approve env s i a = Inr s'" and "ms_ok s"
  shows "ms_ok s'"
proof -
  obtain p where p: "ms_proposals s i = Some p" "a \<in> set (mp_signers p)" "\<not> mp_executed p"
      "a \<notin> set (mp_approvals p)"
    and s': "ms_proposals s' = (ms_proposals s)
        (i \<mapsto> p\<lparr>mp_approvals := mp_approvals p @ [a]\<rparr>)"
      "ms_config s' = ms_config s" "ms_counter s' = ms_counter s" "ms_nonce s' = ms_nonce s"
    using assms(1)
    by (cases "mp_action (the (ms_proposals s i))")
      (auto simp: approve_def res_simps Let_def)
  have "nonces_ok (ms_proposals s') (nonce s)"
    unfolding s' using assms(2) p(1) by (intro nonces_ok_same) (simp_all add: ms_ok_def)
  then show ?thesis
    using assms(2) p by (auto simp: ms_ok_def s' nonce_def proposal_ok_def)
qed

text \<open>What a successful execution went through, and what it leaves.\<close>

lemma execute_Inr:
  assumes "execute s i expected n act = Inr s'"
    and "\<And>s1. act s = Inr s1 \<Longrightarrow> ms_proposals s1 = ms_proposals s \<and> ms_config s1 = ms_config s \<and>
      ms_counter s1 = ms_counter s \<and> ms_nonce s1 = ms_nonce s"
  obtains p where "ms_proposals s i = Some p" and "\<not> mp_executed p" and "mp_action p = expected"
    and "mp_threshold p \<le> length (mp_approvals p)" and "n = nonce s"
    and "ms_proposals s' = (ms_proposals s)
       (i \<mapsto> p\<lparr>mp_executed := True, mp_executed_nonce := Some n\<rparr>)"
    and "ms_config s' = ms_config s" and "ms_counter s' = ms_counter s"
    and "ms_nonce s' = Some (n + 1)"
proof -
  obtain p s1 s2 where p: "ms_proposals s i = Some p" "\<not> mp_executed p" "mp_action p = expected"
      "mp_threshold p \<le> length (mp_approvals p)" "n = nonce s"
    and s1: "act s = Inr s1" and s2: "mark_executed s1 i n = Inr s2"
    and s': "s' = s2\<lparr>ms_nonce := Some (n + 1)\<rparr>"
    using assms(1) by (auto simp: execute_def can_execute_def res_simps Let_def)
  note frame = assms(2) [OF s1]
  have "ms_proposals s2 = (ms_proposals s)
       (i \<mapsto> p\<lparr>mp_executed := True, mp_executed_nonce := Some n\<rparr>) \<and>
     ms_config s2 = ms_config s \<and> ms_counter s2 = ms_counter s"
    using s2 frame p(1) by (auto simp: mark_executed_def res_simps Let_def)
  then show ?thesis using that p by (simp add: s')
qed

lemma execute_ok:
  assumes "execute s i expected n act = Inr s'" and "ms_ok s"
    and "\<And>s1. act s = Inr s1 \<Longrightarrow> ms_proposals s1 = ms_proposals s \<and> ms_config s1 = ms_config s \<and>
      ms_counter s1 = ms_counter s \<and> ms_nonce s1 = ms_nonce s"
  shows "ms_ok s'"
  using assms(1,3)
proof (rule execute_Inr)
  fix p
  assume p: "ms_proposals s i = Some p" "\<not> mp_executed p"
      "mp_threshold p \<le> length (mp_approvals p)" "n = nonce s"
    and s': "ms_proposals s' = (ms_proposals s)
         (i \<mapsto> p\<lparr>mp_executed := True, mp_executed_nonce := Some n\<rparr>)"
      "ms_config s' = ms_config s" "ms_counter s' = ms_counter s" "ms_nonce s' = Some (n + 1)"
  have "nonces_ok (ms_proposals s') (nonce s + 1)"
    unfolding s'(1)
  proof (rule nonces_ok_use)
    show "nonces_ok (ms_proposals s) (nonce s)" using assms(2) by (simp add: ms_ok_def)
    show "ms_proposals s i = Some p" by (rule p(1))
    show "mp_executed_nonce p = None"
      using ms_ok_proposal [OF assms(2) p(1)] p(2) by (simp add: proposal_ok_def)
  qed (simp add: p(4))
  then show ?thesis
    using assms(2) p by (auto simp: ms_ok_def s' nonce_def proposal_ok_def)
qed

lemma ms_ok_config:
  "ms_ok s \<Longrightarrow> ms_config s = Some c \<Longrightarrow> viable (mc_signers c') (mc_threshold c') \<Longrightarrow>
   ms_config s' = Some c' \<Longrightarrow> ms_proposals s' = ms_proposals s \<Longrightarrow>
   ms_counter s' = ms_counter s \<Longrightarrow> ms_nonce s' = ms_nonce s \<Longrightarrow> ms_ok s'"
  by (auto simp: ms_ok_def nonce_def)

lemma viable_remove:
  assumes "viable xs t" and "x \<in> set xs" and "t \<le> length xs - 1"
  shows "viable (filter (\<lambda>y. y \<noteq> x) xs) t"
proof -
  have "filter (\<lambda>y. y \<noteq> x) xs = remove1 x xs"
    using assms(1) by (auto simp: viable_def distinct_remove1_removeAll removeAll_filter_not_eq
        intro: filter_cong)
  then show ?thesis using assms by (simp add: viable_def length_remove1)
qed

lemma viable_add: "viable xs t \<Longrightarrow> x \<notin> set xs \<Longrightarrow> viable (xs @ [x]) t"
  by (simp add: viable_def)

lemma remove_all_distinct:
  "remove_all_signers xs sigs = Inr r \<Longrightarrow> distinct sigs \<Longrightarrow> distinct r"
  by (induction xs arbitrary: sigs) (auto split: if_splits)

lemma add_all_distinct:
  "add_all_signers xs sigs = Inr r \<Longrightarrow> distinct sigs \<Longrightarrow> distinct r"
  by (induction xs arbitrary: sigs) (auto split: if_splits)

lemma publish_all_eq: "publish_all es s = s\<lparr>cs_events := cs_events s @ es\<rparr>"
  unfolding publish_all_def by (induction es arbitrary: s) (simp_all add: publish_def)

text \<open>
  The signer changes replace the configuration by a viable one and publish events; nothing
  else of the storage changes.
\<close>

definition reconfigured :: "core \<Rightarrow> core \<Rightarrow> bool" where
  "reconfigured s s' \<longleftrightarrow> (\<exists>c c' es. ms_config s = Some c \<and>
     (viable (mc_signers c) (mc_threshold c) \<longrightarrow> viable (mc_signers c') (mc_threshold c')) \<and>
     s' = s\<lparr>ms_config := Some c', cs_events := cs_events s @ es\<rparr>)"

lemma reconfiguredI:
  "ms_config s = Some c \<Longrightarrow>
   (viable (mc_signers c) (mc_threshold c) \<Longrightarrow> viable (mc_signers c') (mc_threshold c')) \<Longrightarrow>
   s' = s\<lparr>ms_config := Some c', cs_events := cs_events s @ es\<rparr> \<Longrightarrow> reconfigured s s'"
  unfolding reconfigured_def by blast

lemma reconfigured_ok: "reconfigured s s' \<Longrightarrow> ms_ok s \<Longrightarrow> ms_ok s'"
  by (auto simp: reconfigured_def ms_ok_def nonce_def)

lemma remove_signer_reconfigures:
  assumes "remove_signer env s a x = Inr s'"
  shows "reconfigured s s'"
proof -
  obtain c where c: "ms_config s = Some c" "x \<in> set (mc_signers c)"
      "mc_threshold c \<le> length (mc_signers c) - 1"
    and s': "s' = publish (SignerRot ''remove'' a x (mc_threshold c))
      (s\<lparr>ms_config := Some (c\<lparr>mc_signers := filter (\<lambda>y. y \<noteq> x) (mc_signers c)\<rparr>)\<rparr>)"
    using assms by (auto simp: remove_signer_def res_simps Let_def)
  from c(1) show ?thesis
    by (rule reconfiguredI) (use c s' viable_remove in \<open>auto simp: publish_def\<close>)
qed

lemma add_signer_reconfigures:
  assumes "add_signer env s a x = Inr s'"
  shows "reconfigured s s'"
proof -
  obtain c where c: "ms_config s = Some c" "x \<notin> set (mc_signers c)"
    and s': "s' = publish (SignerRot ''add'' a x (mc_threshold c))
      (s\<lparr>ms_config := Some (c\<lparr>mc_signers := mc_signers c @ [x]\<rparr>)\<rparr>)"
    using assms by (auto simp: add_signer_def res_simps Let_def)
  from c(1) show ?thesis
    by (rule reconfiguredI) (use c s' viable_add in \<open>auto simp: publish_def\<close>)
qed

lemma rotate_signers_reconfigures:
  assumes "rotate_signers env s a add rem t = Inr s'"
  shows "reconfigured s s'"
proof -
  obtain c kept r where c: "ms_config s = Some c"
    and r: "remove_all_signers rem (mc_signers c) = Inr kept" "add_all_signers add kept = Inr r"
    using assms by (auto simp: rotate_signers_def res_simps)
  define c' where "c' = \<lparr>mc_signers = r,
    mc_threshold = (case t of None \<Rightarrow> mc_threshold c | Some n \<Rightarrow> n)\<rparr>"
  have c': "0 < mc_threshold c'" "mc_threshold c' \<le> length (mc_signers c')"
    and s': "\<exists>es. s' = s\<lparr>ms_config := Some c', cs_events := cs_events s @ es\<rparr>"
    using assms
    by (auto simp: rotate_signers_def res_simps c r c'_def Let_def publish_all_eq publish_def)
  have "viable (mc_signers c') (mc_threshold c')" if "viable (mc_signers c) (mc_threshold c)"
    using that c' r remove_all_distinct add_all_distinct by (auto simp: viable_def c'_def)
  with c s' show ?thesis using reconfiguredI by blast
qed

lemmas signer_changes =
  remove_signer_reconfigures add_signer_reconfigures rotate_signers_reconfigures

end
