(* ===== verification/Governance.thy ===== *)
theory Governance
  imports CoreTypes
begin

text \<open>
  The on-chain voting of grainlify-core/src/governance.rs: proposals for a code hash, votes
  weighted by head or by token balance, finalisation by quorum and threshold, execution
  after a delay, cancellation, sweeping of expired proposals, and the query
  \<open>is_upgrade_approved\<close> that the escrow contracts use as their upgrade gate.
\<close>

section \<open>Voting power\<close>

definition token_balance :: "'w env \<Rightarrow> 'w \<Rightarrow> addr \<Rightarrow> addr \<Rightarrow> i128 cres" where
  "token_balance env w token a = ok_or (tk_balance env token a w) (Panic Token_trap)"

definition derive_voting_power ::
    "'w env \<Rightarrow> 'w \<Rightarrow> governance_config \<Rightarrow> addr \<Rightarrow> i128 cres" where
  "derive_voting_power env w config voter =
     (case gc_voting_scheme config of
        OnePersonOneVote \<Rightarrow> Inr 1
      | TokenWeighted \<Rightarrow> token_balance env w (gc_governance_token config) voter)"

definition total_voting_power :: "governance_config \<Rightarrow> i128" where
  "total_voting_power config =
     (case gc_voting_scheme config of
        OnePersonOneVote \<Rightarrow> int (gc_one_person_total_voters config)
      | TokenWeighted \<Rightarrow> gc_token_total_voting_power config)"

definition enforce_min_proposal_stake ::
    "'w env \<Rightarrow> 'w \<Rightarrow> governance_config \<Rightarrow> addr \<Rightarrow> unit cres" where
  "enforce_min_proposal_stake env w config proposer =
     (if gc_min_proposal_stake config = 0 then Inr ()
      else
        bnd (token_balance env w (gc_governance_token config) proposer) (\<lambda>balance.
          if balance < gc_min_proposal_stake config then Inl (Contract Gov_InsufficientStake)
          else Inr ()))"

section \<open>Initialisation\<close>

definition init_governance ::
    "'w env \<Rightarrow> core \<Rightarrow> addr \<Rightarrow> governance_config \<Rightarrow> core cres" where
  "init_governance env s admin config =
     bnd (require_auth env admin) (\<lambda>_.
       if cs_mode s \<noteq> None then Inl (Contract Gov_AlreadyInitialized)
       else if 10000 < gc_quorum_percentage config \<or> 10000 < gc_approval_threshold config
       then Inl (Contract Gov_InvalidThreshold)
       else if gc_approval_threshold config < 5000 then Inl (Contract Gov_ThresholdTooLow)
       else if gc_min_proposal_stake config < 0 then Inl (Contract Gov_InsufficientStake)
       else if total_voting_power config \<le> 0
       then Inl (Contract Gov_InvalidTotalVotingPower)
       else Inr (s\<lparr>gs_admin := Some admin, gs_config := Some config, gs_count := Some 0,
                   cs_mode := Some Governance_mode\<rparr>))"

section \<open>Proposals\<close>

definition create_proposal ::
    "'w env \<Rightarrow> 'w \<Rightarrow> core \<Rightarrow> addr \<Rightarrow> bytes32 \<Rightarrow> symbol \<Rightarrow> (core \<times> u32) cres" where
  "create_proposal env w s proposer new_wasm_hash description =
     bnd (require_auth env proposer) (\<lambda>_.
     bnd (ok_or (gs_config s) (Contract Gov_NotInitialized)) (\<lambda>config.
     bnd (enforce_min_proposal_stake env w config proposer) (\<lambda>_.
       let proposal_id = (case gs_count s of None \<Rightarrow> 0 | Some n \<Rightarrow> n);
           current_time = timestamp env in
       bnd (add_u64 current_time (gc_voting_period config)) (\<lambda>voting_end.
         let proposal = \<lparr>gp_id = proposal_id, gp_proposer = proposer,
               gp_wasm_hash = new_wasm_hash, gp_description = description,
               gp_created_at = current_time, gp_voting_start = current_time,
               gp_voting_end = voting_end, gp_execution_delay = gc_execution_delay config,
               gp_status = Active, gp_votes_for = 0, gp_votes_against = 0,
               gp_votes_abstain = 0, gp_total_votes = 0\<rparr>;
             proposals = (case gs_proposals s of None \<Rightarrow> Map.empty | Some m \<Rightarrow> m);
             s1 = s\<lparr>gs_proposals := Some (proposals(proposal_id \<mapsto> proposal))\<rparr>
         in bnd (add_u32 proposal_id 1) (\<lambda>n. Inr (s1\<lparr>gs_count := Some n\<rparr>, proposal_id))))))"

text \<open>Every other entrypoint starts by loading the proposals and the one it is about.\<close>

definition load_proposal ::
    "core \<Rightarrow> u32 \<Rightarrow> ((u32 \<rightharpoonup> gov_proposal) \<times> gov_proposal) cres" where
  "load_proposal s proposal_id =
     bnd (ok_or (gs_proposals s) (Contract Gov_ProposalsNotFound)) (\<lambda>proposals.
     bnd (ok_or (proposals proposal_id) (Contract Gov_ProposalNotFound)) (\<lambda>proposal.
       Inr (proposals, proposal)))"

definition store_proposal ::
    "core \<Rightarrow> (u32 \<rightharpoonup> gov_proposal) \<Rightarrow> u32 \<Rightarrow> gov_proposal \<Rightarrow> core" where
  "store_proposal s proposals proposal_id proposal =
     s\<lparr>gs_proposals := Some (proposals(proposal_id \<mapsto> proposal))\<rparr>"

section \<open>Voting\<close>

definition add_weight :: "i128 \<Rightarrow> i128 \<Rightarrow> i128 cres" where
  "add_weight a b = ok_or (checked_add_i128 a b) (Contract Gov_VoteWeightOverflow)"

definition scale_bps :: "i128 \<Rightarrow> i128 cres" where
  "scale_bps a = ok_or (checked_mul_i128 a 10000) (Contract Gov_VoteWeightOverflow)"

definition tally_vote :: "gov_proposal \<Rightarrow> vote_type \<Rightarrow> i128 \<Rightarrow> gov_proposal cres" where
  "tally_vote p vt weight =
     (case vt of
        For \<Rightarrow> bnd (add_weight (gp_votes_for p) weight) (\<lambda>v. Inr (p\<lparr>gp_votes_for := v\<rparr>))
      | Against \<Rightarrow>
          bnd (add_weight (gp_votes_against p) weight) (\<lambda>v. Inr (p\<lparr>gp_votes_against := v\<rparr>))
      | Abstain \<Rightarrow>
          bnd (add_weight (gp_votes_abstain p) weight) (\<lambda>v. Inr (p\<lparr>gp_votes_abstain := v\<rparr>)))"

definition cast_vote :: "'w env \<Rightarrow> 'w \<Rightarrow> core \<Rightarrow> addr \<Rightarrow> u32 \<Rightarrow> vote_type \<Rightarrow> core cres" where
  "cast_vote env w s voter proposal_id vt =
     bnd (require_auth env voter) (\<lambda>_.
     bnd (load_proposal s proposal_id) (\<lambda>(proposals, proposal).
       if gp_status proposal \<noteq> Active then Inl (Contract Gov_ProposalNotActive)
       else
         let current_time = timestamp env in
         if gp_voting_end proposal < current_time then Inl (Contract Gov_VotingEnded)
         else
           let votes = (case gs_votes s of None \<Rightarrow> Map.empty | Some m \<Rightarrow> m) in
           if votes (proposal_id, voter) \<noteq> None then Inl (Contract Gov_AlreadyVoted)
           else
             bnd (ok_or (gs_config s) (Contract Gov_NotInitialized)) (\<lambda>config.
             bnd (derive_voting_power env w config voter) (\<lambda>voting_power.
               if voting_power \<le> 0 then Inl (Contract Gov_ZeroVotingPower)
               else
                 bnd (tally_vote proposal vt voting_power) (\<lambda>p1.
                 bnd (add_u32 (gp_total_votes p1) 1) (\<lambda>n.
                   let votes' = votes((proposal_id, voter) \<mapsto>
                         \<lparr>v_voter = voter, v_proposal_id = proposal_id, v_vote_type = vt,
                          v_voting_power = voting_power, v_timestamp = current_time\<rparr>);
                       s1 = store_proposal s proposals proposal_id (p1\<lparr>gp_total_votes := n\<rparr>)
                   in Inr (s1\<lparr>gs_votes := Some votes'\<rparr>)))))))"

section \<open>Finalisation and execution\<close>

text \<open>The division is \<open>i128\<close> division, by a total that was checked to be positive.\<close>

definition finalize_proposal :: "'w env \<Rightarrow> core \<Rightarrow> u32 \<Rightarrow> (core \<times> proposal_status) cres" where
  "finalize_proposal env s proposal_id =
     bnd (load_proposal s proposal_id) (\<lambda>(proposals, proposal).
     bnd (ok_or (gs_config s) (Contract Gov_NotInitialized)) (\<lambda>config.
       if timestamp env \<le> gp_voting_end proposal then Inl (Contract Gov_VotingStillActive)
       else
         bnd (add_weight (gp_votes_for proposal) (gp_votes_against proposal)) (\<lambda>cast.
         bnd (add_weight cast (gp_votes_abstain proposal)) (\<lambda>total_cast.
           let total_power = total_voting_power config;
               settle = (\<lambda>st. Inr (store_proposal s proposals proposal_id
                                    (proposal\<lparr>gp_status := st\<rparr>), st))
           in
             if total_power \<le> 0 then Inl (Contract Gov_InvalidTotalVotingPower)
             else
               bnd (scale_bps total_cast) (\<lambda>scaled.
                 if scaled sdiv total_power < int (gc_quorum_percentage config)
                 then settle Rejected
                 else
                   bnd (add_weight (gp_votes_for proposal) (gp_votes_against proposal))
                     (\<lambda>approval_votes.
                       if approval_votes = 0 then settle Rejected
                       else
                         bnd (scale_bps (gp_votes_for proposal)) (\<lambda>scaled_for.
                           if int (gc_approval_threshold config)
                                \<le> scaled_for sdiv approval_votes
                           then settle Approved else settle Rejected)))))))"

definition execute_proposal :: "'w env \<Rightarrow> core \<Rightarrow> u32 \<Rightarrow> core cres" where
  "execute_proposal env s proposal_id =
     bnd (load_proposal s proposal_id) (\<lambda>(proposals, proposal).
       if gp_status proposal \<noteq> Approved then Inl (Contract Gov_ProposalNotApproved)
       else if timestamp env < sat_add_u64 (gp_voting_end proposal) (gp_execution_delay proposal)
       then Inl (Contract Gov_ExecutionDelayNotMet)
       else Inr (store_proposal s proposals proposal_id (proposal\<lparr>gp_status := Executed\<rparr>)))"

section \<open>Queries\<close>

definition approves :: "u64 \<Rightarrow> bytes32 \<Rightarrow> gov_proposal \<Rightarrow> bool" where
  "approves now wasm_hash p \<longleftrightarrow> gp_wasm_hash p = wasm_hash \<and> gp_status p = Executed \<and>
     sat_add_u64 (gp_voting_end p) (gp_execution_delay p) \<le> now"

text \<open>The loop \<open>while proposal_id < proposal_count\<close>.\<close>

function approval_loop ::
    "u64 \<Rightarrow> bytes32 \<Rightarrow> (u32 \<rightharpoonup> gov_proposal) \<Rightarrow> u32 \<Rightarrow> u32 \<Rightarrow> bool" where
  "approval_loop now wasm_hash proposals proposal_id proposal_count =
     (if proposal_id < proposal_count
      then
        if (case proposals proposal_id of
              None \<Rightarrow> False | Some p \<Rightarrow> approves now wasm_hash p)
        then True
        else approval_loop now wasm_hash proposals (proposal_id + 1) proposal_count
      else False)"
  by pat_completeness auto

termination
  by (relation "measure (\<lambda>(_, _, _, i, n). n - i)") auto

declare approval_loop.simps [simp del]

definition is_upgrade_approved :: "'w env \<Rightarrow> core \<Rightarrow> bytes32 \<Rightarrow> bool" where
  "is_upgrade_approved env s wasm_hash =
     (case gs_proposals s of
        None \<Rightarrow> False
      | Some proposals \<Rightarrow>
          approval_loop (timestamp env) wasm_hash proposals 0
            (case gs_count s of None \<Rightarrow> 0 | Some n \<Rightarrow> n))"

definition get_proposal_status :: "core \<Rightarrow> u32 \<Rightarrow> proposal_status cres" where
  "get_proposal_status s proposal_id =
     bnd (load_proposal s proposal_id) (\<lambda>(_, proposal). Inr (gp_status proposal))"

section \<open>Cancellation and expiry\<close>

definition cancel_proposal :: "'w env \<Rightarrow> core \<Rightarrow> addr \<Rightarrow> u32 \<Rightarrow> core cres" where
  "cancel_proposal env s caller proposal_id =
     bnd (require_auth env caller) (\<lambda>_.
     bnd (load_proposal s proposal_id) (\<lambda>(proposals, proposal).
       if gp_status proposal \<noteq> Active then Inl (Contract Gov_ProposalNotActive)
       else if caller \<noteq> gp_proposer proposal then Inl (Contract Gov_Unauthorized)
       else Inr (publish (PropCanc proposal_id caller)
                   (store_proposal s proposals proposal_id
                      (proposal\<lparr>gp_status := Gov_Cancelled\<rparr>)))))"

definition sweep_expired_proposal :: "'w env \<Rightarrow> core \<Rightarrow> u32 \<Rightarrow> core cres" where
  "sweep_expired_proposal env s proposal_id =
     bnd (load_proposal s proposal_id) (\<lambda>(proposals, proposal).
       if gp_status proposal \<noteq> Active then Inl (Contract Gov_ProposalNotActive)
       else if timestamp env \<le> gp_voting_end proposal
       then Inl (Contract Gov_VotingStillActive)
       else Inr (store_proposal s proposals proposal_id
                   (proposal\<lparr>gp_status := Gov_Expired\<rparr>)))"

section \<open>Sums over the votes\<close>

definition sum_votes :: "(u32 \<times> addr \<rightharpoonup> vote) \<Rightarrow> (vote \<Rightarrow> int) \<Rightarrow> int" where
  "sum_votes V f = (\<Sum>k \<in> dom V. f (the (V k)))"

definition tally :: "(u32 \<times> addr \<rightharpoonup> vote) \<Rightarrow> u32 \<Rightarrow> vote_type \<Rightarrow> int" where
  "tally V i t = sum_votes V
     (\<lambda>v. if v_proposal_id v = i \<and> v_vote_type v = t then v_voting_power v else 0)"

definition turnout :: "(u32 \<times> addr \<rightharpoonup> vote) \<Rightarrow> u32 \<Rightarrow> int" where
  "turnout V i = sum_votes V (\<lambda>v. if v_proposal_id v = i then 1 else 0)"

lemma sum_votes_upd:
  assumes "finite (dom V)" and "V k = None"
  shows "sum_votes (V(k \<mapsto> v)) f = sum_votes V f + f v"
proof -
  have "(\<Sum>x \<in> dom V. f (the ((V(k \<mapsto> v)) x))) = sum_votes V f"
    unfolding sum_votes_def using assms(2) by (intro sum.cong) auto
  moreover have "k \<notin> dom V" using assms(2) by auto
  ultimately show ?thesis using assms(1) by (simp add: sum_votes_def)
qed

lemma sum_votes_none:
  "(\<And>k v. V k = Some v \<Longrightarrow> f v = 0) \<Longrightarrow> sum_votes V f = 0"
  unfolding sum_votes_def by (intro sum.neutral) auto

lemma sum_votes_nonneg:
  "(\<And>k v. V k = Some v \<Longrightarrow> 0 \<le> f v) \<Longrightarrow> 0 \<le> sum_votes V f"
  unfolding sum_votes_def by (intro sum_nonneg) auto

text \<open>Counting heads: a sum of ones over the voters of one proposal.\<close>

lemma sum_votes_card:
  assumes "finite (dom V)" and "\<And>k v. V k = Some v \<Longrightarrow> fst k = v_proposal_id v"
    and "\<And>v. f v = (if v_proposal_id v = i \<and> P v then 1 else 0)"
  shows "sum_votes V f = int (card {a. \<exists>v. V (i, a) = Some v \<and> P v})"
proof -
  let ?K = "{k \<in> dom V. v_proposal_id (the (V k)) = i \<and> P (the (V k))}"
  have "sum_votes V f = (\<Sum>k \<in> dom V. if k \<in> ?K then 1 else 0)"
    unfolding sum_votes_def by (intro sum.cong) (simp_all add: assms(3))
  also have "\<dots> = (\<Sum>k \<in> dom V \<inter> ?K. 1)" by (rule sum.inter_restrict [OF assms(1), symmetric])
  also have "dom V \<inter> ?K = ?K" by blast
  also have "(\<Sum>k \<in> ?K. 1) = int (card ?K)" by simp
  also have "?K = Pair i ` {a. \<exists>v. V (i, a) = Some v \<and> P v}"
    using assms(2) by force
  also have "card \<dots> = card {a. \<exists>v. V (i, a) = Some v \<and> P v}"
    by (intro card_image inj_onI) simp
  finally show ?thesis .
qed

section \<open>The invariant\<close>

definition gov_proposals :: "core \<Rightarrow> u32 \<rightharpoonup> gov_proposal" where
  "gov_proposals s = (case gs_proposals s of None \<Rightarrow> Map.empty | Some m \<Rightarrow> m)"

definition gov_votes :: "core \<Rightarrow> u32 \<times> addr \<rightharpoonup> vote" where
  "gov_votes s = (case gs_votes s of None \<Rightarrow> Map.empty | Some m \<Rightarrow> m)"

definition gov_count :: "core \<Rightarrow> u32" where
  "gov_count s = (case gs_count s of None \<Rightarrow> 0 | Some n \<Rightarrow> n)"

definition config_valid :: "governance_config \<Rightarrow> bool" where
  "config_valid c \<longleftrightarrow> gc_quorum_percentage c \<le> 10000 \<and> 5000 \<le> gc_approval_threshold c \<and>
     gc_approval_threshold c \<le> 10000 \<and> 0 \<le> gc_min_proposal_stake c \<and>
     0 < total_voting_power c"

text \<open>Quorum and threshold in basis points, rounded down as the code does.\<close>

definition passed :: "governance_config \<Rightarrow> gov_proposal \<Rightarrow> bool" where
  "passed c p \<longleftrightarrow>
     int (gc_quorum_percentage c) \<le>
       (gp_votes_for p + gp_votes_against p + gp_votes_abstain p) * 10000
         div total_voting_power c \<and>
     0 < gp_votes_for p + gp_votes_against p \<and>
     int (gc_approval_threshold c) \<le>
       gp_votes_for p * 10000 div (gp_votes_for p + gp_votes_against p)"

definition counted :: "(u32 \<times> addr \<rightharpoonup> vote) \<Rightarrow> u32 \<Rightarrow> gov_proposal \<Rightarrow> bool" where
  "counted V i p \<longleftrightarrow> gp_votes_for p = tally V i For \<and> gp_votes_against p = tally V i Against \<and>
     gp_votes_abstain p = tally V i Abstain \<and> int (gp_total_votes p) = turnout V i"

definition vote_ok :: "governance_config \<Rightarrow> u32 \<times> addr \<Rightarrow> vote \<Rightarrow> bool" where
  "vote_ok c k v \<longleftrightarrow> v_proposal_id v = fst k \<and> v_voter v = snd k \<and> 0 < v_voting_power v \<and>
     (gc_voting_scheme c = OnePersonOneVote \<longrightarrow> v_voting_power v = 1)"

definition settled_by_votes :: "governance_config \<Rightarrow> gov_proposal \<Rightarrow> bool" where
  "settled_by_votes c p \<longleftrightarrow> (gp_status p = Approved \<or> gp_status p = Executed \<longrightarrow> passed c p)"

definition gov_ok :: "core \<Rightarrow> bool" where
  "gov_ok s \<longleftrightarrow>
     (case gs_config s of
        None \<Rightarrow> gs_proposals s = None \<and> gs_votes s = None
      | Some c \<Rightarrow>
          config_valid c \<and> finite (dom (gov_votes s)) \<and>
          (\<forall>i p. gov_proposals s i = Some p \<longrightarrow> i < gov_count s \<and> gp_id p = i \<and>
             counted (gov_votes s) i p \<and> settled_by_votes c p) \<and>
          (\<forall>k v. gov_votes s k = Some v \<longrightarrow> vote_ok c k v \<and> fst k < gov_count s))"

lemma gov_ok_cong:
  "gov_ok s \<Longrightarrow> gs_config s' = gs_config s \<Longrightarrow> gs_proposals s' = gs_proposals s \<Longrightarrow>
   gs_votes s' = gs_votes s \<Longrightarrow> gs_count s' = gs_count s \<Longrightarrow> gov_ok s'"
  by (simp only: gov_ok_def gov_proposals_def gov_votes_def gov_count_def)

lemma load_proposal_Inr [res_simps]:
  "load_proposal s i = Inr (P, p) \<longleftrightarrow> gs_proposals s = Some P \<and> P i = Some p"
  by (auto simp: load_proposal_def res_simps)

lemma tally_nonneg:
  "(\<And>k v. V k = Some v \<Longrightarrow> 0 < v_voting_power v) \<Longrightarrow> 0 \<le> tally V i t"
  unfolding tally_def by (intro sum_votes_nonneg) (simp add: less_imp_le)

lemma gov_okE:
  assumes "gov_ok s" and "gs_proposals s = Some P" and "P i = Some p"
  obtains c where "gs_config s = Some c" and "config_valid c" and "i < gov_count s"
    and "gp_id p = i" and "counted (gov_votes s) i p" and "settled_by_votes c p"
    and "0 \<le> gp_votes_for p" and "0 \<le> gp_votes_against p" and "0 \<le> gp_votes_abstain p"
proof (cases "gs_config s")
  case (Some c)
  have pos: "0 < v_voting_power v" if "gov_votes s k = Some v" for k v
    using assms(1) that Some by (cases k) (auto simp: gov_ok_def vote_ok_def)
  from Some show ?thesis
    using assms that tally_nonneg [of "gov_votes s", OF pos]
    by (simp add: gov_ok_def gov_proposals_def counted_def)
qed (use assms in \<open>simp add: gov_ok_def\<close>)

section \<open>Every operation keeps it\<close>

lemma init_governance_ok:
  "init_governance env s a c = Inr s' \<Longrightarrow> gov_ok s \<Longrightarrow> gs_config s = None \<Longrightarrow> gov_ok s'"
  by (auto simp: init_governance_def gov_ok_def config_valid_def gov_proposals_def
      gov_votes_def res_simps)

lemma create_proposal_ok:
  assumes "create_proposal env w s a h d = Inr (s', i)" and "gov_ok s"
  shows "gov_ok s'"
proof -
  obtain c where c: "gs_config s = Some c"
    using assms(1) by (auto simp: create_proposal_def res_simps)
  define p where "p = \<lparr>gp_id = i, gp_proposer = a, gp_wasm_hash = h, gp_description = d,
    gp_created_at = timestamp env, gp_voting_start = timestamp env,
    gp_voting_end = timestamp env + gc_voting_period c, gp_execution_delay = gc_execution_delay c,
    gp_status = Active, gp_votes_for = 0, gp_votes_against = 0, gp_votes_abstain = 0,
    gp_total_votes = 0\<rparr>"
  have i: "i = gov_count s"
    and s': "s' = s\<lparr>gs_proposals := Some ((gov_proposals s)(i \<mapsto> p)), gs_count := Some (i + 1)\<rparr>"
    using assms(1) unfolding create_proposal_def bnd_Inr require_auth_Inr ok_or_Inr c
      Let_def add_u64_Inr add_u32_Inr p_def gov_count_def gov_proposals_def
    by (simp, simp, elim conjE, simp)
  have p: "gp_id p = i" "gp_status p = Active" "gp_votes_for p = 0" "gp_votes_against p = 0"
      "gp_votes_abstain p = 0" "gp_total_votes p = 0"
    by (simp_all add: p_def)
  have ok: "config_valid c" "finite (dom (gov_votes s))"
      "\<And>j q. gov_proposals s j = Some q \<Longrightarrow> j < i \<and> gp_id q = j \<and>
         counted (gov_votes s) j q \<and> settled_by_votes c q"
    using assms(2) c by (simp_all add: gov_ok_def i)
  have votes: "vote_ok c k v \<and> fst k < i" if "gov_votes s k = Some v" for k v
    using assms(2) c that by (cases k) (simp add: gov_ok_def i)
  have "sum_votes (gov_votes s) (\<lambda>v. if v_proposal_id v = i \<and> P v then f v else 0) = 0" for P f
    using votes by (intro sum_votes_none) (fastforce simp: vote_ok_def)
  from this [of "\<lambda>_. True"] this
  have "counted (gov_votes s) i p" by (simp add: counted_def p tally_def turnout_def)
  moreover have "gov_proposals s' = (gov_proposals s)(i \<mapsto> p)" "gov_votes s' = gov_votes s"
      "gov_count s' = i + 1" "gs_config s' = Some c"
    by (simp_all add: s' gov_proposals_def gov_votes_def gov_count_def c)
  ultimately show ?thesis
    using ok votes p by (fastforce simp: gov_ok_def settled_by_votes_def)
qed

text \<open>The operations that only set a status.\<close>

lemma gov_ok_status:
  assumes "gov_ok s" and "gs_proposals s = Some P" and "P i = Some p"
    and "\<And>c. gs_config s = Some c \<Longrightarrow> settled_by_votes c (p\<lparr>gp_status := st\<rparr>)"
  shows "gov_ok (store_proposal s P i (p\<lparr>gp_status := st\<rparr>))"
proof -
  let ?s = "store_proposal s P i (p\<lparr>gp_status := st\<rparr>)"
  have P: "gov_proposals s = P" using assms(2) by (simp add: gov_proposals_def)
  have frame: "gov_proposals ?s = P(i \<mapsto> p\<lparr>gp_status := st\<rparr>)" "gov_votes ?s = gov_votes s"
      "gov_count ?s = gov_count s" "gs_config ?s = gs_config s"
    by (simp_all add: store_proposal_def gov_proposals_def gov_votes_def gov_count_def)
  obtain c where c: "gs_config s = Some c" "i < gov_count s" "gp_id p = i"
      "counted (gov_votes s) i p"
    using gov_okE [OF assms(1-3)] by metis
  have "counted (gov_votes s) i (p\<lparr>gp_status := st\<rparr>)" using c(4) by (simp add: counted_def)
  then show ?thesis
    using assms(1) c assms(4) by (auto simp: gov_ok_def frame P)
qed

lemma finalize_passed:
  assumes "finalize_proposal env s i = Inr (s', st)" and "gov_ok s"
  obtains P p c where "gs_proposals s = Some P" and "P i = Some p" and "gs_config s = Some c"
    and "s' = store_proposal s P i (p\<lparr>gp_status := st\<rparr>)" and "st = Approved \<or> st = Rejected"
    and "st = Approved \<longleftrightarrow> passed c p" and "gp_voting_end p < timestamp env"
proof -
  obtain P p c where P: "gs_proposals s = Some P" "P i = Some p" and c: "gs_config s = Some c"
      "config_valid c" and votes: "0 \<le> gp_votes_for p" "0 \<le> gp_votes_against p"
      "0 \<le> gp_votes_abstain p"
  proof -
    obtain P p where *: "gs_proposals s = Some P" "P i = Some p"
      using assms(1) by (auto simp: finalize_proposal_def res_simps)
    show thesis by (rule gov_okE [OF assms(2) *]) (rule that [OF *])
  qed
  have total: "0 < total_voting_power c" using c(2) by (simp add: config_valid_def)
  have "s' = store_proposal s P i (p\<lparr>gp_status := st\<rparr>) \<and> (st = Approved \<or> st = Rejected) \<and>
      (st = Approved \<longleftrightarrow> passed c p) \<and> gp_voting_end p < timestamp env"
    using assms(1) votes total
    by (auto simp: finalize_proposal_def res_simps P c(1) Let_def add_weight_def scale_bps_def
        checked_mul_i128_def checked_i128_def sdiv_pos passed_def split: if_splits)
  with that P c show thesis by blast
qed

lemma finalize_ok:
  assumes "finalize_proposal env s i = Inr (s', st)" and "gov_ok s"
  shows "gov_ok s'"
  by (rule finalize_passed [OF assms])
    (auto simp: settled_by_votes_def passed_def intro!: gov_ok_status [OF assms(2)])

lemma execute_proposal_Inr:
  assumes "execute_proposal env s i = Inr s'"
  obtains P p where "gs_proposals s = Some P" and "P i = Some p" and "gp_status p = Approved"
    and "sat_add_u64 (gp_voting_end p) (gp_execution_delay p) \<le> timestamp env"
    and "s' = store_proposal s P i (p\<lparr>gp_status := Executed\<rparr>)"
  using assms by (auto simp: execute_proposal_def res_simps)

lemma execute_proposal_ok:
  assumes "execute_proposal env s i = Inr s'" and "gov_ok s"
  shows "gov_ok s'"
proof (rule execute_proposal_Inr [OF assms(1)])
  fix P p
  assume p: "gs_proposals s = Some P" "P i = Some p" "gp_status p = Approved"
    and s': "s' = store_proposal s P i (p\<lparr>gp_status := Executed\<rparr>)"
  obtain c where "gs_config s = Some c" "settled_by_votes c p"
    using gov_okE [OF assms(2) p(1,2)] by metis
  then show ?thesis
    unfolding s' using p
    by (intro gov_ok_status [OF assms(2)]) (auto simp: settled_by_votes_def passed_def)
qed

lemma cancel_proposal_Inr:
  assumes "cancel_proposal env s a i = Inr s'"
  obtains P p where "gs_proposals s = Some P" and "P i = Some p" and "gp_status p = Active"
    and "a = gp_proposer p" and "authorized env a"
    and "s' = publish (PropCanc i a) (store_proposal s P i (p\<lparr>gp_status := Gov_Cancelled\<rparr>))"
  using assms by (auto simp: cancel_proposal_def res_simps)

lemma sweep_expired_Inr:
  assumes "sweep_expired_proposal env s i = Inr s'"
  obtains P p where "gs_proposals s = Some P" and "P i = Some p" and "gp_status p = Active"
    and "gp_voting_end p < timestamp env"
    and "s' = store_proposal s P i (p\<lparr>gp_status := Gov_Expired\<rparr>)"
  using assms by (auto simp: sweep_expired_proposal_def res_simps)

lemma cancel_proposal_ok:
  assumes "cancel_proposal env s a i = Inr s'" and "gov_ok s"
  shows "gov_ok s'"
proof (rule cancel_proposal_Inr [OF assms(1)])
  fix P p
  assume p: "gs_proposals s = Some P" "P i = Some p"
    and s': "s' = publish (PropCanc i a) (store_proposal s P i (p\<lparr>gp_status := Gov_Cancelled\<rparr>))"
  have "gov_ok (store_proposal s P i (p\<lparr>gp_status := Gov_Cancelled\<rparr>))"
    by (rule gov_ok_status [OF assms(2) p]) (simp add: settled_by_votes_def)
  then show ?thesis by (rule gov_ok_cong) (simp_all add: s')
qed

lemma sweep_expired_ok:
  assumes "sweep_expired_proposal env s i = Inr s'" and "gov_ok s"
  shows "gov_ok s'"
  by (rule sweep_expired_Inr [OF assms(1)])
    (auto simp: settled_by_votes_def intro!: gov_ok_status [OF assms(2)])

text \<open>A vote adds its weight to one of the three tallies, and one head to the turnout.\<close>

lemma tally_upd:
  assumes "finite (dom V)" and "V k = None" and "v_proposal_id v = i" and "v_vote_type v = t"
  shows "tally (V(k \<mapsto> v)) j u = tally V j u + (if j = i \<and> u = t then v_voting_power v else 0)"
    and "turnout (V(k \<mapsto> v)) j = turnout V j + (if j = i then 1 else 0)"
  using assms(3,4) unfolding tally_def turnout_def sum_votes_upd [OF assms(1,2)] by auto

lemma tally_vote_Inr:
  "tally_vote p t weight = Inr p' \<longleftrightarrow>
     (case t of
        For \<Rightarrow> in_i128 (gp_votes_for p + weight) \<and>
          p' = p\<lparr>gp_votes_for := gp_votes_for p + weight\<rparr>
      | Against \<Rightarrow> in_i128 (gp_votes_against p + weight) \<and>
          p' = p\<lparr>gp_votes_against := gp_votes_against p + weight\<rparr>
      | Abstain \<Rightarrow> in_i128 (gp_votes_abstain p + weight) \<and>
          p' = p\<lparr>gp_votes_abstain := gp_votes_abstain p + weight\<rparr>)"
  by (cases t) (auto simp: tally_vote_def add_weight_def res_simps)

lemma cast_vote_Inr:
  assumes "cast_vote env w s a i t = Inr s'"
  obtains P p c weight p1 where "gs_proposals s = Some P" and "P i = Some p"
    and "gp_status p = Active" and "timestamp env \<le> gp_voting_end p"
    and "gov_votes s (i, a) = None" and "gs_config s = Some c"
    and "derive_voting_power env w c a = Inr weight" and "0 < weight"
    and "tally_vote p t weight = Inr p1"
    and "s' = (store_proposal s P i (p1\<lparr>gp_total_votes := gp_total_votes p1 + 1\<rparr>))
      \<lparr>gs_votes := Some ((gov_votes s)((i, a) \<mapsto> \<lparr>v_voter = a, v_proposal_id = i,
         v_vote_type = t, v_voting_power = weight, v_timestamp = timestamp env\<rparr>))\<rparr>"
    and "authorized env a"
proof -
  obtain P p c weight p1 where "gs_proposals s = Some P" "P i = Some p" "gs_config s = Some c"
      "derive_voting_power env w c a = Inr weight" "tally_vote p t weight = Inr p1"
    using assms unfolding cast_vote_def bnd_Inr split_paired_Ex load_proposal_Inr ok_or_Inr
      prod.case if_Inl_Inr Let_def by blast
  with assms that show thesis
    by (simp add: cast_vote_def res_simps gov_votes_def Let_def)
qed

lemma cast_vote_ok:
  assumes "cast_vote env w s a i t = Inr s'" and "gov_ok s"
  shows "gov_ok s'"
proof (rule cast_vote_Inr [OF assms(1)])
  fix P p c weight p1
  assume p: "gs_proposals s = Some P" "P i = Some p" "gp_status p = Active"
    and new: "gov_votes s (i, a) = None" and c: "gs_config s = Some c"
    and weight: "derive_voting_power env w c a = Inr weight" "0 < weight"
    and p1: "tally_vote p t weight = Inr p1"
  define p' where "p' = p1\<lparr>gp_total_votes := gp_total_votes p1 + 1\<rparr>"
  define v where "v = \<lparr>v_voter = a, v_proposal_id = i, v_vote_type = t,
    v_voting_power = weight, v_timestamp = timestamp env\<rparr>"
  define V where "V = (gov_votes s)((i, a) \<mapsto> v)"
  assume "s' = (store_proposal s P i (p1\<lparr>gp_total_votes := gp_total_votes p1 + 1\<rparr>))
      \<lparr>gs_votes := Some ((gov_votes s)((i, a) \<mapsto> \<lparr>v_voter = a, v_proposal_id = i,
         v_vote_type = t, v_voting_power = weight, v_timestamp = timestamp env\<rparr>))\<rparr>"
  then have s': "gov_proposals s' = (gov_proposals s)(i \<mapsto> p')" "gov_votes s' = V"
      "gov_count s' = gov_count s" "gs_config s' = Some c"
    using p(1) c
    by (simp_all add: p'_def V_def v_def store_proposal_def gov_proposals_def gov_votes_def
        gov_count_def)
  have fin: "finite (dom (gov_votes s))" using assms(2) c by (simp add: gov_ok_def)
  note sums = tally_upd [OF fin new, of v i t]
  have old: "counted (gov_votes s) i p" "i < gov_count s" "gp_id p = i"
    by (rule gov_okE [OF assms(2) p(1,2)], simp)+
  have "counted V i p'" "gp_id p' = i" "gp_status p' = Active"
    using p1 old p(3) sums
    by (auto simp: tally_vote_Inr counted_def p'_def V_def v_def split: vote_type.splits)
  moreover have "counted V j q" if "j \<noteq> i" "counted (gov_votes s) j q" for j q
    using that sums by (auto simp: counted_def V_def v_def)
  moreover have "vote_ok c (i, a) v"
    using weight by (auto simp: vote_ok_def v_def derive_voting_power_def)
  ultimately show ?thesis
    using assms(2) old fin
    by (auto simp: gov_ok_def s' c V_def settled_by_votes_def)
qed

end
