(* ===== verification/GrainlifyCore.thy ===== *)
theory GrainlifyCore
  imports Multisig Governance
begin

text \<open>
  The entrypoints of the core contract (grainlify-core/src/lib.rs): the three exclusive ways
  to initialise it, upgrades by multisig or by a single admin behind a timelock, versions,
  migrations, and the monitoring counters that its entrypoints do maintain.
\<close>

section \<open>Monitoring\<close>

definition core_track_operation ::
    "'w env \<Rightarrow> symbol \<Rightarrow> addr \<Rightarrow> bool \<Rightarrow> core \<Rightarrow> core cres" where
  "core_track_operation env opn caller success s =
     bnd (track_operation (timestamp env) opn caller success (cs_monitor s)) (\<lambda>(ev, m).
       Inr (publish (Metric ev) (s\<lparr>cs_monitor := m\<rparr>)))"

definition core_emit_performance :: "'w env \<Rightarrow> symbol \<Rightarrow> u64 \<Rightarrow> core \<Rightarrow> core cres" where
  "core_emit_performance env fn duration s =
     bnd (emit_performance (timestamp env) fn duration (cs_monitor s)) (\<lambda>(ev, m).
       Inr (publish (Metric ev) (s\<lparr>cs_monitor := m\<rparr>)))"

text \<open>
  The end of every admin entrypoint: the operation, then its duration, which the code takes
  from two readings of the ledger time in the same invocation.
\<close>

definition finish_operation :: "'w env \<Rightarrow> symbol \<Rightarrow> addr \<Rightarrow> core \<Rightarrow> core cres" where
  "finish_operation env opn caller s =
     bnd (core_track_operation env opn caller True s)
       (core_emit_performance env opn (timestamp env - timestamp env))"

definition increment_counter :: "u64 option \<Rightarrow> u64" where
  "increment_counter v = sat_add_u64 (or_zero v) 1"

definition emit_governance_metric :: "'w env \<Rightarrow> symbol \<Rightarrow> u64 \<Rightarrow> core \<Rightarrow> core" where
  "emit_governance_metric env metric n s =
     publish (GovernanceMetric metric n (timestamp env)) s"

definition track_proposal_created :: "'w env \<Rightarrow> core \<Rightarrow> core" where
  "track_proposal_created env s =
     (let total = increment_counter (cs_gov_prop s)
      in emit_governance_metric env ''proposal'' total (s\<lparr>cs_gov_prop := Some total\<rparr>))"

definition track_vote_cast :: "'w env \<Rightarrow> core \<Rightarrow> core" where
  "track_vote_cast env s =
     (let total = increment_counter (cs_gov_vote s)
      in emit_governance_metric env ''vote'' total (s\<lparr>cs_gov_vote := Some total\<rparr>))"

definition track_upgrade_executed :: "'w env \<Rightarrow> core \<Rightarrow> core" where
  "track_upgrade_executed env s =
     (let total = increment_counter (cs_gov_upg s)
      in emit_governance_metric env ''upgrade'' total (s\<lparr>cs_gov_upg := Some total\<rparr>))"

definition track_migration_run :: "'w env \<Rightarrow> core \<Rightarrow> core" where
  "track_migration_run env s =
     (let total = increment_counter (cs_gov_migr s)
      in emit_governance_metric env ''migrate'' total (s\<lparr>cs_gov_migr := Some total\<rparr>))"

record core_analytics = monitor_analytics +
  an_proposals_created :: u64
  an_votes_cast :: u64
  an_upgrades_executed :: u64
  an_migrations_run :: u64

record core_snapshot = state_snapshot +
  sn_proposals_created :: u64
  sn_votes_cast :: u64
  sn_upgrades_executed :: u64
  sn_migrations_run :: u64

definition core_get_analytics :: "core \<Rightarrow> core_analytics" where
  "core_get_analytics s =
     monitor_analytics.extend (get_monitor_analytics (cs_monitor s))
       (core_analytics.fields (or_zero (cs_gov_prop s)) (or_zero (cs_gov_vote s))
          (or_zero (cs_gov_upg s)) (or_zero (cs_gov_migr s)))"

definition core_get_state_snapshot :: "'w env \<Rightarrow> core \<Rightarrow> core_snapshot" where
  "core_get_state_snapshot env s =
     state_snapshot.extend (get_state_snapshot (timestamp env) (cs_monitor s))
       (core_snapshot.fields (or_zero (cs_gov_prop s)) (or_zero (cs_gov_vote s))
          (or_zero (cs_gov_upg s)) (or_zero (cs_gov_migr s)))"

definition core_health_check :: "'w env \<Rightarrow> core \<Rightarrow> health_status" where
  "core_health_check env s = health_check (timestamp env) (cs_monitor s)"

definition core_get_performance_stats :: "core \<Rightarrow> symbol \<Rightarrow> performance_stats" where
  "core_get_performance_stats s fn = get_performance_stats fn (cs_monitor s)"

section \<open>Initialisation and governance\<close>

definition claim_upgrade_mode :: "upgrade_mode \<Rightarrow> core \<Rightarrow> core" where
  "claim_upgrade_mode mode s = s\<lparr>cs_mode := Some mode\<rparr>"

definition upgrade_mode_already_claimed :: "core \<Rightarrow> bool" where
  "upgrade_mode_already_claimed s \<longleftrightarrow> cs_mode s \<noteq> None"

definition core_init :: "core \<Rightarrow> addr list \<Rightarrow> u32 \<Rightarrow> core cres" where
  "core_init s sigs threshold =
     (if cs_version s \<noteq> None then Inl (Panic (Message ''Already initialized''))
      else if upgrade_mode_already_claimed s
      then Inl (Panic (Message ''Upgrade mode already configured for this contract instance''))
      else
        bnd (ms_init s sigs threshold) (\<lambda>s1.
          Inr ((claim_upgrade_mode Multisig_mode s1)\<lparr>cs_version := Some VERSION\<rparr>)))"

text \<open>
  A rejected second initialisation records a failed operation before it panics; the panic
  reverts that too.
\<close>

definition init_admin :: "'w env \<Rightarrow> core \<Rightarrow> addr \<Rightarrow> core cres" where
  "init_admin env s admin =
     (if cs_admin s \<noteq> None then Inl (Panic (Message ''Already initialized''))
      else if upgrade_mode_already_claimed s
      then Inl (Panic (Message ''Upgrade mode already configured for this contract instance''))
      else
        let s1 = claim_upgrade_mode SingleAdmin_mode (s\<lparr>cs_admin := Some admin\<rparr>)
        in finish_operation env ''init'' admin (s1\<lparr>cs_version := Some VERSION\<rparr>))"

definition core_create_proposal ::
    "'w env \<Rightarrow> 'w \<Rightarrow> core \<Rightarrow> addr \<Rightarrow> bytes32 \<Rightarrow> symbol \<Rightarrow> (core \<times> u32) cres" where
  "core_create_proposal env w s proposer wasm_hash description =
     bnd (create_proposal env w s proposer wasm_hash description) (\<lambda>(s1, proposal_id).
       Inr (track_proposal_created env s1, proposal_id))"

definition core_cast_vote ::
    "'w env \<Rightarrow> 'w \<Rightarrow> core \<Rightarrow> addr \<Rightarrow> u32 \<Rightarrow> vote_type \<Rightarrow> core cres" where
  "core_cast_vote env w s voter proposal_id vt =
     bnd (cast_vote env w s voter proposal_id vt) (\<lambda>s1. Inr (track_vote_cast env s1))"

definition is_upg_ok :: "'w env \<Rightarrow> core \<Rightarrow> bytes32 \<Rightarrow> bool" where
  "is_upg_ok env s wasm_hash = is_upgrade_approved env s wasm_hash"

definition is_vetoed :: "core \<Rightarrow> u32 \<Rightarrow> bool" where
  "is_vetoed s proposal_id \<longleftrightarrow> get_proposal_status s proposal_id = Inr Gov_Cancelled"

section \<open>Upgrade by the multisig\<close>

definition propose_upgrade :: "'w env \<Rightarrow> core \<Rightarrow> addr \<Rightarrow> bytes32 \<Rightarrow> (core \<times> u64) cres" where
  "propose_upgrade env s proposer wasm_hash = propose env s proposer (Upgrade wasm_hash)"

definition approve_upgrade :: "'w env \<Rightarrow> core \<Rightarrow> u64 \<Rightarrow> addr \<Rightarrow> core cres" where
  "approve_upgrade env s proposal_id signer = approve env s proposal_id signer"

definition update_current_contract_wasm :: "'w env \<Rightarrow> bytes32 \<Rightarrow> core \<Rightarrow> core cres" where
  "update_current_contract_wasm env wasm_hash s =
     (if \<not> wasm_uploaded env wasm_hash then Inl (Panic Wasm_missing)
      else Inr (s\<lparr>cs_wasm := Some wasm_hash\<rparr>))"

definition execute_upgrade :: "'w env \<Rightarrow> core \<Rightarrow> u64 \<Rightarrow> u64 \<Rightarrow> core cres" where
  "execute_upgrade env s proposal_id expected_nonce =
     bnd (get_action s proposal_id) (\<lambda>action.
       case action of Upgrade wasm_hash \<Rightarrow>
         bnd (execute s proposal_id action expected_nonce
                (update_current_contract_wasm env wasm_hash)) (\<lambda>s1.
           Inr (track_upgrade_executed env
                  (publish (Core_UpgradeExecuted (Some proposal_id) wasm_hash) s1))))"

definition multisig_nonce :: "core \<Rightarrow> u64" where
  "multisig_nonce s = nonce s"

section \<open>Upgrade by the admin\<close>

definition core_require_admin :: "'w env \<Rightarrow> core \<Rightarrow> addr cres" where
  "core_require_admin env s =
     bnd (ok_or (cs_admin s) (Panic Unwrap_none)) (\<lambda>admin.
     bnd (require_auth env admin) (\<lambda>_. Inr admin))"

definition get_upgrade_delay :: "core \<Rightarrow> u64" where
  "get_upgrade_delay s = (case cs_upgrade_delay s of
       None \<Rightarrow> DEFAULT_UPGRADE_DELAY_SECONDS | Some d \<Rightarrow> d)"

definition set_upgrade_delay :: "'w env \<Rightarrow> core \<Rightarrow> u64 \<Rightarrow> core cres" where
  "set_upgrade_delay env s delay_seconds =
     bnd (core_require_admin env s) (\<lambda>admin.
       if delay_seconds < MIN_UPGRADE_DELAY_SECONDS
       then Inl (Panic (Message ''Upgrade delay below minimum''))
       else finish_operation env ''set_delay'' admin
              (s\<lparr>cs_upgrade_delay := Some delay_seconds\<rparr>))"

definition schedule_upgrade ::
    "'w env \<Rightarrow> core \<Rightarrow> bytes32 \<Rightarrow> (core \<times> scheduled_upgrade) cres" where
  "schedule_upgrade env s wasm_hash =
     bnd (core_require_admin env s) (\<lambda>admin.
       let delay_seconds = get_upgrade_delay s;
           scheduled_at = timestamp env;
           executable_at = sat_add_u64 scheduled_at delay_seconds;
           scheduled = \<lparr>su_wasm_hash = wasm_hash, su_scheduled_at = scheduled_at,
                        su_executable_at = executable_at\<rparr>;
           s1 = publish (UpgradeScheduledEvent wasm_hash scheduled_at executable_at delay_seconds)
                  (s\<lparr>cs_scheduled := Some scheduled\<rparr>)
       in bnd (finish_operation env ''sched_upg'' admin s1) (\<lambda>s2. Inr (s2, scheduled)))"

definition get_scheduled_upgrade :: "core \<Rightarrow> scheduled_upgrade option" where
  "get_scheduled_upgrade s = cs_scheduled s"

definition is_upgrade_ready :: "'w env \<Rightarrow> core \<Rightarrow> bytes32 \<Rightarrow> bool" where
  "is_upgrade_ready env s wasm_hash =
     (case get_scheduled_upgrade s of
        None \<Rightarrow> False
      | Some sch \<Rightarrow> su_wasm_hash sch = wasm_hash \<and> su_executable_at sch \<le> timestamp env)"

definition require_scheduled_upgrade :: "'w env \<Rightarrow> core \<Rightarrow> bytes32 \<Rightarrow> scheduled_upgrade cres" where
  "require_scheduled_upgrade env s wasm_hash =
     bnd (ok_or (cs_scheduled s) (Panic (Message ''No scheduled upgrade''))) (\<lambda>sch.
       if su_wasm_hash sch \<noteq> wasm_hash
       then Inl (Panic (Message ''Scheduled upgrade hash mismatch''))
       else if timestamp env < su_executable_at sch
       then Inl (Panic (Message ''Upgrade timelock not elapsed''))
       else Inr sch)"

definition core_upgrade :: "'w env \<Rightarrow> core \<Rightarrow> bytes32 \<Rightarrow> core cres" where
  "core_upgrade env s new_wasm_hash =
     bnd (core_require_admin env s) (\<lambda>admin.
     bnd (require_scheduled_upgrade env s new_wasm_hash) (\<lambda>sch.
       let current_version = (case cs_version s of None \<Rightarrow> 1 | Some v \<Rightarrow> v) in
       bnd (update_current_contract_wasm env new_wasm_hash
              (s\<lparr>cs_previous_version := Some current_version\<rparr>)) (\<lambda>s1.
         let s2 = publish (UpgradeExecutedEvent (su_wasm_hash sch) (timestamp env) current_version)
                    (s1\<lparr>cs_scheduled := None\<rparr>);
             s3 = publish (Core_UpgradeExecuted None (su_wasm_hash sch)) s2
         in bnd (core_track_operation env ''upgrade'' admin True s3) (\<lambda>s4.
              core_emit_performance env ''upgrade'' (timestamp env - timestamp env)
                (track_upgrade_executed env s4)))))"

section \<open>Versions\<close>

definition get_version :: "core \<Rightarrow> u32" where
  "get_version s = (case cs_version s of None \<Rightarrow> 0 | Some v \<Rightarrow> v)"

definition get_ver :: "core \<Rightarrow> u32" where
  "get_ver s = get_version s"

definition get_version_semver_string :: "core \<Rightarrow> string" where
  "get_version_semver_string s =
     (let raw = get_version s in
      if raw = 0 then ''0.0.0''
      else if raw = 1 \<or> raw = 10000 then ''1.0.0''
      else if raw = 2 \<or> raw = 20000 then ''2.0.0''
      else if raw = 3 \<or> raw = 30000 then ''3.0.0''
      else if raw = 10100 then ''1.1.0''
      else if raw = 10001 then ''1.0.1''
      else ''unknown'')"

definition sat_mul_u32 :: "u32 \<Rightarrow> u32 \<Rightarrow> u32" where
  "sat_mul_u32 a b = min u32_max (a * b)"

definition get_version_numeric_encoded :: "core \<Rightarrow> u32" where
  "get_version_numeric_encoded s =
     (let raw = get_version s in if 10000 \<le> raw then raw else sat_mul_u32 raw 10000)"

definition require_min_version :: "core \<Rightarrow> u32 \<Rightarrow> unit cres" where
  "require_min_version s min_numeric =
     (if get_version_numeric_encoded s < min_numeric
      then Inl (Panic (Message ''Incompatible contract version'')) else Inr ())"

definition set_version :: "'w env \<Rightarrow> core \<Rightarrow> u32 \<Rightarrow> core cres" where
  "set_version env s new_version =
     bnd (core_require_admin env s) (\<lambda>admin.
       let old_version = (case cs_version s of None \<Rightarrow> 1 | Some v \<Rightarrow> v)
       in finish_operation env ''set_ver'' admin
            (publish (VersionChanged old_version new_version admin)
               (s\<lparr>cs_version := Some new_version\<rparr>)))"

section \<open>Migrations\<close>

definition migrate_v1_to_v2 :: "core \<Rightarrow> core" where
  "migrate_v1_to_v2 s = s"

definition migrate_v2_to_v3 :: "core \<Rightarrow> core" where
  "migrate_v2_to_v3 s = s"

text \<open>The loop \<open>while from_version < target_version\<close>; the events before a panic are reverted.\<close>

function migrate_loop :: "u32 \<Rightarrow> u32 \<Rightarrow> core \<Rightarrow> core cres" where
  "migrate_loop from_version target_version s =
     (if from_version < target_version
      then
        let next_version = from_version + 1 in
        if next_version = 2 then migrate_loop next_version target_version (migrate_v1_to_v2 s)
        else if next_version = 3
        then migrate_loop next_version target_version (migrate_v2_to_v3 s)
        else Inl (Panic (Message ''No migration path available''))
      else Inr s)"
  by pat_completeness auto

termination
  by (relation "measure (\<lambda>(from_version, target_version, _). target_version - from_version)")
    auto

declare migrate_loop.simps [simp del]

definition emit_migration_event ::
    "u32 \<Rightarrow> u32 \<Rightarrow> u64 \<Rightarrow> bytes32 \<Rightarrow> bool \<Rightarrow> string option \<Rightarrow> core \<Rightarrow> core" where
  "emit_migration_event from_version to_version ts hash success message s =
     publish (MigrationCompleted from_version to_version ts hash success message)
       (publish (MigrationEvent from_version to_version ts hash success message) s)"

definition already_migrated :: "core \<Rightarrow> u32 \<Rightarrow> bool" where
  "already_migrated s target_version =
     (case cs_migration s of None \<Rightarrow> False | Some m \<Rightarrow> target_version \<le> mg_to_version m)"

definition migrate :: "'w env \<Rightarrow> core \<Rightarrow> u32 \<Rightarrow> bytes32 \<Rightarrow> core cres" where
  "migrate env s target_version migration_hash =
     bnd (core_require_admin env s) (\<lambda>admin.
       let current_version = (case cs_version s of None \<Rightarrow> 1 | Some v \<Rightarrow> v) in
       if already_migrated s target_version then Inr s
       else if target_version \<le> current_version
       then Inl (Panic (Message ''Target version must be greater than current version''))
       else if already_migrated s target_version then Inr s
       else
         bnd (migrate_loop current_version target_version s) (\<lambda>s1.
           let s2 = s1\<lparr>cs_version := Some target_version,
                       cs_migration := Some \<lparr>mg_from_version = current_version,
                         mg_to_version = target_version, mg_migrated_at = timestamp env,
                         mg_migration_hash = migration_hash\<rparr>\<rparr>;
               s3 = emit_migration_event current_version target_version (timestamp env)
                      migration_hash True None s2
           in bnd (core_track_operation env ''migrate'' admin True s3) (\<lambda>s4.
                core_emit_performance env ''migrate'' (timestamp env - timestamp env)
                  (track_migration_run env s4))))"

definition get_migration_state :: "core \<Rightarrow> migration_state option" where
  "get_migration_state s = cs_migration s"

definition get_previous_version :: "core \<Rightarrow> u32 option" where
  "get_previous_version s = cs_previous_version s"

end
