(* ===== verification/CoreSystem.thy ===== *)
theory CoreSystem
  imports GrainlifyCore
begin

text \<open>
  The core contract as a transition system: one call per entrypoint that changes state, any
  of them in any order, in any environment. Its reachable states satisfy the invariant
  \<open>core_ok\<close>: only the path that was claimed at initialisation has any state, the multisig
  and the governance are well formed, and a scheduled upgrade has its delay.
\<close>

section \<open>Calls\<close>

datatype core_call =
    Core_init "addr list" u32
  | Init_governance addr governance_config
  | Init_admin addr
  | Create_proposal addr bytes32 symbol
  | Cast_vote addr u32 vote_type
  | Finalize_proposal u32
  | Cancel_proposal addr u32
  | Execute_proposal u32
  | Sweep_expired_proposal u32
  | Propose_upgrade addr bytes32
  | Approve_upgrade u64 addr
  | Execute_upgrade u64 u64
  | Remove_signer addr addr
  | Add_signer addr addr
  | Rotate_signers addr "addr list" "addr list" "u32 option"
  | Set_upgrade_delay u64
  | Schedule_upgrade bytes32
  | Core_upgrade bytes32
  | Set_version u32
  | Migrate u32 bytes32

definition drop_value :: "(core \<times> 'a) cres \<Rightarrow> core cres" where
  "drop_value r = bnd r (\<lambda>(s, _). Inr s)"

lemma drop_value_Inr [res_simps]: "drop_value r = Inr s \<longleftrightarrow> (\<exists>v. r = Inr (s, v))"
  by (auto simp: drop_value_def res_simps)

fun core_exec :: "'w env \<Rightarrow> 'w \<Rightarrow> core_call \<Rightarrow> core \<Rightarrow> core cres" where
  "core_exec env w (Core_init sigs t) s = core_init s sigs t"
| "core_exec env w (Init_governance a c) s = init_governance env s a c"
| "core_exec env w (Init_admin a) s = init_admin env s a"
| "core_exec env w (Create_proposal a h d) s = drop_value (core_create_proposal env w s a h d)"
| "core_exec env w (Cast_vote a i t) s = core_cast_vote env w s a i t"
| "core_exec env w (Finalize_proposal i) s = drop_value (finalize_proposal env s i)"
| "core_exec env w (Cancel_proposal a i) s = cancel_proposal env s a i"
| "core_exec env w (Execute_proposal i) s = execute_proposal env s i"
| "core_exec env w (Sweep_expired_proposal i) s = sweep_expired_proposal env s i"
| "core_exec env w (Propose_upgrade a h) s = drop_value (propose_upgrade env s a h)"
| "core_exec env w (Approve_upgrade i a) s = approve_upgrade env s i a"
| "core_exec env w (Execute_upgrade i n) s = execute_upgrade env s i n"
| "core_exec env w (Remove_signer a x) s = remove_signer env s a x"
| "core_exec env w (Add_signer a x) s = add_signer env s a x"
| "core_exec env w (Rotate_signers a xs ys t) s = rotate_signers env s a xs ys t"
| "core_exec env w (Set_upgrade_delay d) s = set_upgrade_delay env s d"
| "core_exec env w (Schedule_upgrade h) s = drop_value (schedule_upgrade env s h)"
| "core_exec env w (Core_upgrade h) s = core_upgrade env s h"
| "core_exec env w (Set_version v) s = set_version env s v"
| "core_exec env w (Migrate v h) s = migrate env s v h"

inductive core_step :: "core \<Rightarrow> 'w env \<times> 'w \<times> core_call \<Rightarrow> core \<Rightarrow> bool" where
  core_invoke: "core_exec env w c s = Inr s' \<Longrightarrow> core_step s (env, w, c) s'"

inductive_cases core_stepE: "core_step s l s'"

abbreviation core_initial :: "core \<Rightarrow> bool" where
  "core_initial \<equiv> \<lambda>s. s = initial_core"

abbreviation core_reachable :: "'w itself \<Rightarrow> core \<Rightarrow> bool" where
  "core_reachable T \<equiv> reach core_initial (core_step :: _ \<Rightarrow> 'w env \<times> 'w \<times> _ \<Rightarrow> _ \<Rightarrow> bool)"

section \<open>What each group of calls leaves alone\<close>

definition monitor_only :: "core \<Rightarrow> core \<Rightarrow> bool" where
  "monitor_only s s' \<longleftrightarrow> s' = s\<lparr>cs_monitor := cs_monitor s', cs_events := cs_events s'\<rparr>"

definition gov_only :: "core \<Rightarrow> core \<Rightarrow> bool" where
  "gov_only s s' \<longleftrightarrow> s' = s\<lparr>gs_proposals := gs_proposals s', gs_votes := gs_votes s',
     gs_count := gs_count s', cs_gov_prop := cs_gov_prop s', cs_gov_vote := cs_gov_vote s',
     cs_events := cs_events s'\<rparr>"

definition ms_only :: "core \<Rightarrow> core \<Rightarrow> bool" where
  "ms_only s s' \<longleftrightarrow> s' = s\<lparr>ms_config := ms_config s', ms_proposals := ms_proposals s',
     ms_counter := ms_counter s', ms_nonce := ms_nonce s', cs_wasm := cs_wasm s',
     cs_gov_upg := cs_gov_upg s', cs_events := cs_events s'\<rparr>"

definition admin_only :: "core \<Rightarrow> core \<Rightarrow> bool" where
  "admin_only s s' \<longleftrightarrow> s' = s\<lparr>cs_version := cs_version s', cs_migration := cs_migration s',
     cs_previous_version := cs_previous_version s', cs_upgrade_delay := cs_upgrade_delay s',
     cs_scheduled := cs_scheduled s', cs_monitor := cs_monitor s',
     cs_gov_upg := cs_gov_upg s', cs_gov_migr := cs_gov_migr s', cs_wasm := cs_wasm s',
     cs_events := cs_events s'\<rparr>"

fun gov_call :: "core_call \<Rightarrow> bool" where
  "gov_call (Create_proposal _ _ _) = True"
| "gov_call (Cast_vote _ _ _) = True"
| "gov_call (Finalize_proposal _) = True"
| "gov_call (Cancel_proposal _ _) = True"
| "gov_call (Execute_proposal _) = True"
| "gov_call (Sweep_expired_proposal _) = True"
| "gov_call _ = False"

fun ms_call :: "core_call \<Rightarrow> bool" where
  "ms_call (Propose_upgrade _ _) = True"
| "ms_call (Approve_upgrade _ _) = True"
| "ms_call (Execute_upgrade _ _) = True"
| "ms_call (Remove_signer _ _) = True"
| "ms_call (Add_signer _ _) = True"
| "ms_call (Rotate_signers _ _ _ _) = True"
| "ms_call _ = False"

fun admin_only_call :: "core_call \<Rightarrow> bool" where
  "admin_only_call (Set_upgrade_delay _) = True"
| "admin_only_call (Schedule_upgrade _) = True"
| "admin_only_call (Core_upgrade _) = True"
| "admin_only_call (Set_version _) = True"
| "admin_only_call (Migrate _ _) = True"
| "admin_only_call _ = False"

lemma core_require_admin_Inr [res_simps]:
  "core_require_admin env s = Inr a \<longleftrightarrow> cs_admin s = Some a \<and> authorized env a"
  by (auto simp: core_require_admin_def res_simps)

lemma monitor_only_trans: "monitor_only s s1 \<Longrightarrow> monitor_only s1 s2 \<Longrightarrow> monitor_only s s2"
  unfolding monitor_only_def by (cases s; cases s1; cases s2) simp

lemma tracking_only:
  "core_track_operation env opn a ok s = Inr s1 \<Longrightarrow> monitor_only s s1"
  "core_emit_performance env fn d s = Inr s1 \<Longrightarrow> monitor_only s s1"
  by (auto simp: core_track_operation_def core_emit_performance_def res_simps publish_def
      monitor_only_def)

lemma finish_operation_only: "finish_operation env opn a s = Inr s1 \<Longrightarrow> monitor_only s s1"
  unfolding finish_operation_def bnd_Inr using tracking_only monitor_only_trans by metis

lemma gov_only_frame:
  assumes "gov_only s s'"
  shows "cs_admin s' = cs_admin s \<and> cs_version s' = cs_version s \<and>
     cs_mode s' = cs_mode s \<and> ms_config s' = ms_config s \<and> ms_proposals s' = ms_proposals s \<and>
     ms_counter s' = ms_counter s \<and> ms_nonce s' = ms_nonce s \<and> gs_config s' = gs_config s \<and>
     cs_scheduled s' = cs_scheduled s \<and> cs_upgrade_delay s' = cs_upgrade_delay s \<and>
     cs_wasm s' = cs_wasm s"
  using assms unfolding gov_only_def by (cases s; cases s') simp

lemma ms_only_frame:
  assumes "ms_only s s'"
  shows "cs_admin s' = cs_admin s \<and> cs_version s' = cs_version s \<and>
     cs_mode s' = cs_mode s \<and> gs_config s' = gs_config s \<and>
     gs_proposals s' = gs_proposals s \<and> gs_votes s' = gs_votes s \<and> gs_count s' = gs_count s \<and>
     cs_scheduled s' = cs_scheduled s \<and> cs_upgrade_delay s' = cs_upgrade_delay s"
  using assms unfolding ms_only_def by (cases s; cases s') simp

lemma admin_only_frame:
  assumes "admin_only s s'"
  shows "cs_admin s' = cs_admin s \<and> cs_mode s' = cs_mode s \<and>
     ms_config s' = ms_config s \<and> ms_proposals s' = ms_proposals s \<and>
     ms_counter s' = ms_counter s \<and> ms_nonce s' = ms_nonce s \<and> gs_config s' = gs_config s \<and>
     gs_proposals s' = gs_proposals s \<and> gs_votes s' = gs_votes s \<and> gs_count s' = gs_count s"
  using assms unfolding admin_only_def by (cases s; cases s') simp

lemma monitor_only_frame:
  assumes "monitor_only s s'"
  shows "admin_only s s' \<and> cs_version s' = cs_version s \<and> cs_migration s' = cs_migration s \<and>
     cs_scheduled s' = cs_scheduled s \<and> cs_upgrade_delay s' = cs_upgrade_delay s \<and>
     cs_wasm s' = cs_wasm s \<and> cs_previous_version s' = cs_previous_version s \<and>
     cs_gov_upg s' = cs_gov_upg s"
  using assms unfolding monitor_only_def admin_only_def by (cases s; cases s') simp

section \<open>The governance calls\<close>

lemma gov_only_store:
  "gov_only s (store_proposal s P i p)"
  "gov_only s (publish e (store_proposal s P i p))"
  "gov_only s ((store_proposal s P i p)\<lparr>gs_votes := V\<rparr>)"
  "gov_only s (track_vote_cast env ((store_proposal s P i p)\<lparr>gs_votes := V\<rparr>))"
  by (simp_all add: gov_only_def store_proposal_def publish_def track_vote_cast_def Let_def
      emit_governance_metric_def)

lemma create_only:
  assumes "core_create_proposal env w s a h d = Inr (s', i)"
  shows "gov_only s s'"
proof -
  obtain s1 where s1: "create_proposal env w s a h d = Inr (s1, i)"
      and s': "s' = track_proposal_created env s1"
    using assms by (auto simp: core_create_proposal_def res_simps)
  from s1 obtain P n where "s1 = s\<lparr>gs_proposals := P, gs_count := n\<rparr>"
    by (auto simp: create_proposal_def res_simps Let_def)
  then show ?thesis
    by (simp add: s' gov_only_def track_proposal_created_def Let_def publish_def
        emit_governance_metric_def)
qed

lemma vote_only: "core_cast_vote env w s a i t = Inr s' \<Longrightarrow> gov_only s s'"
  by (auto simp: core_cast_vote_def res_simps gov_only_store elim!: cast_vote_Inr)

lemma finalize_only: "finalize_proposal env s i = Inr (s', st) \<Longrightarrow> gov_only s s'"
  by (auto simp: finalize_proposal_def res_simps Let_def gov_only_store split: if_splits)

lemma settle_only:
  "cancel_proposal env s a i = Inr s' \<Longrightarrow> gov_only s s'"
  "execute_proposal env s i = Inr s' \<Longrightarrow> gov_only s s'"
  "sweep_expired_proposal env s i = Inr s' \<Longrightarrow> gov_only s s'"
  by (auto simp: gov_only_store elim!: cancel_proposal_Inr execute_proposal_Inr sweep_expired_Inr)

lemma gov_call_only: "core_exec env w c s = Inr s' \<Longrightarrow> gov_call c \<Longrightarrow> gov_only s s'"
  by (cases c) (auto simp: drop_value_Inr dest: create_only vote_only finalize_only settle_only)

lemma track_gov_ok:
  "gov_ok s \<Longrightarrow> gov_ok (track_proposal_created env s)"
  "gov_ok s \<Longrightarrow> gov_ok (track_vote_cast env s)"
  by (rule gov_ok_cong, assumption; simp add: track_proposal_created_def track_vote_cast_def
      Let_def emit_governance_metric_def)+

lemma gov_call_ok:
  assumes "core_exec env w c s = Inr s'" and "gov_call c" and "gov_ok s"
  shows "gov_ok s'"
proof (cases c)
  case (Create_proposal a h d)
  then obtain s1 i where "create_proposal env w s a h d = Inr (s1, i)"
      "s' = track_proposal_created env s1"
    using assms(1) by (auto simp: core_create_proposal_def res_simps)
  then show ?thesis using create_proposal_ok [OF _ assms(3)] track_gov_ok(1) by metis
next
  case (Cast_vote a i t)
  then obtain s1 where "cast_vote env w s a i t = Inr s1" "s' = track_vote_cast env s1"
    using assms(1) by (auto simp: core_cast_vote_def res_simps)
  then show ?thesis using cast_vote_ok [OF _ assms(3)] track_gov_ok(2) by metis
qed (use assms in \<open>auto simp: drop_value_Inr dest: finalize_ok cancel_proposal_ok
       execute_proposal_ok sweep_expired_ok\<close>)

section \<open>The multisig calls\<close>

lemma propose_only:
  "propose env s a action = Inr (s', i) \<Longrightarrow> ms_only s s' \<and> ms_config s' = ms_config s \<and> ms_config s \<noteq> None"
  by (cases action) (auto simp: propose_def res_simps Let_def publish_def ms_only_def)

lemma approve_only:
  "approve env s i a = Inr s' \<Longrightarrow> ms_only s s' \<and> ms_config s' = ms_config s"
  by (cases "mp_action (the (ms_proposals s i))")
    (auto simp: approve_def res_simps Let_def publish_def ms_only_def)

lemma execute_upgrade_Inr:
  assumes "execute_upgrade env s i n = Inr s'"
  obtains h s1 where "get_action s i = Inr (Upgrade h)"
    and "execute s i (Upgrade h) n (update_current_contract_wasm env h) = Inr s1"
    and "s' = track_upgrade_executed env (publish (Core_UpgradeExecuted (Some i) h) s1)"
proof -
  obtain action where "get_action s i = Inr action"
    using assms by (auto simp: execute_upgrade_def res_simps)
  then show thesis
    using assms that by (cases action) (auto simp: execute_upgrade_def res_simps)
qed

lemma update_wasm_Inr [res_simps]:
  "update_current_contract_wasm env h s = Inr s' \<longleftrightarrow>
     wasm_uploaded env h \<and> s' = s\<lparr>cs_wasm := Some h\<rparr>"
  by (auto simp: update_current_contract_wasm_def)

lemma execute_wasm_Inr:
  assumes "execute s i (Upgrade h) n (update_current_contract_wasm env h) = Inr s'"
  obtains p where "ms_proposals s i = Some p" and "\<not> mp_executed p" and "mp_action p = Upgrade h"
    and "mp_threshold p \<le> length (mp_approvals p)" and "n = nonce s" and "wasm_uploaded env h"
    and "n + 1 \<le> u64_max"
    and "s' = s\<lparr>cs_wasm := Some h, ms_proposals := (ms_proposals s)
       (i \<mapsto> p\<lparr>mp_executed := True, mp_executed_nonce := Some n\<rparr>),
       cs_events := cs_events s @ [ProposalExecuted i n], ms_nonce := Some (n + 1)\<rparr>"
proof -
  obtain p s2 where p: "ms_proposals s i = Some p" "\<not> mp_executed p" "mp_action p = Upgrade h"
      "mp_threshold p \<le> length (mp_approvals p)" "n = nonce s"
    and up: "wasm_uploaded env h" "n + 1 \<le> u64_max"
    and s2: "mark_executed (s\<lparr>cs_wasm := Some h\<rparr>) i n = Inr s2"
    and s': "s' = s2\<lparr>ms_nonce := Some (n + 1)\<rparr>"
    using assms by (auto simp: execute_def can_execute_def res_simps Let_def)
  have "s2 = s\<lparr>cs_wasm := Some h, ms_proposals := (ms_proposals s)
       (i \<mapsto> p\<lparr>mp_executed := True, mp_executed_nonce := Some n\<rparr>),
       cs_events := cs_events s @ [ProposalExecuted i n]\<rparr>"
    using s2 p(1) by (auto simp: mark_executed_def res_simps Let_def publish_def)
  with that p up s' show thesis by simp
qed

lemma execute_upgrade_only:
  assumes "execute_upgrade env s i n = Inr s'"
  shows "ms_only s s' \<and> ms_config s' = ms_config s"
proof (rule execute_upgrade_Inr [OF assms])
  fix h s1
  assume "execute s i (Upgrade h) n (update_current_contract_wasm env h) = Inr s1"
    and s': "s' = track_upgrade_executed env (publish (Core_UpgradeExecuted (Some i) h) s1)"
  then show ?thesis
    by (elim execute_wasm_Inr)
      (simp add: track_upgrade_executed_def Let_def emit_governance_metric_def publish_def
        ms_only_def)
qed

lemma reconfigured_only:
  "reconfigured s s' \<Longrightarrow> ms_only s s' \<and> ms_config s' \<noteq> None \<and> ms_config s \<noteq> None"
  by (auto simp: reconfigured_def ms_only_def)

lemma ms_call_only:
  assumes "core_exec env w c s = Inr s'" and "ms_call c"
  shows "ms_only s s' \<and> (ms_config s \<noteq> None \<longrightarrow> ms_config s' \<noteq> None)"
  using assms
  by (cases c)
    (auto simp: drop_value_Inr propose_upgrade_def approve_upgrade_def
      dest: propose_only approve_only execute_upgrade_only signer_changes reconfigured_only)

lemma execute_upgrade_ok:
  assumes "execute_upgrade env s i n = Inr s'" and "ms_ok s"
  shows "ms_ok s'"
proof (rule execute_upgrade_Inr [OF assms(1)])
  fix h s1
  assume ex: "execute s i (Upgrade h) n (update_current_contract_wasm env h) = Inr s1"
    and s': "s' = track_upgrade_executed env (publish (Core_UpgradeExecuted (Some i) h) s1)"
  have "ms_ok s1" by (rule execute_ok [OF ex assms(2)]) (auto simp: update_wasm_Inr)
  then show ?thesis
    by (rule ms_ok_cong)
      (simp_all add: s' track_upgrade_executed_def Let_def emit_governance_metric_def)
qed

lemma ms_call_ok:
  "core_exec env w c s = Inr s' \<Longrightarrow> ms_call c \<Longrightarrow> ms_ok s \<Longrightarrow> ms_ok s'"
  by (cases c)
    (auto simp: drop_value_Inr propose_upgrade_def approve_upgrade_def
      dest: propose_ok approve_ok execute_upgrade_ok signer_changes intro: reconfigured_ok)

section \<open>The calls of the admin\<close>

lemma monitor_onlyE:
  assumes "monitor_only s s'"
  obtains m ev where "s' = s\<lparr>cs_monitor := m, cs_events := ev\<rparr>"
  using assms unfolding monitor_only_def by blast

lemma finish_operationE:
  assumes "finish_operation env opn a s = Inr s'"
  obtains m ev where "s' = s\<lparr>cs_monitor := m, cs_events := ev\<rparr>"
  using finish_operation_only [OF assms] by (rule monitor_onlyE)

lemma set_upgrade_delay_Inr:
  assumes "set_upgrade_delay env s d = Inr s'"
  obtains a m ev where "cs_admin s = Some a" and "authorized env a"
    and "MIN_UPGRADE_DELAY_SECONDS \<le> d"
    and "s' = s\<lparr>cs_upgrade_delay := Some d, cs_monitor := m, cs_events := ev\<rparr>"
proof -
  obtain a where a: "cs_admin s = Some a" "authorized env a" "MIN_UPGRADE_DELAY_SECONDS \<le> d"
    and fin: "finish_operation env ''set_delay'' a (s\<lparr>cs_upgrade_delay := Some d\<rparr>) = Inr s'"
    using assms by (auto simp: set_upgrade_delay_def res_simps)
  from fin show thesis by (rule finish_operationE) (rule that [OF a])
qed

lemma schedule_upgrade_Inr:
  assumes "schedule_upgrade env s h = Inr (s', sch)"
  obtains a m ev where "cs_admin s = Some a" and "authorized env a"
    and "sch = \<lparr>su_wasm_hash = h, su_scheduled_at = timestamp env,
      su_executable_at = sat_add_u64 (timestamp env) (get_upgrade_delay s)\<rparr>"
    and "s' = s\<lparr>cs_scheduled := Some sch, cs_monitor := m, cs_events := ev\<rparr>"
proof -
  let ?sch = "\<lparr>su_wasm_hash = h, su_scheduled_at = timestamp env,
      su_executable_at = sat_add_u64 (timestamp env) (get_upgrade_delay s)\<rparr>"
  let ?s = "publish (UpgradeScheduledEvent h (timestamp env)
      (sat_add_u64 (timestamp env) (get_upgrade_delay s)) (get_upgrade_delay s))
      (s\<lparr>cs_scheduled := Some ?sch\<rparr>)"
  obtain a where a: "cs_admin s = Some a" "authorized env a" "sch = ?sch"
    and fin: "finish_operation env ''sched_upg'' a ?s = Inr s'"
    using assms unfolding schedule_upgrade_def bnd_Inr core_require_admin_Inr Let_def
    by blast
  from fin show thesis
    by (rule finish_operationE) (rule that [OF a], simp add: publish_def a)
qed

lemma require_scheduled_Inr [res_simps]:
  "require_scheduled_upgrade env s h = Inr sch \<longleftrightarrow>
     cs_scheduled s = Some sch \<and> su_wasm_hash sch = h \<and> su_executable_at sch \<le> timestamp env"
  by (auto simp: require_scheduled_upgrade_def res_simps)

lemma core_upgrade_Inr:
  assumes "core_upgrade env s h = Inr s'"
  obtains a sch m ev where "cs_admin s = Some a" and "authorized env a"
    and "cs_scheduled s = Some sch" and "su_wasm_hash sch = h"
    and "su_executable_at sch \<le> timestamp env" and "wasm_uploaded env h"
    and "s' = s\<lparr>cs_previous_version := Some (case cs_version s of None \<Rightarrow> 1 | Some v \<Rightarrow> v),
       cs_wasm := Some h, cs_scheduled := None,
       cs_gov_upg := Some (increment_counter (cs_gov_upg s)), cs_monitor := m, cs_events := ev\<rparr>"
proof -
  let ?v = "case cs_version s of None \<Rightarrow> 1 | Some v \<Rightarrow> v"
  obtain a sch s4 where a: "cs_admin s = Some a" "authorized env a" "cs_scheduled s = Some sch"
      "su_wasm_hash sch = h" "su_executable_at sch \<le> timestamp env" "wasm_uploaded env h"
    and s4: "core_track_operation env ''upgrade'' a True
      (publish (Core_UpgradeExecuted None (su_wasm_hash sch))
        (publish (UpgradeExecutedEvent (su_wasm_hash sch) (timestamp env) ?v)
          (s\<lparr>cs_previous_version := Some ?v, cs_wasm := Some h, cs_scheduled := None\<rparr>)))
      = Inr s4"
    and s': "core_emit_performance env ''upgrade'' (timestamp env - timestamp env)
      (track_upgrade_executed env s4) = Inr s'"
    using assms unfolding core_upgrade_def bnd_Inr core_require_admin_Inr require_scheduled_Inr
      update_wasm_Inr Let_def by blast
  obtain m ev where s4': "s4 = s\<lparr>cs_previous_version := Some ?v, cs_wasm := Some h,
      cs_scheduled := None, cs_monitor := m, cs_events := ev\<rparr>"
    using tracking_only(1) [OF s4] by (elim monitor_onlyE) (simp add: publish_def)
  from tracking_only(2) [OF s'] show thesis
    by (rule monitor_onlyE)
      (rule that [OF a], simp add: s4' track_upgrade_executed_def Let_def publish_def
        emit_governance_metric_def)
qed

lemma set_version_Inr:
  assumes "set_version env s v = Inr s'"
  obtains a m ev where "cs_admin s = Some a" and "authorized env a"
    and "s' = s\<lparr>cs_version := Some v, cs_monitor := m, cs_events := ev\<rparr>"
proof -
  obtain a old where a: "cs_admin s = Some a" "authorized env a"
    and fin: "finish_operation env ''set_ver'' a
      (publish (VersionChanged old v a) (s\<lparr>cs_version := Some v\<rparr>)) = Inr s'"
    using assms unfolding set_version_def bnd_Inr core_require_admin_Inr Let_def by blast
  from fin show thesis
    by (rule finish_operationE) (rule that [OF a], simp add: publish_def a)
qed

lemma migrate_loop_eq:
  "migrate_loop f t s = (if f < t \<longrightarrow> 1 \<le> f \<and> t \<le> 3 then Inr s
     else Inl (Panic (Message ''No migration path available'')))"
proof (induction f t s rule: migrate_loop.induct)
  case (1 f t s)
  consider "\<not> f < t" | "f < t" "f = 1" | "f < t" "f = 2" | "f < t" "f \<noteq> 1" "f \<noteq> 2" by blast
  then show ?case
  proof cases
    case 1
    then show ?thesis by (subst migrate_loop.simps) auto
  next
    case 2
    then have "migrate_loop f t s = migrate_loop 2 t s"
      by (subst migrate_loop.simps) (simp add: Let_def migrate_v1_to_v2_def numeral_2_eq_2)
    then show ?thesis using 2 "1.IH"(1) by (auto simp: migrate_v1_to_v2_def)
  next
    case 3
    then have "migrate_loop f t s = migrate_loop 3 t s"
      by (subst migrate_loop.simps) (simp add: Let_def migrate_v2_to_v3_def)
    then show ?thesis using 3 "1.IH"(2) by (auto simp: migrate_v2_to_v3_def)
  next
    case 4
    then show ?thesis by (subst migrate_loop.simps) (auto simp: Let_def)
  qed
qed

lemma migrate_loop_Inr:
  "migrate_loop f t s = Inr s1 \<longleftrightarrow> s1 = s \<and> (f < t \<longrightarrow> 1 \<le> f \<and> t \<le> 3)"
  by (auto simp: migrate_loop_eq)

lemma migrate_Inr:
  assumes "migrate env s t h = Inr s'"
  obtains (skipped) a where "cs_admin s = Some a" and "authorized env a"
      and "already_migrated s t" and "s' = s"
    | (ran) a v m ev where "cs_admin s = Some a" and "authorized env a"
      and "\<not> already_migrated s t" and "v = (case cs_version s of None \<Rightarrow> 1 | Some v \<Rightarrow> v)"
      and "1 \<le> v" and "v < t" and "t \<le> 3"
      and "s' = s\<lparr>cs_version := Some t, cs_migration := Some \<lparr>mg_from_version = v,
         mg_to_version = t, mg_migrated_at = timestamp env, mg_migration_hash = h\<rparr>,
         cs_gov_migr := Some (increment_counter (cs_gov_migr s)), cs_monitor := m,
         cs_events := ev\<rparr>"
proof -
  define v where "v = (case cs_version s of None \<Rightarrow> 1 | Some v \<Rightarrow> v)"
  obtain a where a: "cs_admin s = Some a" "authorized env a"
    using assms by (auto simp: migrate_def res_simps)
  show thesis
  proof (cases "already_migrated s t")
    case True
    then have "s' = s" using assms a by (simp add: migrate_def core_require_admin_def require_auth_def)
    with a True show ?thesis by (rule skipped)
  next
    case False
    let ?mg = "\<lparr>mg_from_version = v, mg_to_version = t, mg_migrated_at = timestamp env,
      mg_migration_hash = h\<rparr>"
    obtain s4 where v: "1 \<le> v" "v < t" "t \<le> 3"
      and s4: "core_track_operation env ''migrate'' a True
         (emit_migration_event v t (timestamp env) h True None
            (s\<lparr>cs_version := Some t, cs_migration := Some ?mg\<rparr>)) = Inr s4"
      and s': "core_emit_performance env ''migrate'' (timestamp env - timestamp env)
         (track_migration_run env s4) = Inr s'"
    proof -
      let ?body = "bnd (migrate_loop v t s) (\<lambda>s1.
        bnd (core_track_operation env ''migrate'' a True
          (emit_migration_event v t (timestamp env) h True None
            (s1\<lparr>cs_version := Some t, cs_migration := Some ?mg\<rparr>))) (\<lambda>s4.
        core_emit_performance env ''migrate'' (timestamp env - timestamp env)
          (track_migration_run env s4)))"
      have "core_require_admin env s = Inr a" using a by (simp add: core_require_admin_Inr)
      then have body: "\<not> t \<le> v" "?body = Inr s'"
        using assms False unfolding migrate_def v_def [symmetric] Let_def
        by (simp_all split: if_splits)
      then show thesis using that by (auto simp: bnd_Inr migrate_loop_Inr)
    qed
    obtain m ev where s4': "s4 = s\<lparr>cs_version := Some t, cs_migration := Some ?mg,
        cs_monitor := m, cs_events := ev\<rparr>"
      using tracking_only(1) [OF s4]
      by (elim monitor_onlyE) (simp add: publish_def emit_migration_event_def)
    from tracking_only(2) [OF s'] show ?thesis
      by (rule monitor_onlyE)
        (rule ran [OF a False v_def v], simp add: s4' track_migration_run_def Let_def
          publish_def emit_governance_metric_def)
  qed
qed

lemma admin_call_only:
  assumes "core_exec env w c s = Inr s'" and "admin_only_call c"
  shows "admin_only s s' \<and> (\<exists>a. cs_admin s = Some a \<and> authorized env a) \<and>
    (cs_version s \<noteq> None \<longrightarrow> cs_version s' \<noteq> None)"
  using assms
  by (cases c)
    (auto simp: drop_value_Inr admin_only_def elim!: set_upgrade_delay_Inr schedule_upgrade_Inr
      core_upgrade_Inr set_version_Inr migrate_Inr)

section \<open>Invariant\<close>

text \<open>At most one of the three paths has been configured, the one the mode names.\<close>

definition mode_ok :: "core \<Rightarrow> bool" where
  "mode_ok s \<longleftrightarrow>
     (cs_admin s \<noteq> None \<longleftrightarrow> cs_mode s = Some SingleAdmin_mode) \<and>
     (ms_config s \<noteq> None \<longleftrightarrow> cs_mode s = Some Multisig_mode) \<and>
     (gs_config s \<noteq> None \<longleftrightarrow> cs_mode s = Some Governance_mode) \<and>
     (cs_version s \<noteq> None \<longleftrightarrow> cs_mode s \<noteq> None \<and> cs_mode s \<noteq> Some Governance_mode)"

definition lock_ok :: "core \<Rightarrow> bool" where
  "lock_ok s \<longleftrightarrow> MIN_UPGRADE_DELAY_SECONDS \<le> get_upgrade_delay s \<and>
     (\<forall>sch. cs_scheduled s = Some sch \<longrightarrow>
        sat_add_u64 (su_scheduled_at sch) MIN_UPGRADE_DELAY_SECONDS \<le> su_executable_at sch)"

definition core_ok :: "core \<Rightarrow> bool" where
  "core_ok s \<longleftrightarrow> mode_ok s \<and> lock_ok s \<and> ms_ok s \<and> gov_ok s"

lemma lock_ok_cong:
  "lock_ok s \<Longrightarrow> cs_upgrade_delay s' = cs_upgrade_delay s \<Longrightarrow> cs_scheduled s' = cs_scheduled s \<Longrightarrow>
   lock_ok s'"
  by (simp add: lock_ok_def get_upgrade_delay_def)

lemma initial_core_ok: "core_ok initial_core"
  by (simp add: core_ok_def mode_ok_def lock_ok_def ms_ok_def gov_ok_def initial_core_def
      get_upgrade_delay_def MIN_UPGRADE_DELAY_SECONDS_def DEFAULT_UPGRADE_DELAY_SECONDS_def
      nonces_ok_def nonce_def used_def)

lemma gov_call_core_ok:
  assumes "core_exec env w c s = Inr s'" and "gov_call c" and "core_ok s"
  shows "core_ok s'"
  using gov_only_frame [OF gov_call_only [OF assms(1,2)]] gov_call_ok [OF assms(1,2)] assms(3)
  by (auto simp: core_ok_def mode_ok_def elim: ms_ok_cong lock_ok_cong)

lemma ms_call_core_ok:
  assumes "core_exec env w c s = Inr s'" and "ms_call c" and "core_ok s"
  shows "core_ok s'"
proof -
  have only: "ms_only s s'" "ms_config s \<noteq> None \<longrightarrow> ms_config s' \<noteq> None"
    using ms_call_only [OF assms(1,2)] by blast+
  have "ms_config s \<noteq> None" if "ms_config s' \<noteq> None"
  proof -
    have "ms_config s' \<noteq> ms_config s \<longrightarrow> ms_config s \<noteq> None"
      using assms(1,2)
      by (cases c) (auto simp: drop_value_Inr propose_upgrade_def approve_upgrade_def
          dest: propose_only approve_only execute_upgrade_only signer_changes reconfigured_only)
    then show ?thesis using that by auto
  qed
  then show ?thesis
    using ms_only_frame [OF only(1)] only(2) ms_call_ok [OF assms(1,2)] assms(3)
    by (auto simp: core_ok_def mode_ok_def elim: gov_ok_cong lock_ok_cong)
qed

lemma admin_call_lock_ok:
  assumes "core_exec env w c s = Inr s'" and "admin_only_call c" and "lock_ok s"
  shows "lock_ok s'"
proof -
  have sat: "sat_add_u64 a MIN_UPGRADE_DELAY_SECONDS \<le> sat_add_u64 a (get_upgrade_delay s)" for a
    using assms(3) by (auto simp: sat_add_u64_def lock_ok_def)
  have delay: "get_upgrade_delay s' = get_upgrade_delay s"
    if "cs_upgrade_delay s' = cs_upgrade_delay s"
    using that by (simp add: get_upgrade_delay_def)
  show ?thesis
  proof (cases c)
    case (Set_upgrade_delay d)
    then show ?thesis
      using assms by (auto simp: lock_ok_def get_upgrade_delay_def elim!: set_upgrade_delay_Inr)
  qed (use assms sat delay in \<open>auto simp: drop_value_Inr lock_ok_def elim!: schedule_upgrade_Inr
         core_upgrade_Inr set_version_Inr migrate_Inr\<close>)
qed

lemma admin_call_core_ok:
  assumes "core_exec env w c s = Inr s'" and "admin_only_call c" and "core_ok s"
  shows "core_ok s'"
proof -
  note only = admin_call_only [OF assms(1,2)]
  have frame: "cs_admin s' = cs_admin s" "cs_mode s' = cs_mode s" "ms_config s' = ms_config s"
      "gs_config s' = gs_config s"
    using admin_only_frame only by blast+
  have "cs_mode s = Some SingleAdmin_mode" "cs_version s \<noteq> None"
    using only assms(3) by (auto simp: core_ok_def mode_ok_def)
  then have "mode_ok s'" using frame only assms(3) by (auto simp: core_ok_def mode_ok_def)
  moreover have "ms_ok s'" "gov_ok s'"
    using admin_only_frame [of s s'] only assms(3) ms_ok_cong gov_ok_cong
    unfolding core_ok_def by metis+
  ultimately show ?thesis
    using admin_call_lock_ok [OF assms(1,2)] assms(3) by (simp add: core_ok_def)
qed

lemma core_init_ok:
  assumes "core_init s sigs t = Inr s'" and "core_ok s"
  shows "core_ok s'"
proof -
  obtain s1 where s1: "ms_init s sigs t = Inr s1" "cs_version s = None" "cs_mode s = None"
    and s': "s' = s1\<lparr>cs_mode := Some Multisig_mode, cs_version := Some VERSION\<rparr>"
    using assms(1)
    by (auto simp: core_init_def res_simps claim_upgrade_mode_def upgrade_mode_already_claimed_def)
  then have only: "s1 = s\<lparr>ms_config := ms_config s1, ms_counter := Some 0, ms_nonce := Some 0\<rparr>"
      "ms_config s1 \<noteq> None"
    by (auto simp: ms_init_def res_simps)
  have frame: "cs_admin s1 = cs_admin s" "gs_config s1 = gs_config s"
      "gs_proposals s1 = gs_proposals s" "gs_votes s1 = gs_votes s" "gs_count s1 = gs_count s"
      "cs_upgrade_delay s1 = cs_upgrade_delay s" "cs_scheduled s1 = cs_scheduled s"
    by (subst only(1), simp)+
  have "ms_ok s1" using ms_init_ok [OF s1(1)] assms(2) by (simp add: core_ok_def)
  then have "ms_ok s'" by (rule ms_ok_cong) (simp_all add: s')
  moreover have "gov_ok s'" "lock_ok s'"
    using assms(2) frame by (auto simp: core_ok_def s' elim!: gov_ok_cong lock_ok_cong)
  ultimately show ?thesis
    using assms(2) only(2) s1(3) frame by (auto simp: core_ok_def mode_ok_def s')
qed

lemma init_governance_core_ok:
  assumes "init_governance env s a c = Inr s'" and "core_ok s"
  shows "core_ok s'"
proof -
  have none: "cs_mode s = None" "gs_config s = None"
    and s': "s' = s\<lparr>gs_admin := Some a, gs_config := Some c, gs_count := Some 0,
      cs_mode := Some Governance_mode\<rparr>"
    using assms by (auto simp: init_governance_def res_simps core_ok_def mode_ok_def)
  have "gov_ok s'"
    using init_governance_ok [OF assms(1)] none assms(2) by (simp add: core_ok_def)
  moreover have "ms_ok s'" "lock_ok s'"
    using assms(2) by (auto simp: core_ok_def s' elim!: ms_ok_cong lock_ok_cong)
  ultimately show ?thesis using assms(2) none by (auto simp: core_ok_def mode_ok_def s')
qed

lemma init_admin_ok:
  assumes "init_admin env s a = Inr s'" and "core_ok s"
  shows "core_ok s'"
proof -
  have none: "cs_mode s = None" "cs_admin s = None"
    and fin: "finish_operation env ''init'' a (s\<lparr>cs_admin := Some a,
       cs_mode := Some SingleAdmin_mode, cs_version := Some VERSION\<rparr>) = Inr s'"
    using assms(1)
    by (auto simp: init_admin_def upgrade_mode_already_claimed_def claim_upgrade_mode_def
        Let_def split: if_splits)
  from fin obtain m ev where s': "s' = s\<lparr>cs_admin := Some a,
       cs_mode := Some SingleAdmin_mode, cs_version := Some VERSION, cs_monitor := m,
       cs_events := ev\<rparr>"
    by (rule finish_operationE)
  have "ms_ok s'" "gov_ok s'" "lock_ok s'"
    using assms(2) by (auto simp: core_ok_def s' elim!: ms_ok_cong gov_ok_cong lock_ok_cong)
  then show ?thesis using assms(2) none by (auto simp: core_ok_def mode_ok_def s')
qed

lemma core_exec_ok: "core_exec env w c s = Inr s' \<Longrightarrow> core_ok s \<Longrightarrow> core_ok s'"
  using gov_call_core_ok [of env w c] ms_call_core_ok [of env w c] admin_call_core_ok [of env w c]
  by (cases c) (auto dest: core_init_ok init_governance_core_ok init_admin_ok)

interpretation core_inv: invariant_system core_initial core_step core_ok
proof unfold_locales
  show "core_ok s" if "core_initial s" for s using that initial_core_ok by simp
  show "core_ok t" if "core_ok s" "core_step s l t" for s l t
    using that(2,1) by (cases rule: core_stepE) (auto intro: core_exec_ok)
qed

end
