(* ===== verification/CoreProps.thy ===== *)
theory CoreProps
  imports CoreSystem
begin

text \<open>
  Properties of the core contract: the multisig executes each proposal once and can always
  execute one, an approved upgrade has its quorum, the timelock holds, the code changes only
  by the path that was claimed, migrations; and how a finalisation revives a cancelled
  proposal or withdraws an executed one.
\<close>

section \<open>Sample runs\<close>

type_synonym core_label = "ledger env \<times> ledger \<times> core_call"

definition core_run :: "('w env \<times> 'w \<times> core_call) list \<Rightarrow> core \<Rightarrow> core cres" where
  "core_run = fold_res (\<lambda>(env, w, c). core_exec env w c)"

lemma core_run_simps [simp]:
  "core_run [] s = Inr s"
  "core_run ((env, w, c) # ls) s = bnd (core_exec env w c s) (core_run ls)"
  by (simp_all add: core_run_def)

definition core_after :: "core_label list \<Rightarrow> core" where
  "core_after ls = (case core_run ls initial_core of Inr s \<Rightarrow> s | Inl _ \<Rightarrow> initial_core)"

lemma core_run_path: "core_run ls s = Inr t \<Longrightarrow> path core_step s ls t"
proof (induction ls arbitrary: s)
  case (Cons l ls)
  obtain env w c where l: "l = (env, w, c)" by (cases l)
  from Cons.prems obtain s1 where s1: "core_exec env w c s = Inr s1" "core_run ls s1 = Inr t"
    by (auto simp: l bnd_Inr)
  then have "core_step s l s1" by (simp add: l core_step.core_invoke)
  then show ?case using Cons.IH [OF s1(2)] by (rule path.path_cons)
qed (simp add: path.path_nil)

lemma core_after_reachable: "core_reachable TYPE(ledger) (core_after ls)"
proof -
  have init: "core_reachable TYPE(ledger) initial_core" by (rule reach.reach_init) simp
  show ?thesis
  proof (cases "core_run ls initial_core")
    case (Inr s)
    then show ?thesis
      using path_reach [OF core_run_path [OF Inr] init] by (simp add: core_after_def)
  qed (simp add: core_after_def init)
qed

abbreviation at :: "u64 \<Rightarrow> addr list \<Rightarrow> core_call \<Rightarrow> core_label" where
  "at now who c \<equiv> (sample_env now who, \<lambda>_. 0, c)"

definition open_vote :: governance_config where
  "open_vote = \<lparr>gc_voting_period = 100, gc_execution_delay = 50, gc_quorum_percentage = 5000,
     gc_approval_threshold = 5000, gc_min_proposal_stake = 0,
     gc_voting_scheme = OnePersonOneVote, gc_governance_token = 0,
     gc_one_person_total_voters = 2, gc_token_total_voting_power = 0,
     gc_snapshot_ledger = None\<rparr>"

definition governed :: "core_label list" where
  "governed = [at 10 [1] (Init_governance 1 open_vote),
     at 20 [2] (Create_proposal 2 77 ''up''), at 30 [3] (Cast_vote 3 0 For)]"

definition cancelled :: "core_label list" where
  "cancelled = governed @ [at 40 [2] (Cancel_proposal 2 0)]"

definition revived :: "core_label list" where
  "revived = cancelled @ [at 121 [] (Finalize_proposal 0), at 170 [] (Execute_proposal 0)]"

definition approved_and_executed :: "core_label list" where
  "approved_and_executed =
     governed @ [at 121 [] (Finalize_proposal 0), at 170 [] (Execute_proposal 0)]"

definition multisigned :: "core_label list" where
  "multisigned = [at 10 [] (Core_init [1, 2, 3] 2), at 20 [1] (Propose_upgrade 1 88),
     at 30 [1] (Approve_upgrade 1 1), at 40 [2] (Approve_upgrade 1 2)]"

definition administered :: "core_label list" where
  "administered = [at 10 [] (Init_admin 1), at 20 [1] (Schedule_upgrade 99)]"

definition migrated_back :: "core_label list" where
  "migrated_back = [at 10 [] (Init_admin 1), at 20 [1] (Migrate 3 5), at 30 [1] (Set_version 1)]"

lemmas core_run_defs = core_after_def governed_def cancelled_def revived_def
  approved_and_executed_def multisigned_def administered_def migrated_back_def open_vote_def

lemmas core_eval_defs = initial_core_def empty_monitor_def core_init_def init_governance_def
  init_admin_def core_create_proposal_def create_proposal_def core_cast_vote_def cast_vote_def
  finalize_proposal_def execute_proposal_def cancel_proposal_def load_proposal_def
  store_proposal_def track_proposal_created_def track_vote_cast_def
  emit_governance_metric_def increment_counter_def enforce_min_proposal_stake_def
  derive_voting_power_def total_voting_power_def tally_vote_def add_weight_def scale_bps_def
  drop_value_def require_auth_def publish_def upgrade_mode_already_claimed_def
  claim_upgrade_mode_def finish_operation_def core_track_operation_def
  core_emit_performance_def track_operation_def emit_performance_def ms_init_def
  propose_upgrade_def propose_def approve_upgrade_def approve_def ms_get_config_def
  get_proposal_def assert_signer_def assert_proposal_signer_def can_execute_def nonce_def
  execute_def mark_executed_def get_action_def execute_upgrade_def
  update_current_contract_wasm_def track_upgrade_executed_def core_require_admin_def
  get_upgrade_delay_def schedule_upgrade_def require_scheduled_upgrade_def core_upgrade_def
  set_version_def migrate_def already_migrated_def migrate_loop.simps migrate_v1_to_v2_def
  migrate_v2_to_v3_def emit_migration_event_def track_migration_run_def VERSION_def
  DEFAULT_UPGRADE_DELAY_SECONDS_def MIN_UPGRADE_DELAY_SECONDS_def add_u64_def add_u32_def
  arith_defs Let_def signed_divide_int_def

section \<open>Multisig\<close>

text \<open>
  In every reachable state of the core contract the multisig is well formed: the configured
  threshold is positive and can be met by the distinct signers, and so can the one that each
  proposal keeps; approvals come from distinct signers of the proposal; an executed proposal
  has its threshold; and every nonce below the next one was used by exactly one proposal.
\<close>

theorem multisig_well_formed:
  assumes "core_reachable T s"
  shows "(\<forall>c. ms_config s = Some c \<longrightarrow> viable (mc_signers c) (mc_threshold c)) \<and>
    (\<forall>i p. ms_proposals s i = Some p \<longrightarrow> proposal_ok p) \<and>
    (\<forall>n < multisig_nonce s. \<exists>!i. used (ms_proposals s) n i)"
  using core_inv.reach_inv [OF assms]
  by (simp add: core_ok_def ms_ok_def nonces_ok_def multisig_nonce_def)

lemma multisig_well_formed_witness:
  "proposal_ok (the (ms_proposals (core_after multisigned) 1)) \<and>
   mp_approvals (the (ms_proposals (core_after multisigned) 1)) = [1, 2]"
proof -
  have "\<exists>p. ms_proposals (core_after multisigned) 1 = Some p \<and> mp_approvals p = [1, 2]"
    by (simp add: core_run_defs core_eval_defs)
  with multisig_well_formed [OF core_after_reachable [of multisigned]] show ?thesis by auto
qed

text \<open>A proposal of the multisig is executed by one call and stays executed.\<close>

definition fires_upgrade :: "'w env \<times> 'w \<times> core_call \<Rightarrow> u64 \<Rightarrow> bool" where
  "fires_upgrade l i \<longleftrightarrow> (case l of (_, _, Execute_upgrade j _) \<Rightarrow> j = i | _ \<Rightarrow> False)"

definition executed :: "core \<Rightarrow> u64 \<Rightarrow> bool" where
  "executed s i \<longleftrightarrow> (\<exists>p. ms_proposals s i = Some p \<and> mp_executed p)"

lemma execute_upgrade_proposals:
  assumes "execute_upgrade env s i n = Inr s'"
  obtains h p where "ms_proposals s i = Some p" and "\<not> mp_executed p"
    and "mp_action p = Upgrade h" and "mp_threshold p \<le> length (mp_approvals p)"
    and "n = nonce s" and "cs_wasm s' = Some h"
    and "ms_proposals s' = (ms_proposals s)
       (i \<mapsto> p\<lparr>mp_executed := True, mp_executed_nonce := Some n\<rparr>)"
proof (rule execute_upgrade_Inr [OF assms])
  fix h s1
  assume ex: "execute s i (Upgrade h) n (update_current_contract_wasm env h) = Inr s1"
    and s': "s' = track_upgrade_executed env (publish (Core_UpgradeExecuted (Some i) h) s1)"
  from ex show thesis
    by (rule execute_wasm_Inr)
      (rule that, auto simp: s' track_upgrade_executed_def Let_def emit_governance_metric_def)
qed

text \<open>What calls leave alone: the three initialisations, proposing and approving.\<close>

lemma initialisations_frame:
  "core_init s sigs t = Inr s' \<Longrightarrow> ms_proposals s' = ms_proposals s \<and> cs_wasm s' = cs_wasm s"
  "init_governance env s a cfg = Inr s' \<Longrightarrow>
   ms_proposals s' = ms_proposals s \<and> cs_wasm s' = cs_wasm s"
  "init_admin env s a = Inr s' \<Longrightarrow> ms_proposals s' = ms_proposals s \<and> cs_wasm s' = cs_wasm s"
  by (auto simp: core_init_def ms_init_def init_governance_def init_admin_def
      claim_upgrade_mode_def res_simps Let_def split: if_splits elim!: finish_operationE)

lemma proposing_keeps_code:
  "propose_upgrade env s a h = Inr (s', i) \<Longrightarrow> cs_wasm s' = cs_wasm s"
  "approve_upgrade env s i a = Inr s' \<Longrightarrow> cs_wasm s' = cs_wasm s"
  by (cases "mp_action (the (ms_proposals s i))";
      auto simp: propose_upgrade_def propose_def approve_upgrade_def approve_def res_simps
        Let_def)+

lemma code_frame:
  assumes "core_exec env w c s = Inr s'" and "\<forall>i n. c \<noteq> Execute_upgrade i n"
    and "\<forall>h. c \<noteq> Core_upgrade h"
  shows "cs_wasm s' = cs_wasm s"
  using assms gov_only_frame [OF gov_call_only [OF assms(1)]]
  by (cases c) (auto simp: drop_value_Inr reconfigured_def
      dest: initialisations_frame proposing_keeps_code dest!: signer_changes
      elim!: set_upgrade_delay_Inr schedule_upgrade_Inr set_version_Inr migrate_Inr)

lemma executed_stays:
  assumes "core_exec env w c s = Inr s'" and "core_ok s" and "executed s i"
  shows "executed s' i"
proof -
  have same: "executed s' i" if "ms_proposals s' = ms_proposals s"
    using that assms(3) by (simp add: executed_def)
  obtain p where p: "ms_proposals s i = Some p" "mp_executed p"
    using assms(3) by (auto simp: executed_def)
  have old: "i \<le> (case ms_counter s of None \<Rightarrow> 0 | Some n \<Rightarrow> n)"
    using p(1) assms(2) by (simp add: core_ok_def ms_ok_def)
  consider "gov_call c" | "admin_only_call c" | a h where "c = Propose_upgrade a h"
    | j a where "c = Approve_upgrade j a" | j n where "c = Execute_upgrade j n"
    | "reconfigured s s'" | sigs t where "c = Core_init sigs t"
    | a cfg where "c = Init_governance a cfg" | a where "c = Init_admin a"
    using assms(1) by (cases c) (auto dest: signer_changes)
  then show ?thesis
  proof cases
    case 1
    then show ?thesis using same gov_only_frame [OF gov_call_only [OF assms(1)]] by simp
  next
    case 2
    then show ?thesis using same admin_only_frame admin_call_only [OF assms(1)] by blast
  next
    case 3
    then show ?thesis
      using assms(1) p old
      by (auto simp: drop_value_Inr propose_upgrade_def propose_def res_simps Let_def executed_def)
  next
    case 4
    then show ?thesis
      using assms(1) p
      by (cases "mp_action (the (ms_proposals s j))")
        (auto simp: approve_upgrade_def approve_def res_simps Let_def executed_def)
  next
    case (5 j n)
    then have "execute_upgrade env s j n = Inr s'" using assms(1) by simp
    then show ?thesis by (rule execute_upgrade_proposals) (use p in \<open>auto simp: executed_def\<close>)
  next
    case 6
    then show ?thesis using same by (auto simp: reconfigured_def)
  qed (use assms(1) in \<open>auto intro!: same dest: initialisations_frame\<close>)
qed

interpretation upgrade_once: once_only core_initial core_step core_ok fires_upgrade executed
proof unfold_locales
  fix s t :: core and l :: "'w env \<times> 'w \<times> core_call" and i
  assume ok: "core_ok s" and step: "core_step s l t"
  obtain env w c where l: "l = (env, w, c)" by (cases l)
  then have ex: "core_exec env w c s = Inr t" using step by (auto elim: core_stepE)
  show "executed t i" if "executed s i" using executed_stays [OF ex ok that] .
  show "\<not> executed s i" "executed t i" if "fires_upgrade l i"
  proof -
    from that obtain n where c: "c = Execute_upgrade i n"
      by (auto simp: fires_upgrade_def l split: core_call.splits)
    with ex have "execute_upgrade env s i n = Inr t" by simp
    then show "\<not> executed s i" "executed t i"
      by (rule execute_upgrade_proposals; auto simp: executed_def)+
  qed
qed

text \<open>
  C29: an upgrade that the signers approved is performed at most once. In any run from a
  reachable state, of any length and with any calls in between, at most one call executes a
  given proposal.
\<close>

theorem upgrade_executes_once:
  assumes "core_reachable TYPE('w) s" and "path core_step s ls t"
  shows "length (filter (\<lambda>l :: 'w env \<times> 'w \<times> core_call. fires_upgrade l i) ls) \<le> 1"
  using upgrade_once.reach_at_most_once [OF assms] .

lemma upgrade_executes_once_witness:
  "\<exists>s. core_run (multisigned @ [at 50 [] (Execute_upgrade 1 0)]) initial_core = Inr s \<and>
     length (filter (\<lambda>l. fires_upgrade l 1)
       (multisigned @ [at 50 [] (Execute_upgrade 1 0)])) \<le> 1 \<and> executed s 1"
proof -
  obtain s where s: "core_run (multisigned @ [at 50 [] (Execute_upgrade 1 0)]) initial_core = Inr s"
      and "executed s 1"
    by (simp add: core_run_defs core_eval_defs executed_def sample_env_def)
  moreover have "core_reachable TYPE(ledger) initial_core" by (rule reach.reach_init) simp
  ultimately show ?thesis
    using upgrade_executes_once [OF _ core_run_path [OF s], of 1] by simp
qed

lemma approve_runs:
  assumes "authorized env a" and "ms_proposals s i = Some p" and "a \<in> set (mp_signers p)"
    and "\<not> mp_executed p" and "a \<notin> set (mp_approvals p)"
  shows "\<exists>s'. approve env s i a = Inr s' \<and> ms_nonce s' = ms_nonce s \<and>
    ms_proposals s' i = Some (p\<lparr>mp_approvals := mp_approvals p @ [a]\<rparr>)"
  using assms
  by (cases "mp_action p") (simp add: approve_def require_auth_def get_proposal_def
      assert_proposal_signer_def Let_def)

lemma approvals_run:
  assumes "\<forall>x \<in> set xs. authorized (E x) x" and "ms_proposals s i = Some p"
    and "set xs \<subseteq> set (mp_signers p)" and "\<not> mp_executed p"
    and "distinct (mp_approvals p @ xs)"
  shows "\<exists>s'. core_run (map (\<lambda>x. (E x, w, Approve_upgrade i x)) xs) s = Inr s' \<and>
    ms_nonce s' = ms_nonce s \<and>
    ms_proposals s' i = Some (p\<lparr>mp_approvals := mp_approvals p @ xs\<rparr>)"
  using assms
proof (induction xs arbitrary: s p)
  case (Cons x xs)
  have "authorized (E x) x" "x \<in> set (mp_signers p)" "x \<notin> set (mp_approvals p)"
    using Cons.prems by auto
  then obtain s1 where s1: "approve (E x) s i x = Inr s1" "ms_nonce s1 = ms_nonce s"
      "ms_proposals s1 i = Some (p\<lparr>mp_approvals := mp_approvals p @ [x]\<rparr>)"
    using approve_runs Cons.prems(2,4) by metis
  from Cons.IH [OF _ s1(3)] Cons.prems s1 show ?case by (auto simp: approve_upgrade_def)
qed simp

text \<open>
  C28: the multisig cannot lock itself out. From any reachable state with a configured multisig
  (and counters short of their 64 bits), as many signers as the threshold, whichever comes
  first in the list, can make an upgrade happen: propose, approve one after the other,
  execute; each call only needs the authorisation of its own caller.
\<close>

theorem multisig_can_always_upgrade:
  assumes "core_reachable T s" and "ms_config s = Some c" and "a \<in> set (mc_signers c)"
    and "\<forall>x \<in> set (mc_signers c). authorized (E x) x" and "wasm_uploaded env h"
    and "i = (case ms_counter s of None \<Rightarrow> 0 | Some n \<Rightarrow> n) + 1" and "i \<le> u64_max"
    and "multisig_nonce s < u64_max"
  shows "\<exists>s'. core_run ((E a, w, Propose_upgrade a h) #
      map (\<lambda>x. (E x, w, Approve_upgrade i x)) (take (mc_threshold c) (mc_signers c)) @
      [(env, w, Execute_upgrade i (multisig_nonce s))]) s = Inr s' \<and> cs_wasm s' = Some h"
proof -
  have viable: "viable (mc_signers c) (mc_threshold c)"
    using core_inv.reach_inv [OF assms(1)] assms(2) by (simp add: core_ok_def ms_ok_def)
  define p where "p = \<lparr>mp_action = Upgrade h, mp_approvals = [], mp_executed = False,
    mp_signers = mc_signers c, mp_threshold = mc_threshold c, mp_executed_nonce = None\<rparr>"
  let ?xs = "take (mc_threshold c) (mc_signers c)"
  have "authorized (E a) a" using assms(3,4) by blast
  then obtain s1 where s1: "propose (E a) s a (Upgrade h) = Inr (s1, i)"
      "ms_nonce s1 = ms_nonce s" "ms_proposals s1 i = Some p"
    using assms(2,3,6,7)
    by (simp add: propose_def require_auth_def ms_get_config_def assert_signer_def add_u64_def
        checked_add_u64_def Let_def p_def)
  have xs: "\<forall>x \<in> set ?xs. authorized (E x) x" "set ?xs \<subseteq> set (mp_signers p)"
      "distinct (mp_approvals p @ ?xs)" "\<not> mp_executed p"
    using assms(4) viable set_take_subset [of "mc_threshold c" "mc_signers c"]
    by (auto simp: p_def viable_def)
  obtain s2 where s2: "core_run (map (\<lambda>x. (E x, w, Approve_upgrade i x)) ?xs) s1 = Inr s2"
      "ms_nonce s2 = ms_nonce s1" "ms_proposals s2 i = Some (p\<lparr>mp_approvals := ?xs\<rparr>)"
    using approvals_run [OF xs(1) s1(3) xs(2,4,3), of w] by (auto simp: p_def)
  have "\<exists>s'. execute_upgrade env s2 i (multisig_nonce s) = Inr s' \<and> cs_wasm s' = Some h"
    using s1(2) s2(2,3) assms(5,8) viable
    by (simp add: execute_upgrade_def get_action_def get_proposal_def execute_def can_execute_def
        mark_executed_def update_current_contract_wasm_def multisig_nonce_def nonce_def
        add_u64_def checked_add_u64_def track_upgrade_executed_def emit_governance_metric_def
        Let_def p_def viable_def)
  then show ?thesis
    using s1(1) s2(1)
    by (auto simp: core_run_def fold_res_append propose_upgrade_def drop_value_def)
qed

lemma multisig_can_always_upgrade_witness:
  "\<exists>s'. core_run [(sample_env 60 [3], \<lambda>_. 0, Propose_upgrade 3 91),
       (sample_env 60 [1], \<lambda>_. 0, Approve_upgrade 2 1),
       (sample_env 60 [2], \<lambda>_. 0, Approve_upgrade 2 2),
       (sample_env 70 [], \<lambda>_. 0, Execute_upgrade 2 0)] (core_after multisigned) = Inr s' \<and>
     cs_wasm s' = Some 91"
proof -
  let ?s = "core_after multisigned"
  have s: "ms_config ?s = Some \<lparr>mc_signers = [1, 2, 3], mc_threshold = 2\<rparr>"
      "ms_counter ?s = Some 1" "multisig_nonce ?s = 0"
    by (simp_all add: core_run_defs core_eval_defs multisig_nonce_def)
  show ?thesis
    using multisig_can_always_upgrade [OF core_after_reachable s(1), of 3
        "\<lambda>x. sample_env 60 [x]" "sample_env 70 []" 91 2 "\<lambda>_. 0"] s
    by (simp add: sample_env_def)
qed

section \<open>Governance\<close>

lemma approval_loop_iff:
  "approval_loop now h P i n \<longleftrightarrow> (\<exists>j p. i \<le> j \<and> j < n \<and> P j = Some p \<and> approves now h p)"
proof (induction now h P i n rule: approval_loop.induct)
  case (1 now h P i n)
  have split: "i \<le> j \<longleftrightarrow> j = i \<or> i + 1 \<le> j" for j by auto
  show ?case
  proof (cases "\<exists>p. P i = Some p \<and> approves now h p")
    case True
    then show ?thesis by (subst approval_loop.simps) (auto split: option.splits)
  next
    case False
    then have none: "(case P i of None \<Rightarrow> False | Some p \<Rightarrow> approves now h p) = False"
      by (simp split: option.splits)
    then have "approval_loop now h P i n \<longleftrightarrow> i < n \<and> approval_loop now h P (i + 1) n"
      by (subst approval_loop.simps) simp
    moreover have "approval_loop now h P (i + 1) n \<longleftrightarrow>
        (\<exists>j p. i + 1 \<le> j \<and> j < n \<and> P j = Some p \<and> approves now h p)" if "i < n"
      using 1 [OF that] none by simp
    ultimately show ?thesis
      using False by (cases "i < n") (simp only: split simp_thms, blast, auto)
  qed
qed

lemma reachable_gov_ok: "core_reachable T s \<Longrightarrow> gov_ok s"
  using core_inv.reach_inv by (auto simp: core_ok_def)

text \<open>The voters of one kind on a proposal.\<close>

definition voters :: "core \<Rightarrow> u32 \<Rightarrow> vote_type \<Rightarrow> addr set" where
  "voters s i t = {a. \<exists>v. gov_votes s (i, a) = Some v \<and> v_vote_type v = t}"

lemma one_person_tally:
  assumes "gov_ok s" and "gs_config s = Some c" and "gc_voting_scheme c = OnePersonOneVote"
  shows "tally (gov_votes s) i t = int (card (voters s i t))"
proof -
  have votes: "vote_ok c k v" if "gov_votes s k = Some v" for k v
    using assms(1,2) that by (cases k) (simp add: gov_ok_def)
  have fin: "finite (dom (gov_votes s))" using assms(1,2) by (simp add: gov_ok_def)
  have "tally (gov_votes s) i t =
      sum_votes (gov_votes s) (\<lambda>v. if v_proposal_id v = i \<and> v_vote_type v = t then 1 else 0)"
    unfolding tally_def sum_votes_def
    using votes assms(3) by (intro sum.cong) (auto simp: vote_ok_def)
  also have "\<dots> = int (card {a. \<exists>v. gov_votes s (i, a) = Some v \<and> v_vote_type v = t})"
    by (rule sum_votes_card [OF fin]) (use votes in \<open>auto simp: vote_ok_def\<close>)
  finally show ?thesis by (simp add: voters_def)
qed

text \<open>
  C30: the tallies are exact. In every reachable state the three totals of each proposal are the
  sums of the recorded votes of its kind, under one person, one vote they count the distinct
  voters, and the number of votes is the number of addresses that voted.
\<close>

theorem tallies_exact:
  assumes "core_reachable T s" and "gov_proposals s i = Some p" and "gs_config s = Some c"
  shows "gp_votes_for p = tally (gov_votes s) i For \<and>
    gp_votes_against p = tally (gov_votes s) i Against \<and>
    gp_votes_abstain p = tally (gov_votes s) i Abstain \<and>
    gp_total_votes p = card {a. gov_votes s (i, a) \<noteq> None} \<and>
    (gc_voting_scheme c = OnePersonOneVote \<longrightarrow>
       gp_votes_for p = int (card (voters s i For)) \<and>
       gp_votes_against p = int (card (voters s i Against)) \<and>
       gp_votes_abstain p = int (card (voters s i Abstain)))"
proof -
  note ok = reachable_gov_ok [OF assms(1)]
  have counted: "counted (gov_votes s) i p" using ok assms(2,3) by (simp add: gov_ok_def)
  have votes: "vote_ok c k v" if "gov_votes s k = Some v" for k v
    using ok assms(3) that by (cases k) (simp add: gov_ok_def)
  have "turnout (gov_votes s) i = int (card {a. \<exists>v. gov_votes s (i, a) = Some v \<and> True})"
    unfolding turnout_def
    by (rule sum_votes_card) (use ok assms(3) votes in \<open>auto simp: vote_ok_def gov_ok_def\<close>)
  then have "gp_total_votes p = card {a. gov_votes s (i, a) \<noteq> None}"
    using counted by (simp add: counted_def)
  then show ?thesis
    using counted one_person_tally [OF ok assms(3)] by (simp add: counted_def)
qed

lemma tallies_exact_witness:
  "\<exists>p. gov_proposals (core_after governed) 0 = Some p \<and> gp_votes_for p = 1 \<and>
     1 = int (card (voters (core_after governed) 0 For))"
proof -
  obtain p where p: "gov_proposals (core_after governed) 0 = Some p" "gp_votes_for p = 1"
    and c: "gs_config (core_after governed) = Some open_vote"
    by (simp add: core_run_defs core_eval_defs gov_proposals_def)
  from tallies_exact [OF core_after_reachable p(1) c] p show ?thesis
    by (auto simp: open_vote_def)
qed

lemma approval_needs_quorum:
  assumes "core_reachable T s" and "is_upg_ok env s h"
  shows "\<exists>c i p. gs_config s = Some c \<and> gov_proposals s i = Some p \<and> gp_wasm_hash p = h \<and>
    gp_status p = Executed \<and>
    sat_add_u64 (gp_voting_end p) (gp_execution_delay p) \<le> timestamp env \<and>
    int (gc_quorum_percentage c) * total_voting_power c \<le>
      10000 * (tally (gov_votes s) i For + tally (gov_votes s) i Against +
        tally (gov_votes s) i Abstain) \<and>
    int (gc_approval_threshold c) * (tally (gov_votes s) i For + tally (gov_votes s) i Against) \<le>
      10000 * tally (gov_votes s) i For \<and>
    0 < tally (gov_votes s) i For \<and>
    tally (gov_votes s) i Against \<le> tally (gov_votes s) i For"
proof -
  have div: "q * n \<le> m * 10000" if "q \<le> m * 10000 div n" "0 < n" for q m n :: int
  proof -
    have "q * n \<le> m * 10000 div n * n" using that by (intro mult_right_mono) simp_all
    also have "\<dots> \<le> m * 10000" using that(2) by (simp add: minus_mod_eq_div_mult [symmetric])
    finally show ?thesis .
  qed
  obtain P i p where P: "gs_proposals s = Some P" "P i = Some p" and p: "gp_wasm_hash p = h"
      "gp_status p = Executed"
      "sat_add_u64 (gp_voting_end p) (gp_execution_delay p) \<le> timestamp env"
    using assms(2)
    by (auto simp: is_upg_ok_def is_upgrade_approved_def approval_loop_iff approves_def
        split: option.splits)
  obtain c where c: "gs_config s = Some c" "config_valid c" "counted (gov_votes s) i p"
      "settled_by_votes c p" and nn: "0 \<le> gp_votes_for p" "0 \<le> gp_votes_against p"
    using gov_okE [OF reachable_gov_ok [OF assms(1)] P] by metis
  have passed: "passed c p" using c(4) p(2) by (simp add: settled_by_votes_def)
  let ?f = "gp_votes_for p" and ?a = "gp_votes_against p" and ?b = "gp_votes_abstain p"
  have quorum: "int (gc_quorum_percentage c) * total_voting_power c \<le> (?f + ?a + ?b) * 10000"
    using passed c(2) by (intro div) (simp_all add: passed_def config_valid_def)
  have threshold: "int (gc_approval_threshold c) * (?f + ?a) \<le> ?f * 10000"
    using passed by (intro div) (simp_all add: passed_def)
  have "5000 * (?f + ?a) \<le> int (gc_approval_threshold c) * (?f + ?a)"
    using c(2) nn by (intro mult_right_mono) (simp_all add: config_valid_def)
  with threshold passed nn have "?a \<le> ?f \<and> 0 < ?f" by (simp add: passed_def)
  then show ?thesis
    using c(1,3) P p quorum threshold
    by (auto simp: counted_def gov_proposals_def mult.commute)
qed

text \<open>
  The upgrade gate that the escrow contracts ask is sound. When a reachable core contract
  approves a code hash, there is an executed proposal for this very hash, its delay after the
  end of the vote has passed, the votes cast reach the quorum share of the total voting
  power, and those in favour reach the threshold share of the decided votes, which is at
  least one half.
\<close>

theorem approved_upgrade_has_quorum:
  assumes "core_reachable T s" and "is_upg_ok env s h"
  shows "\<exists>c i p. gs_config s = Some c \<and> gov_proposals s i = Some p \<and> gp_wasm_hash p = h \<and>
    gp_status p = Executed \<and>
    sat_add_u64 (gp_voting_end p) (gp_execution_delay p) \<le> timestamp env \<and>
    int (gc_quorum_percentage c) * total_voting_power c \<le>
      10000 * (tally (gov_votes s) i For + tally (gov_votes s) i Against +
        tally (gov_votes s) i Abstain) \<and>
    int (gc_approval_threshold c) * (tally (gov_votes s) i For + tally (gov_votes s) i Against) \<le>
      10000 * tally (gov_votes s) i For \<and>
    0 < tally (gov_votes s) i For \<and>
    tally (gov_votes s) i Against \<le> tally (gov_votes s) i For"
  by (rule approval_needs_quorum [OF assms])

lemma approved_upgrade_has_quorum_witness:
  "is_upg_ok (sample_env 170 []) (core_after approved_and_executed) 77 \<and>
   (\<exists>c i p. gs_config (core_after approved_and_executed) = Some c \<and>
      gov_proposals (core_after approved_and_executed) i = Some p \<and> gp_status p = Executed)"
proof -
  have ok: "is_upg_ok (sample_env 170 []) (core_after approved_and_executed) 77"
    by (simp add: core_run_defs core_eval_defs is_upg_ok_def is_upgrade_approved_def
        approval_loop.simps approves_def)
  from approved_upgrade_has_quorum [OF core_after_reachable this] ok show ?thesis by blast
qed

definition with_status :: "core \<Rightarrow> u32 \<Rightarrow> gov_proposal \<Rightarrow> proposal_status \<Rightarrow> core" where
  "with_status s i p st =
     s\<lparr>gs_proposals := Some ((gov_proposals s)(i \<mapsto> p\<lparr>gp_status := st\<rparr>))\<rparr>"

lemma with_status_simps [simp]:
  "gs_config (with_status s i p st) = gs_config s"
  "load_proposal (with_status s i p st) i =
     Inr ((gov_proposals s)(i \<mapsto> p\<lparr>gp_status := st\<rparr>), p\<lparr>gp_status := st\<rparr>)"
  "store_proposal (with_status s i p st) ((gov_proposals s)(i \<mapsto> q)) i (p\<lparr>gp_status := st'\<rparr>) =
     with_status s i p st'"
  by (simp_all add: with_status_def load_proposal_def store_proposal_def)

lemma load_stored:
  "gov_proposals s i = Some p \<Longrightarrow> load_proposal s i = Inr (gov_proposals s, p)"
  by (simp add: load_proposal_def gov_proposals_def split: option.splits)

lemma store_with_status:
  "store_proposal s (gov_proposals s) i (p\<lparr>gp_status := st\<rparr>) = with_status s i p st"
  by (simp add: with_status_def store_proposal_def)

lemma finalize_any_status:
  assumes "gov_proposals s i = Some p" and "gp_voting_end p < timestamp env"
    and "gp_voting_end p < timestamp env'"
  shows "finalize_proposal env' (with_status s i p st) i = finalize_proposal env s i"
  using assms(2,3)
  by (simp add: finalize_proposal_def load_stored [OF assms(1)] store_with_status Let_def
      cong: if_cong)

lemma finalized:
  assumes "gov_proposals s i = Some p" and "finalize_proposal env s i = Inr (s', st)"
  shows "gp_voting_end p < timestamp env" and "s' = with_status s i p st"
  using assms(2)
  by (auto simp: finalize_proposal_def load_stored [OF assms(1)] store_with_status bnd_Inr
      ok_or_Inr Let_def not_le split: if_splits)

lemma execute_approved:
  assumes "sat_add_u64 (gp_voting_end p) (gp_execution_delay p) \<le> timestamp env"
  shows "execute_proposal env (with_status s i p Approved) i = Inr (with_status s i p Executed)"
  using assms
  by (simp add: execute_proposal_def load_proposal_def store_proposal_def with_status_def)

lemma gate_opens:
  assumes "i < gov_count s"
    and "sat_add_u64 (gp_voting_end p) (gp_execution_delay p) \<le> timestamp env"
  shows "is_upg_ok env (with_status s i p Executed) (gp_wasm_hash p)"
  using assms
  by (auto simp: is_upg_ok_def is_upgrade_approved_def with_status_def approval_loop_iff
      approves_def gov_count_def intro!: exI [of _ i])

text \<open>
  C23: A veto does not last. Finalising a proposal never looks at its status: if some call
  finalises a proposal as approved, then so does every call after the end of the vote, by
  anyone and with the same result, were the proposal of whatever other status, cancelled and
  so vetoed among them. Afterwards it is no longer vetoed, and from the end of its delay on
  anyone can execute it, upon which the gate approves its code.
\<close>

theorem finalisation_revives_cancelled:
  fixes env :: "'w env"
  assumes "core_reachable T s" and "gov_proposals s i = Some p"
    and "finalize_proposal env s i = Inr (s', Approved)"
  shows "(\<forall>(env' :: 'w env) st. gp_voting_end p < timestamp env' \<longrightarrow>
      finalize_proposal env' (with_status s i p st) i = Inr (s', Approved)) \<and>
    is_vetoed (with_status s i p Gov_Cancelled) i \<and> \<not> is_vetoed s' i \<and>
    (\<forall>env' :: 'w env. sat_add_u64 (gp_voting_end p) (gp_execution_delay p) \<le> timestamp env' \<longrightarrow>
      (\<exists>s''. execute_proposal env' s' i = Inr s'' \<and> is_upg_ok env' s'' (gp_wasm_hash p)))"
proof -
  have "gov_ok s" using core_inv.reach_inv [OF assms(1)] by (simp add: core_ok_def)
  then have i: "i < gov_count s"
    using assms(2) by (auto simp: gov_ok_def gov_proposals_def split: option.splits)
  note fin = finalized [OF assms(2,3)]
  have again: "finalize_proposal env' (with_status s i p st) i = Inr (s', Approved)"
    if "gp_voting_end p < timestamp env'" for env' :: "'w env" and st
    using finalize_any_status [OF assms(2) fin(1) that] assms(3) by simp
  have veto: "is_vetoed (with_status s i p st) i \<longleftrightarrow> st = Gov_Cancelled" for st
    by (simp add: is_vetoed_def get_proposal_status_def)
  have "execute_proposal env' s' i = Inr (with_status s i p Executed) \<and>
      is_upg_ok env' (with_status s i p Executed) (gp_wasm_hash p)"
    if "sat_add_u64 (gp_voting_end p) (gp_execution_delay p) \<le> timestamp env'"
    for env' :: "'w env"
    using execute_approved [OF that] gate_opens [OF i that] fin(2) by simp
  then show ?thesis using again veto fin(2) by auto
qed

text \<open>The proposer cancels his proposal during the vote; after the vote it is approved.\<close>

lemma finalisation_revives_cancelled_witness:
  "is_vetoed (core_after cancelled) 0 \<and>
   (\<exists>s' s''. finalize_proposal (sample_env 121 []) (core_after cancelled) 0 = Inr (s', Approved) \<and>
      \<not> is_vetoed s' 0 \<and> execute_proposal (sample_env 170 []) s' 0 = Inr s'' \<and>
      is_upg_ok (sample_env 170 []) s'' 77)"
proof -
  obtain p where p: "gov_proposals (core_after cancelled) 0 = Some p" "gp_wasm_hash p = 77"
      "gp_voting_end p = 120" "gp_execution_delay p = 50"
    by (simp add: core_run_defs core_eval_defs gov_proposals_def)
  obtain s' where s': "finalize_proposal (sample_env 121 []) (core_after cancelled) 0
      = Inr (s', Approved)"
    by (simp add: core_run_defs core_eval_defs)
  have "is_vetoed (core_after cancelled) 0"
    by (simp add: core_run_defs core_eval_defs is_vetoed_def get_proposal_status_def)
  moreover have "\<not> is_vetoed s' 0"
    using finalisation_revives_cancelled [OF core_after_reachable p(1) s'] by blast
  moreover have "sat_add_u64 (gp_voting_end p) (gp_execution_delay p)
      \<le> timestamp (sample_env 170 [])"
    by (simp add: p sat_add_u64_def)
  then have "\<exists>s''. execute_proposal (sample_env 170 []) s' 0 = Inr s'' \<and>
      is_upg_ok (sample_env 170 []) s'' (gp_wasm_hash p)"
    using finalisation_revives_cancelled [OF core_after_reachable p(1) s'] by blast
  ultimately show ?thesis using s' p(2) by auto
qed

text \<open>
  Nor does an approval. Once a proposal is executed the gate approves its code; a second
  finalisation, which needs nobody's authorisation, sets it back to approved, and the gate
  closes until somebody executes the proposal again.
\<close>

theorem finalisation_withdraws_executed:
  "is_upg_ok (sample_env 200 []) (core_after approved_and_executed) 77 \<and>
   (\<exists>s. finalize_proposal (sample_env 200 []) (core_after approved_and_executed) 0
        = Inr (s, Approved) \<and>
      \<not> is_upg_ok (sample_env 200 []) s 77)"
  by (simp add: core_run_defs core_eval_defs is_upg_ok_def is_upgrade_approved_def
      approval_loop.simps approves_def)

section \<open>Timelock and code changes\<close>

text \<open>
  C31: the timelock holds. Whenever the admin's upgrade of a reachable core contract goes
  through, this very hash was scheduled, at least five minutes before (or the clock is at its
  end), the schedule is used up, and the code with that hash is installed.
\<close>

theorem upgrade_waits_out_timelock:
  assumes "core_reachable T s" and "core_upgrade env s h = Inr s'"
  shows "\<exists>sch. cs_scheduled s = Some sch \<and> su_wasm_hash sch = h \<and>
    min u64_max (su_scheduled_at sch + 300) \<le> timestamp env \<and>
    cs_scheduled s' = None \<and> cs_wasm s' = Some h"
proof (rule core_upgrade_Inr [OF assms(2)])
  fix a sch m ev
  assume sch: "cs_scheduled s = Some sch" "su_wasm_hash sch = h"
      "su_executable_at sch \<le> timestamp env"
    and s': "s' = s\<lparr>cs_previous_version := Some (case cs_version s of None \<Rightarrow> 1 | Some v \<Rightarrow> v),
       cs_wasm := Some h, cs_scheduled := None,
       cs_gov_upg := Some (increment_counter (cs_gov_upg s)), cs_monitor := m, cs_events := ev\<rparr>"
  have "lock_ok s" using core_inv.reach_inv [OF assms(1)] by (simp add: core_ok_def)
  then have "sat_add_u64 (su_scheduled_at sch) 300 \<le> timestamp env"
    using sch by (fastforce simp: lock_ok_def MIN_UPGRADE_DELAY_SECONDS_def)
  then show ?thesis using sch s' by (simp add: sat_add_u64_def)
qed

lemma upgrade_waits_out_timelock_witness:
  "\<exists>s'. core_upgrade (sample_env 86420 [1]) (core_after administered) 99 = Inr s' \<and>
     cs_wasm s' = Some 99"
proof -
  obtain s' where ok: "core_upgrade (sample_env 86420 [1]) (core_after administered) 99 = Inr s'"
    by (simp add: core_run_defs core_eval_defs sample_env_def)
  from upgrade_waits_out_timelock [OF core_after_reachable ok] ok show ?thesis by blast
qed

text \<open>
  Only the path that was chosen at initialisation can change the code. A call that installs
  code in a reachable contract is either the execution of a multisig proposal for that hash
  with its threshold of distinct approvals, in a contract initialised for the multisig, or
  the upgrade of a contract initialised for a single admin, authorised by him. A contract
  initialised for governance never changes its own code.
\<close>

theorem code_changes_by_claimed_path:
  assumes "core_reachable T s" and "core_exec env w c s = Inr s'" and "cs_wasm s' \<noteq> cs_wasm s"
  shows "(cs_mode s = Some Multisig_mode \<and> (\<exists>i n p h. c = Execute_upgrade i n \<and>
      ms_proposals s i = Some p \<and> mp_action p = Upgrade h \<and> cs_wasm s' = Some h \<and>
      mp_threshold p \<le> card (set (mp_approvals p) \<inter> set (mp_signers p)))) \<or>
    (cs_mode s = Some SingleAdmin_mode \<and> (\<exists>h a. c = Core_upgrade h \<and>
      cs_admin s = Some a \<and> authorized env a \<and> cs_wasm s' = Some h))"
proof -
  have ok: "mode_ok s" "ms_ok s"
    using core_inv.reach_inv [OF assms(1)] by (simp_all add: core_ok_def)
  consider i n where "c = Execute_upgrade i n" | h where "c = Core_upgrade h"
    | "\<forall>i n. c \<noteq> Execute_upgrade i n" "\<forall>h. c \<noteq> Core_upgrade h" by blast
  then show ?thesis
  proof cases
    case (1 i n)
    then have "execute_upgrade env s i n = Inr s'" using assms(2) by simp
    then show ?thesis
    proof (rule execute_upgrade_proposals)
      fix h p
      assume p: "ms_proposals s i = Some p" "mp_action p = Upgrade h"
          "mp_threshold p \<le> length (mp_approvals p)" "cs_wasm s' = Some h"
      have pok: "proposal_ok p" using ms_ok_proposal [OF ok(2) p(1)] .
      then have "card (set (mp_approvals p) \<inter> set (mp_signers p)) = length (mp_approvals p)"
        by (simp add: proposal_ok_def Int_absorb2 distinct_card)
      moreover have "ms_config s \<noteq> None" using ok(2) p(1) by (auto simp: ms_ok_def)
      ultimately show ?thesis using p 1 ok(1) by (auto simp: mode_ok_def)
    qed
  next
    case (2 h)
    then show ?thesis using assms(2) ok(1) by (auto simp: mode_ok_def elim!: core_upgrade_Inr)
  next
    case 3
    then have "cs_wasm s' = cs_wasm s" by (rule code_frame [OF assms(2)])
    with assms(3) show ?thesis by simp
  qed
qed

lemma code_changes_by_claimed_path_witness:
  "\<exists>s'. core_exec (sample_env 50 []) (\<lambda>_. 0) (Execute_upgrade 1 0) (core_after multisigned)
       = Inr s' \<and> cs_mode (core_after multisigned) = Some Multisig_mode"
proof -
  obtain s' where ok: "core_exec (sample_env 50 []) (\<lambda>_. 0) (Execute_upgrade 1 0)
      (core_after multisigned) = Inr s'"
    and "cs_wasm s' = Some 88" "cs_wasm (core_after multisigned) = None"
    by (simp add: core_run_defs core_eval_defs sample_env_def)
  then have "cs_wasm s' \<noteq> cs_wasm (core_after multisigned)" by simp
  from code_changes_by_claimed_path [OF core_after_reachable ok this] ok show ?thesis by auto
qed

section \<open>Migrations\<close>

text \<open>The counters of an entrypoint are short of their 64 bits.\<close>

definition room_for :: "symbol \<Rightarrow> core \<Rightarrow> bool" where
  "room_for fn s \<longleftrightarrow> or_zero (op_count (cs_monitor s)) < u64_max \<and>
     or_zero (perf_cnt (cs_monitor s) fn) < u64_max \<and>
     or_zero (perf_time (cs_monitor s) fn) \<le> u64_max"

text \<open>
  Migrations. With the admin's authorisation a migration that is not recorded yet succeeds
  exactly from version 1 or 2 to a later version up to 3, and then the version and the record
  are the target; one that is recorded returns at once and changes nothing; everything else
  is refused. The loop always ends.
\<close>

theorem migrate_outcome:
  assumes "cs_admin s = Some a" and "authorized env a" and "cs_version s = Some v"
    and "room_for ''migrate'' s"
  shows "(already_migrated s t \<longrightarrow> migrate env s t h = Inr s) \<and>
    (\<not> already_migrated s t \<longrightarrow>
      (if 1 \<le> v \<and> v < t \<and> t \<le> 3
       then \<exists>s'. migrate env s t h = Inr s' \<and> cs_version s' = Some t \<and> already_migrated s' t \<and>
         cs_wasm s' = cs_wasm s
       else \<exists>m. migrate env s t h = Inl (Panic (Message m))))"
proof -
  have admin: "core_require_admin env s = Inr a"
    using assms(1,2) by (simp add: core_require_admin_Inr)
  have room: "or_zero (op_count (cs_monitor s)) + 1 \<le> u64_max"
      "or_zero (perf_cnt (cs_monitor s) ''migrate'') + 1 \<le> u64_max"
      "or_zero (perf_time (cs_monitor s) ''migrate'') \<le> u64_max"
    using assms(4) by (simp_all add: room_for_def)
  have "\<exists>s'. migrate env s t h = Inr s' \<and> cs_version s' = Some t \<and> already_migrated s' t \<and>
      cs_wasm s' = cs_wasm s" if "\<not> already_migrated s t" "1 \<le> v" "v < t" "t \<le> 3"
    using that room
    by (simp add: migrate_def admin assms(3) migrate_loop_eq core_track_operation_def
        track_operation_def core_emit_performance_def emit_performance_def add_u64_def
        checked_add_u64_def emit_migration_event_def track_migration_run_def
        emit_governance_metric_def already_migrated_def publish_def Let_def)
  moreover have "\<exists>m. migrate env s t h = Inl (Panic (Message m))"
    if "\<not> already_migrated s t" "\<not> (1 \<le> v \<and> v < t \<and> t \<le> 3)"
    using that by (auto simp: migrate_def admin assms(3) migrate_loop_eq Let_def)
  moreover have "migrate env s t h = Inr s" if "already_migrated s t"
    using that by (simp add: migrate_def admin Let_def)
  ultimately show ?thesis by auto
qed

lemma migrate_outcome_witness:
  "\<exists>s'. migrate (sample_env 30 [1]) (core_after administered) 3 5 = Inr s' \<and>
     cs_version s' = Some 3"
proof -
  let ?s = "core_after administered"
  have s: "cs_admin ?s = Some 1" "cs_version ?s = Some 2" "room_for ''migrate'' ?s"
      "\<not> already_migrated ?s 3"
    by (simp_all add: core_run_defs core_eval_defs room_for_def)
  from migrate_outcome [OF s(1) _ s(2,3), of "sample_env 30 [1]" 3 5] s(4) show ?thesis by auto
qed

text \<open>
  A recorded migration hides a later one that is needed. After a migration to version 3 the
  admin sets the version back to 1; migrating to 3 again reports success and leaves the
  version at 1.
\<close>

theorem migration_skipped_after_downgrade:
  "is_ok (core_run migrated_back initial_core) \<and>
   get_version (core_after migrated_back) = 1 \<and>
   migrate (sample_env 40 [1]) (core_after migrated_back) 3 6 = Inr (core_after migrated_back)"
  by (simp add: core_run_defs core_eval_defs get_version_def)

end
