(* ===== verification/CoreLink.thy ===== *)
theory CoreLink
  imports CoreProps BountyEscrow BountyRefund
begin

text \<open>
  The bounty escrow linked to a core contract: the calls of governance_integration.rs answered
  by the entrypoints of grainlify-core. The interface the escrow relies on is the locale
  \<open>governance_api\<close>, interpreted on the core's definitions.
\<close>

section \<open>The interface\<close>

text \<open>
  The version calls and the upgrade gate of a governance contract, with the law that the code
  of the core contract obeys: one that approves any upgrade reports no version.
\<close>

locale governance_api =
  fixes ver :: "'c \<Rightarrow> u32"
    and ver_encoded :: "'c \<Rightarrow> u32"
    and upg_ok :: "'w env \<Rightarrow> 'c \<Rightarrow> bytes32 \<Rightarrow> bool"
    and Inv :: "'c \<Rightarrow> bool"
  assumes no_version: "Inv c \<Longrightarrow> upg_ok env c h \<Longrightarrow> ver c = 0 \<and> ver_encoded c = 0"
begin

lemma positive_minimum_refuses:
  assumes "Inv c" and "gov_addr link = Some g" and "0 < link_get_min_governance_version link"
    and "gv_get_ver env g w = Some (ver c)"
    and "gv_get_version_numeric_encoded env g w = Some (ver_encoded c)"
    and "gv_is_upg_ok env g h w = Some (upg_ok env c h)"
  shows "check_upgrade_approval env w link h = Inr False"
  using assms no_version [OF assms(1), of env h]
  by (auto simp: check_upgrade_approval_def check_governance_version_def Let_def
      link_get_governance_contract_def)

end

lemma governance_mode_no_version:
  assumes "mode_ok s" and "cs_mode s = Some Governance_mode"
  shows "get_ver s = 0 \<and> get_version_numeric_encoded s = 0"
  using assms by (auto simp: mode_ok_def get_ver_def get_version_def
      get_version_numeric_encoded_def sat_mul_u32_def Let_def)

lemma approves_only_in_governance_mode:
  assumes "core_ok s" and "is_upg_ok env s h"
  shows "cs_mode s = Some Governance_mode"
  using assms
  by (auto simp: core_ok_def gov_ok_def mode_ok_def is_upg_ok_def is_upgrade_approved_def
      split: option.splits)

interpretation core_gov: governance_api get_ver get_version_numeric_encoded is_upg_ok core_ok
  by unfold_locales
    (use approves_only_in_governance_mode governance_mode_no_version in \<open>auto simp: core_ok_def\<close>)

section \<open>An environment in which the escrow's calls reach a core contract\<close>

definition linked :: "'w env \<Rightarrow> addr \<Rightarrow> ('w \<Rightarrow> core) \<Rightarrow> bool" where
  "linked env g core_of \<longleftrightarrow> (\<forall>w.
     gv_get_ver env g w = Some (get_ver (core_of w)) \<and>
     gv_get_version_numeric_encoded env g w = Some (get_version_numeric_encoded (core_of w)) \<and>
     (\<forall>h. gv_is_upg_ok env g h w = Some (is_upg_ok env (core_of w) h)) \<and>
     (\<forall>p. gv_is_vetoed env g p w = Some (is_vetoed (core_of w) p)) \<and>
     (\<forall>p. (case execute_proposal env (core_of w) p of
             Inl _ \<Rightarrow> gv_execute_proposal env g p w = (False, w)
           | Inr c \<Rightarrow> fst (gv_execute_proposal env g p w) \<and>
               core_of (snd (gv_execute_proposal env g p w)) = c)))"

text \<open>The concrete host with a core contract beside its ledger.\<close>

definition link_env :: "u64 \<Rightarrow> addr list \<Rightarrow> (core \<times> ledger) env" where
  "link_env now who =
     \<lparr>timestamp = now, current_contract_address = 0,
      authorized = (\<lambda>a. a \<in> set who), reauthorized = (\<lambda>_. False),
      wasm_uploaded = (\<lambda>_. True),
      tk_transfer = (\<lambda>t f r a (c, w). map_option (Pair c) (ledger_transfer t f r a w)),
      tk_balance = (\<lambda>t x (c, w). Some (int (w x))),
      gv_get_ver = (\<lambda>_ (c, _). Some (get_ver c)),
      gv_get_version_numeric_encoded = (\<lambda>_ (c, _). Some (get_version_numeric_encoded c)),
      gv_is_upg_ok = (\<lambda>_ h (c, _). Some (is_upg_ok (sample_env now who) c h)),
      gv_is_vetoed = (\<lambda>_ p (c, _). Some (is_vetoed c p)),
      gv_execute_proposal = (\<lambda>_ p (c, w).
        case execute_proposal (sample_env now who) c p of
          Inl _ \<Rightarrow> (False, c, w) | Inr c' \<Rightarrow> (True, c', w))\<rparr>"

lemma link_env_simps [simp]:
  "timestamp (link_env now who) = now"
  "authorized (link_env now who) a = (a \<in> set who)"
  "wasm_uploaded (link_env now who) h"
  "gv_get_ver (link_env now who) g cw = Some (get_ver (fst cw))"
  "gv_get_version_numeric_encoded (link_env now who) g cw =
     Some (get_version_numeric_encoded (fst cw))"
  "gv_is_upg_ok (link_env now who) g h cw = Some (is_upg_ok (sample_env now who) (fst cw) h)"
  "gv_is_vetoed (link_env now who) g p cw = Some (is_vetoed (fst cw) p)"
  "gv_execute_proposal (link_env now who) g p cw =
     (case execute_proposal (sample_env now who) (fst cw) p of
        Inl _ \<Rightarrow> (False, fst cw, snd cw) | Inr c \<Rightarrow> (True, c, snd cw))"
  by (simp_all add: link_env_def case_prod_beta)

lemma linked_link_env: "linked (link_env now who) g fst"
proof -
  have "is_upg_ok (link_env now who) c h = is_upg_ok (sample_env now who) c h" for c h
    by (cases "gs_proposals c") (simp_all add: is_upg_ok_def is_upgrade_approved_def)
  moreover have "execute_proposal (link_env now who) c p = execute_proposal (sample_env now who) c p"
    for c p by (cases "load_proposal c p") (auto simp: execute_proposal_def)
  ultimately show ?thesis by (simp add: linked_def split: sum.splits)
qed

definition linked_escrow :: "u32 \<Rightarrow> core \<Rightarrow> (core \<times> ledger) state" where
  "linked_escrow min_version c =
     (initial_state (c, \<lambda>_. 0))\<lparr>st_admin := Some 2, st_token := Some 9,
       st_gov := \<lparr>gov_addr = Some 50, min_ver = Some min_version\<rparr>\<rparr>"

section \<open>Properties\<close>

text \<open>
  End to end, an escrow's code changes only by a vote. When the upgrade of an escrow linked
  to a core contract goes through, voters of the core contract have passed a proposal for
  that very hash: executed after its delay, with a quorum of the voting power and a majority
  of the decided votes.
\<close>

theorem escrow_upgrade_was_voted:
  assumes "core_reachable T (core_of (st_world s))" and "linked env g core_of"
    and "get_governance_contract s = Some g" and "upgrade env s h = Inr s'"
  shows "\<exists>c i p. gs_config (core_of (st_world s)) = Some c \<and>
    gov_proposals (core_of (st_world s)) i = Some p \<and> gp_wasm_hash p = h \<and>
    gp_status p = Executed \<and>
    sat_add_u64 (gp_voting_end p) (gp_execution_delay p) \<le> timestamp env \<and>
    int (gc_quorum_percentage c) * total_voting_power c \<le> 10000 *
      (tally (gov_votes (core_of (st_world s))) i For +
       tally (gov_votes (core_of (st_world s))) i Against +
       tally (gov_votes (core_of (st_world s))) i Abstain) \<and>
    tally (gov_votes (core_of (st_world s))) i Against
      \<le> tally (gov_votes (core_of (st_world s))) i For"
proof -
  have "gv_is_upg_ok env g h (st_world s) = Some True"
    using assms(3,4)
    by (auto simp: upgrade_def check_upgrade_approval_def get_governance_contract_def
        link_get_governance_contract_def res_simps split: if_splits)
  then have "is_upg_ok env (core_of (st_world s)) h"
    using assms(2) by (simp add: linked_def)
  from approval_needs_quorum [OF assms(1) this] show ?thesis by blast
qed

lemma escrow_upgrade_was_voted_witness:
  "\<exists>s'. upgrade (link_env 170 [2]) (linked_escrow 0 (core_after approved_and_executed)) 77
       = Inr s' \<and> st_wasm s' = Some 77 \<and>
     (\<exists>i p. gov_proposals (core_after approved_and_executed) i = Some p \<and> gp_wasm_hash p = 77)"
proof -
  let ?c = "core_after approved_and_executed"
  have gate: "is_upg_ok (sample_env 170 [2]) ?c 77"
    by (simp add: core_run_defs core_eval_defs is_upg_ok_def is_upgrade_approved_def
        approval_loop.simps approves_def)
  obtain s' where ok: "upgrade (link_env 170 [2]) (linked_escrow 0 ?c) 77 = Inr s'"
    and "st_wasm s' = Some 77"
    by (simp add: upgrade_def require_admin_def linked_escrow_def require_auth_def emit_def
        check_upgrade_approval_def check_governance_version_def initial_state_def gate
        link_get_governance_contract_def link_get_min_governance_version_def)
  moreover have "get_governance_contract (linked_escrow 0 ?c) = Some 50"
    by (simp add: get_governance_contract_def link_get_governance_contract_def linked_escrow_def)
  moreover have "core_reachable TYPE(ledger) (fst (st_world (linked_escrow 0 ?c)))"
    using core_after_reachable by (simp add: linked_escrow_def initial_state_def)
  ultimately show ?thesis
    using escrow_upgrade_was_voted [where g = 50, OF _ linked_link_env _ ok]
    by (auto simp: linked_escrow_def initial_state_def)
qed

text \<open>
  C12: a minimum governance version defeats the upgrade gate. Initialising a core contract for
  governance sets no version, and only a contract in that mode approves upgrades; so an
  escrow that asks for a positive minimum version of its linked core contract can never be
  upgraded, and when that contract is in governance mode it cannot release funds either.
\<close>

theorem minimum_version_locks_escrow:
  assumes "core_reachable T (core_of (st_world s))" and "linked env g core_of"
    and "get_governance_contract s = Some g" and "0 < get_min_governance_version s"
  shows "upgrade env s h \<noteq> Inr s' \<and>
    (cs_mode (core_of (st_world s)) = Some Governance_mode \<longrightarrow>
       release_funds env s b c = Inl (Contract GovernanceVersionTooLow))"
proof -
  note ok = core_inv.reach_inv [OF assms(1)]
  have g: "gov_addr (st_gov s) = Some g" "0 < link_get_min_governance_version (st_gov s)"
    using assms(3,4) by (simp_all add: get_governance_contract_def
        link_get_governance_contract_def get_min_governance_version_def)
  have "check_upgrade_approval env (st_world s) (st_gov s) h = Inr False"
    by (rule core_gov.positive_minimum_refuses [OF ok g]) (use assms(2) in \<open>auto simp: linked_def\<close>)
  then have "upgrade env s h \<noteq> Inr s'" by (auto simp: upgrade_def res_simps)
  moreover have "release_funds env s b c = Inl (Contract GovernanceVersionTooLow)"
    if "cs_mode (core_of (st_world s)) = Some Governance_mode"
  proof -
    have "get_ver (core_of (st_world s)) = 0 \<and>
        get_version_numeric_encoded (core_of (st_world s)) = 0"
      by (rule governance_mode_no_version [OF _ that]) (use ok in \<open>simp add: core_ok_def\<close>)
    then show ?thesis
      using assms(2) g by (simp add: release_funds_def check_governance_requirements_def
          check_governance_version_def link_get_governance_contract_def linked_def Let_def)
  qed
  ultimately show ?thesis by blast
qed

lemma minimum_version_locks_escrow_witness:
  "\<forall>s'. upgrade (link_env 170 [2]) (linked_escrow 1 (core_after approved_and_executed)) 77
     \<noteq> Inr s' \<and>
   release_funds (link_env 170 [2]) (linked_escrow 1 (core_after approved_and_executed)) 71 5
     = Inl (Contract GovernanceVersionTooLow)"
proof -
  let ?s = "linked_escrow 1 (core_after approved_and_executed)"
  have "get_governance_contract ?s = Some 50" "get_min_governance_version ?s = 1"
      "fst (st_world ?s) = core_after approved_and_executed"
    by (simp_all add: get_governance_contract_def link_get_governance_contract_def
        get_min_governance_version_def link_get_min_governance_version_def linked_escrow_def
        initial_state_def)
  moreover have "cs_mode (core_after approved_and_executed) = Some Governance_mode"
    by (simp add: core_run_defs core_eval_defs)
  moreover have r: "core_reachable TYPE(ledger) (fst (st_world ?s))"
    using core_after_reachable by (simp add: linked_escrow_def initial_state_def)
  ultimately show ?thesis
    using minimum_version_locks_escrow [OF r linked_link_env [of 170 "[2]"]] by auto
qed

end
