(* ===== verification/ProgramLink.thy ===== *)
theory ProgramLink
  imports ProgramRecords CoreLink
begin

text \<open>
  The program escrow linked to a core contract, through the same interface as the bounty
  escrow (\<open>governance_api\<close>). The program escrow asks for the version by \<open>get_ver\<close> only.
\<close>

context governance_api
begin

lemma program_minimum_refuses:
  assumes "Inv c" and "gov_addr link = Some g" and "0 < pg_get_min_governance_version link"
    and "gv_get_ver env g w = Some (ver c)" and "gv_is_upg_ok env g h w = Some (upg_ok env c h)"
  shows "pg_check_upgrade_approval env w link h = Inr False"
  using assms no_version [OF assms(1), of env h]
  by (auto simp: pg_check_upgrade_approval_def pg_check_governance_version_def Let_def
      pg_get_governance_contract_def)

end

definition linked_program :: "u32 \<Rightarrow> core \<Rightarrow> (core \<times> ledger) program" where
  "linked_program min_version c =
     (initial_program (c, \<lambda>_. 0))\<lparr>pr_admin := Some 2,
       pr_gov := \<lparr>gov_addr = Some 50, min_ver = Some min_version\<rparr>\<rparr>"

lemma linked_program_simps [simp]:
  "pr_world (linked_program v c) = (c, \<lambda>_. 0)" "pr_admin (linked_program v c) = Some 2"
  "pr_gov (linked_program v c) = \<lparr>gov_addr = Some 50, min_ver = Some v\<rparr>"
  by (simp_all add: linked_program_def initial_program_def)

text \<open>
  The code of a program escrow changes only by a vote and the admin's hand. When the
  upgrade of one that is linked to a core contract goes through, its admin authorised it and
  voters of the core contract passed a proposal for that very hash, executed after its delay,
  with a quorum of the voting power and a majority of the decided votes.
\<close>

theorem program_upgrade_was_voted:
  assumes "core_reachable T (core_of (pr_world s))" and "linked env g core_of"
    and "pr_get_governance_contract s = Some g" and "pr_upgrade env s h = Inr s'"
  shows "pr_wasm s' = Some h \<and> (\<exists>a. pr_admin s = Some a \<and> authorized env a) \<and>
   (\<exists>c i p. gs_config (core_of (pr_world s)) = Some c \<and>
    gov_proposals (core_of (pr_world s)) i = Some p \<and> gp_wasm_hash p = h \<and>
    gp_status p = Executed \<and>
    sat_add_u64 (gp_voting_end p) (gp_execution_delay p) \<le> timestamp env \<and>
    int (gc_quorum_percentage c) * total_voting_power c \<le> 10000 *
      (tally (gov_votes (core_of (pr_world s))) i For +
       tally (gov_votes (core_of (pr_world s))) i Against +
       tally (gov_votes (core_of (pr_world s))) i Abstain) \<and>
    tally (gov_votes (core_of (pr_world s))) i Against
      \<le> tally (gov_votes (core_of (pr_world s))) i For)"
proof -
  have "gv_is_upg_ok env g h (pr_world s) = Some True" and "pr_wasm s' = Some h"
    and "\<exists>a. pr_admin s = Some a \<and> authorized env a"
    using assms(3,4)
    by (auto simp: pr_upgrade_def pg_check_upgrade_approval_def pr_get_governance_contract_def
        requireadmin_def res_simps pr_emit_def split: if_splits)
  moreover from this(1) have "is_upg_ok env (core_of (pr_world s)) h"
    using assms(2) by (simp add: linked_def)
  from approval_needs_quorum [OF assms(1) this] have "\<exists>c i p.
      gs_config (core_of (pr_world s)) = Some c \<and>
      gov_proposals (core_of (pr_world s)) i = Some p \<and> gp_wasm_hash p = h \<and>
      gp_status p = Executed \<and>
      sat_add_u64 (gp_voting_end p) (gp_execution_delay p) \<le> timestamp env \<and>
      int (gc_quorum_percentage c) * total_voting_power c \<le> 10000 *
        (tally (gov_votes (core_of (pr_world s))) i For +
         tally (gov_votes (core_of (pr_world s))) i Against +
         tally (gov_votes (core_of (pr_world s))) i Abstain) \<and>
      tally (gov_votes (core_of (pr_world s))) i Against
        \<le> tally (gov_votes (core_of (pr_world s))) i For"
    by blast
  ultimately show ?thesis by blast
qed

lemma program_upgrade_was_voted_witness:
  "\<exists>s'. pr_upgrade (link_env 170 [2]) (linked_program 0 (core_after approved_and_executed)) 77
       = Inr s' \<and> pr_wasm s' = Some 77 \<and>
     (\<exists>i p. gov_proposals (core_after approved_and_executed) i = Some p \<and> gp_wasm_hash p = 77)"
proof -
  let ?c = "core_after approved_and_executed"
  have gate: "is_upg_ok (sample_env 170 [2]) ?c 77"
    by (simp add: core_run_defs core_eval_defs is_upg_ok_def is_upgrade_approved_def
        approval_loop.simps approves_def)
  obtain s' where ok: "pr_upgrade (link_env 170 [2]) (linked_program 0 ?c) 77 = Inr s'"
    by (simp add: pr_upgrade_def requireadmin_def require_auth_def gate
        pg_check_upgrade_approval_def pg_check_governance_version_def
        pg_get_governance_contract_def pg_get_min_governance_version_def)
  moreover have "pr_get_governance_contract (linked_program 0 ?c) = Some 50"
    by (simp add: pr_get_governance_contract_def pg_get_governance_contract_def)
  moreover have "core_reachable TYPE(ledger) (fst (pr_world (linked_program 0 ?c)))"
    using core_after_reachable by simp
  ultimately show ?thesis
    using program_upgrade_was_voted [where g = 50, OF _ linked_link_env _ ok] by auto
qed

text \<open>
  A minimum governance version stops a program escrow as well. One that asks its linked
  core contract for a positive minimum can never be upgraded; and when that contract is in
  governance mode, whose version stays 0, no payout, single or batch, goes through and the
  pause flags cannot be set, while the releases of schedules do not ask.
\<close>

theorem minimum_version_stops_payouts:
  assumes "core_reachable T (core_of (pr_world s))" and "linked env g core_of"
    and "pr_get_governance_contract s = Some g" and "0 < pr_get_min_governance_version s"
  shows "pr_upgrade env s h \<noteq> Inr s' \<and>
    (cs_mode (core_of (pr_world s)) = Some Governance_mode \<longrightarrow>
       single_payout env s x amt \<noteq> Inr r \<and> batch_payout env s xs amts \<noteq> Inr r \<and>
       pr_set_paused env s p1 p2 p3 \<noteq> Inr s')"
proof -
  note ok = core_inv.reach_inv [OF assms(1)]
  have g: "gov_addr (pr_gov s) = Some g" "0 < pg_get_min_governance_version (pr_gov s)"
    using assms(3,4) by (simp_all add: pr_get_governance_contract_def
        pg_get_governance_contract_def pr_get_min_governance_version_def)
  have "(pg_check_upgrade_approval env (pr_world s) (pr_gov s) h :: bool pres) = Inr False"
    by (rule core_gov.program_minimum_refuses [OF ok g]) (use assms(2) in \<open>auto simp: linked_def\<close>)
  then have "pr_upgrade env s h \<noteq> Inr s'" by (auto simp: pr_upgrade_def res_simps)
  moreover have "single_payout env s x amt \<noteq> Inr r \<and> batch_payout env s xs amts \<noteq> Inr r \<and>
      pr_set_paused env s p1 p2 p3 \<noteq> Inr s'"
    if "cs_mode (core_of (pr_world s)) = Some Governance_mode"
  proof -
    have "get_ver (core_of (pr_world s)) = 0 \<and>
        get_version_numeric_encoded (core_of (pr_world s)) = 0"
      by (rule governance_mode_no_version [OF _ that]) (use ok in \<open>simp add: core_ok_def\<close>)
    then have low: "pr_check_governance_requirements env s \<noteq> Inr ()"
      using assms(2) g
      by (simp add: pr_check_governance_requirements_def pg_check_governance_version_def
          pg_get_governance_contract_def linked_def Let_def)
    have "\<not> payout_open env s d" for d using low by (simp add: payout_open_def)
    then have "single_payout env s x amt \<noteq> Inr r" "batch_payout env s xs amts \<noteq> Inr r"
      using single_payoutE batch_payoutE by (metis surj_pair)+
    moreover have "pr_set_paused env s p1 p2 p3 \<noteq> Inr s'"
      using low by (auto simp: pr_set_paused_def res_simps)
    ultimately show ?thesis by blast
  qed
  ultimately show ?thesis by blast
qed

lemma minimum_version_stops_payouts_witness:
  "\<forall>s' r. pr_upgrade (link_env 170 [2]) (linked_program 1 (core_after approved_and_executed)) 77
     \<noteq> Inr s' \<and>
   single_payout (link_env 170 [2]) (linked_program 1 (core_after approved_and_executed)) 4 5
     \<noteq> Inr r"
proof -
  let ?s = "linked_program 1 (core_after approved_and_executed)"
  have "pr_get_governance_contract ?s = Some 50" "0 < pr_get_min_governance_version ?s"
    by (simp_all add: pr_get_governance_contract_def pg_get_governance_contract_def
        pr_get_min_governance_version_def pg_get_min_governance_version_def)
  moreover have "cs_mode (core_after approved_and_executed) = Some Governance_mode"
    by (simp add: core_run_defs core_eval_defs)
  moreover have r: "core_reachable TYPE(ledger) (fst (pr_world ?s))"
    using core_after_reachable by simp
  ultimately show ?thesis
    using minimum_version_stops_payouts [OF r linked_link_env [of 170 "[2]"]] by auto
qed

end
