(* ===== verification/Consent.thy ===== *)
theory Consent
  imports BountyGuards ProgramScenario
begin

text \<open>
  Whose tokens a call can move. The world of the other contracts changes during a call only
  by transfers out of the contract's own account or of an account that authorised the call,
  and by the execution of governance proposals: the relation \<open>entrusted\<close>. Both escrows keep
  to it in every call, so an account that has not authorised a call loses nothing by it.
\<close>

section \<open>Transfers by consent\<close>

text \<open>\<open>tok\<close> is the token of the contract, once it has one.\<close>

inductive entrusted :: "'w env \<Rightarrow> addr option \<Rightarrow> 'w \<Rightarrow> 'w \<Rightarrow> bool" for env tok where
  untouched: "entrusted env tok w w"
| transferred: "entrusted env tok w w1 \<Longrightarrow> tok = Some t \<Longrightarrow>
    f = current_contract_address env \<or> authorized env f \<Longrightarrow>
    tk_transfer env t f r a w1 = Some w2 \<Longrightarrow> entrusted env tok w w2"
| governed: "entrusted env tok w w1 \<Longrightarrow>
    entrusted env tok w (snd (gv_execute_proposal env g p w1))"

lemma entrusted_trans: "entrusted env tok w1 w2 \<Longrightarrow> entrusted env tok w w1 \<Longrightarrow> entrusted env tok w w2"
  by (induction rule: entrusted.induct) (auto intro: entrusted.intros)

lemma own_transfer:
  "tk_transfer env t (current_contract_address env) r a w = Some w' \<Longrightarrow>
   entrusted env (Some t) w w'"
  by (rule transferred [OF untouched refl disjI1 [OF refl]])

lemma consented_transfer:
  "authorized env f \<Longrightarrow> tk_transfer env t f r a w = Some w' \<Longrightarrow> entrusted env (Some t) w w'"
  by (rule transferred [OF untouched refl disjI2])

lemma entrusted_governance: "entrusted env tok w (snd (gv_execute_proposal env g p w))"
  by (rule governed [OF untouched])

text \<open>
  What is asked of the other contracts so that the account of \<open>x\<close> is safe: a transfer takes
  from its sender only, whichever the token (separate tokens do so by \<open>sep41\<close>), and the
  execution of a governance proposal takes nothing of \<open>x\<close>.
\<close>

definition takes_from_sender :: "'w env \<Rightarrow> bool" where
  "takes_from_sender env \<longleftrightarrow>
     (\<forall>t t' f r a w w' x. tk_transfer env t f r a w = Some w' \<longrightarrow> x \<noteq> f \<longrightarrow>
        balance_of env t' x w \<le> balance_of env t' x w')"

definition gov_spares :: "'w env \<Rightarrow> addr \<Rightarrow> bool" where
  "gov_spares env x \<longleftrightarrow> (\<forall>g p w t.
     balance_of env t x w \<le> balance_of env t x (snd (gv_execute_proposal env g p w)))"

lemma transfer_spares:
  assumes "tk_transfer env t f r a w = Some w'" and "sep41 env t" and "x \<noteq> f"
    and "t' = t \<or> takes_from_sender env"
  shows "balance_of env t' x w \<le> balance_of env t' x w'"
proof (cases "t' = t")
  case True
  then show ?thesis
    using sep41_balance [OF assms(2,1), of x] sep41_nonneg [OF assms(2,1)] assms(3) by simp
next
  case False
  then show ?thesis using assms(1,3,4) unfolding takes_from_sender_def by blast
qed

lemma entrusted_spares:
  assumes "entrusted env tok w w'" and "\<forall>t. sep41 env t" and "gov_spares env x"
    and "x \<noteq> current_contract_address env" and "\<not> authorized env x"
    and "tok = Some t \<or> takes_from_sender env"
  shows "balance_of env t x w \<le> balance_of env t x w'"
  using assms(1)
proof (induction rule: entrusted.induct)
  case (transferred w w1 t1 f r a w2)
  have "balance_of env t x w1 \<le> balance_of env t x w2"
    by (rule transfer_spares [OF transferred.hyps(4)])
      (use assms(2,4,5,6) transferred.hyps(2,3) in auto)
  then show ?case using transferred.IH by simp
next
  case (governed w w1 g p)
  then show ?case using assms(3) unfolding gov_spares_def by (meson order_trans)
qed simp

section \<open>The bounty escrow\<close>

lemma lock_one_entrusted:
  "lock_one env s i = Inr s' \<Longrightarrow> authorized env (li_depositor i) \<Longrightarrow>
   entrusted env (st_token s) (st_world s) (st_world s') \<and> st_token s' = st_token s"
  by (auto simp: lock_one_def bnd_Inr token_transfer_Inr frame_simps intro: consented_transfer)

lemma release_one_entrusted:
  "release_one env s i = Inr s' \<Longrightarrow>
   entrusted env (st_token s) (st_world s) (st_world s') \<and> st_token s' = st_token s"
  by (auto simp: release_one_def bnd_Inr token_transfer_Inr counter_set_defs frame_simps Let_def
      intro: own_transfer)

lemma sweep_one_entrusted:
  "sweep_one env s b = Inr s' \<Longrightarrow>
   entrusted env (st_token s) (st_world s) (st_world s') \<and> st_token s' = st_token s"
  by (clarsimp simp: sweep_one_def bnd_Inr token_transfer_Inr Let_def)
    (simp add: frame_simps counter_set_defs own_transfer if_distrib [where f = st_world]
      if_distrib [where f = st_token] del: if_split)

lemma lock_all_entrusted:
  "lock_all env s is n = Inr (s', n') \<Longrightarrow> \<forall>i\<in>set is. authorized env (li_depositor i) \<Longrightarrow>
   entrusted env (st_token s) (st_world s) (st_world s')"
proof (induction "is" arbitrary: s n)
  case (Cons i "is")
  then obtain s1 n1 where "lock_one env s i = Inr s1" "lock_all env s1 is n1 = Inr (s', n')"
    by (auto simp: bnd_Inr)
  with Cons show ?case using lock_one_entrusted [of env s i s1]
    by (metis entrusted_trans list.set_intros)
qed (simp add: untouched)

lemma release_all_entrusted:
  "release_all env s is n = Inr (s', n') \<Longrightarrow> entrusted env (st_token s) (st_world s) (st_world s')"
proof (induction "is" arbitrary: s n)
  case (Cons i "is")
  then obtain s1 n1 where "release_one env s i = Inr s1" "release_all env s1 is n1 = Inr (s', n')"
    by (auto simp: bnd_Inr)
  with Cons.IH show ?case
    using release_one_entrusted [of env s i s1] by (metis entrusted_trans)
qed (simp add: untouched)

lemma sweep_all_entrusted:
  "sweep_all env s bs n = Inr (s', n') \<Longrightarrow> entrusted env (st_token s) (st_world s) (st_world s')"
proof (induction bs arbitrary: s n)
  case (Cons b bs)
  then obtain s1 n1 where "sweep_one env s b = Inr s1" "sweep_all env s1 bs n1 = Inr (s', n')"
    by (auto simp: bnd_Inr)
  with Cons.IH show ?case
    using sweep_one_entrusted [of env s b s1] by (metis entrusted_trans)
qed (simp add: untouched)

lemma refund_entrusted:
  assumes "refund env s b = Inr s'"
  shows "entrusted env (st_token s) (st_world s) (st_world s')"
proof -
  obtain e where e: "load_refundable_escrow s b = Inr e"
    using assms by (auto simp: refund_def bnd_Inr)
  obtain amt r full where "refund_terms e (st_refund_approvals s b) = (amt, r, full)"
    by (cases "refund_terms e (st_refund_approvals s b)") auto
  with assms e show ?thesis
    by (auto simp: refund_def bnd_Inr if_Inl_Inr execute_token_transfer_Inr token_transfer_Inr
        frame_simps Let_def intro: own_transfer)
qed

lemma fund_calls_entrusted:
  "lock_funds env s d b amt dl = Inr s' \<Longrightarrow> entrusted env (st_token s) (st_world s) (st_world s')"
  "release_funds env s b x = Inr s' \<Longrightarrow> entrusted env (st_token s) (st_world s) (st_world s')"
  "partial_release env s b x amt = Inr s' \<Longrightarrow>
   entrusted env (st_token s) (st_world s) (st_world s')"
  "claim env s b = Inr s' \<Longrightarrow> entrusted env (st_token s) (st_world s) (st_world s')"
  by (auto simp: lock_funds_def release_funds_def partial_release_def claim_def bnd_Inr if_Inl_Inr
      execute_token_transfer_Inr token_transfer_Inr require_auth_Inr counter_set_defs frame_simps
      Let_def split: if_splits intro: own_transfer consented_transfer)

lemma batch_calls_entrusted:
  "batch_lock_funds env s is = Inr (s', n) \<Longrightarrow>
   entrusted env (st_token s) (st_world s) (st_world s')"
  "batch_release_funds env s rs = Inr (s', n) \<Longrightarrow>
   entrusted env (st_token s) (st_world s) (st_world s')"
  "sweep_expired_refunds env s bs = Inr (s', n) \<Longrightarrow>
   entrusted env (st_token s) (st_world s) (st_world s')"
  by (auto simp: batch_lock_funds_def batch_release_funds_def sweep_expired_refunds_def bnd_Inr
      if_Inl_Inr auth_depositors_Inr frame_simps Let_def split: if_splits
      dest!: lock_all_entrusted release_all_entrusted sweep_all_entrusted)

lemma proposal_entrusted:
  "execute_governance_proposal env s p = Inr s' \<Longrightarrow>
   entrusted env (st_token s) (st_world s) (st_world s')"
  by (auto simp: execute_governance_proposal_def link_execute_governance_proposal_def res_simps
      split: option.splits if_splits)
    (metis entrusted_governance snd_conv)

lemma bounty_call_entrusted:
  assumes "exec env c s = Inr s'"
  shows "entrusted env (st_token s) (st_world s) (st_world s')"
proof (cases "paused_op c = None")
  case True
  then show ?thesis
    using unpaused_world [OF True assms] assms by (auto intro: untouched proposal_entrusted)
next
  case False
  then show ?thesis
    using assms by (cases c) (auto simp: drop_count_Inr refund_entrusted
      intro: fund_calls_entrusted batch_calls_entrusted)
qed

section \<open>The program escrow\<close>

abbreviation program_token :: "'w program \<Rightarrow> addr option" where
  "program_token s \<equiv> map_option pd_token_address (pr_data s)"

lemma chain_entrusted:
  "transfer_chain env t ps w = Some w' \<Longrightarrow> entrusted env (Some t) w w'"
proof (induction ps arbitrary: w)
  case (Cons p ps)
  then obtain w1 where "tk_transfer env t (current_contract_address env) (fst p) (snd p) w = Some w1"
      "transfer_chain env t ps w1 = Some w'"
    by (auto split: option.splits)
  with Cons.IH show ?case by (metis entrusted_trans own_transfer)
qed (simp add: untouched)

lemma lock_program_entrusted:
  assumes "lock_program_funds env s f amt = Inr (s', d')"
  shows "entrusted env (program_token s) (pr_world s) (pr_world s')"
  by (rule lock_program_fundsE [OF assms]) (simp add: consented_transfer)

lemma single_payout_entrusted:
  assumes "single_payout env s x amt = Inr (s', d')"
  shows "entrusted env (program_token s) (pr_world s) (pr_world s')"
  by (rule single_payoutE [OF assms]) (simp add: own_transfer payout_open_def)

lemma batch_payout_entrusted:
  assumes "batch_payout env s rs as = Inr (s', d')"
  shows "entrusted env (program_token s) (pr_world s) (pr_world s')"
  by (rule batch_payoutE [OF assms]) (simp add: chain_entrusted payout_open_def)

lemma trigger_entrusted:
  assumes "trigger_program_releases env s = Inr (s', n)"
  shows "entrusted env (program_token s) (pr_world s) (pr_world s')"
  by (rule triggerE [OF assms])
    (auto simp: chain_entrusted trigger_open_def triggered_state_def)

lemma release_entrusted:
  assumes "release_open env s d c"
    and "release_schedule_of env kind who d before c rest (pr_set_entered s) = Inr s'"
  shows "entrusted env (program_token s) (pr_world s) (pr_world s')"
proof -
  have open_: "\<not> pr_guard s" "pr_data s = Some d" using assms(1) by (simp_all add: release_open_def)
  show ?thesis
    by (rule release_schedule_ofE [OF assms(2) open_(1)])
      (simp add: own_transfer released_state_def open_(2))
qed

lemma pr_proposal_entrusted:
  "pr_execute_governance_proposal env s p = Inr s' \<Longrightarrow>
   entrusted env tok (pr_world s) (pr_world s')"
  by (auto simp: pr_execute_governance_proposal_def pg_execute_governance_proposal_def res_simps
      split: option.splits if_splits)
    (metis entrusted_governance snd_conv)

lemma initialize_world:
  "initialize_program env s i k t = Inr (s', d) \<Longrightarrow> pr_world s' = pr_world s"
  by (auto simp: initialize_program_def Let_def split: if_splits)

lemma reported_world: "reported s s' \<Longrightarrow> pr_world s' = pr_world s"
  unfolding reported_def by (cases s; cases s') auto

lemma init_world:
  assumes "init_program env s i k t = Inr (s', d)"
  shows "pr_world s' = pr_world s"
proof -
  obtain s1 s2 where s1: "initialize_program env s i k t = Inr (s1, d)"
    and s2: "pr_track env ''init'' k True s1 = Inr s2"
    and s3: "pr_perf env ''init'' (timestamp env - timestamp env) s2 = Inr s'"
    using assms by (auto simp: init_program_def Let_def bnd_Inr)
  show ?thesis
    using initialize_world [OF s1] reported_world [OF pr_track_reported [OF s2]]
      reported_world [OF pr_perf_reported [OF s3]] by simp
qed

lemma create_world:
  assumes "create_program_release_schedule env s amt tm x = Inr (s', c)"
  shows "pr_world s' = pr_world s"
  by (rule create_scheduleE [OF assms]) simp

lemma program_call_entrusted:
  assumes "program_exec env c s = Inr s'"
  shows "entrusted env (program_token s) (pr_world s) (pr_world s')"
proof (cases "touches_pool c")
  case True
  have "program_exec env (base_call c) s = Inr s'" by (rule exec_base_call [OF assms])
  then show ?thesis
    using True
    by (cases c)
      (auto simp: only_state_Inr initialize_world init_world create_world untouched
        dest: lock_program_entrusted single_payout_entrusted batch_payout_entrusted
          trigger_entrusted pr_proposal_entrusted [where tok = "program_token s"]
        elim!: release_manualE release_automaticE intro: release_entrusted)
next
  case False
  then show ?thesis
    using settings_funds_same [OF assms] by (simp add: funds_same_def untouched)
qed

section \<open>Nobody pays without consent\<close>

text \<open>
  C8: Nobody pays without consent. In a call of either escrow that returns, an account that is
  not the contract's own and that has not authorised the call keeps at least the balance it
  had in the contract's token, provided that executing a governance proposal takes nothing of
  it.
\<close>

theorem nobody_pays_without_consent:
  assumes "\<forall>t. sep41 env t" and "gov_spares env x"
    and "x \<noteq> current_contract_address env" and "\<not> authorized env x"
  shows "(exec env c s = Inr s' \<and> st_token s = Some t \<longrightarrow>
      balance_of env t x (st_world s) \<le> balance_of env t x (st_world s')) \<and>
    (program_exec env pc p = Inr p' \<and> pr_data p = Some d \<longrightarrow>
      balance_of env (pd_token_address d) x (pr_world p)
        \<le> balance_of env (pd_token_address d) x (pr_world p'))"
  using bounty_call_entrusted [of env c s s'] program_call_entrusted [of env pc p p']
    entrusted_spares [OF _ assms] by auto

lemma gov_spares_sample [simp]: "gov_spares (sample_env now ss) x"
  by (simp add: gov_spares_def)

lemma takes_from_sender_sample [simp]: "takes_from_sender (sample_env now ss)"
  by (auto simp: takes_from_sender_def ledger_transfer_def Let_def split: if_splits)

lemma nobody_pays_without_consent_witness:
  "\<exists>s' p'. exec (sample_env 130 [1]) (Partial_release 71 5 40) (after paid_in_parts) = Inr s' \<and>
     st_world (after paid_in_parts) 3 \<le> st_world s' 3 \<and>
     program_exec (sample_env 250 [3]) Trigger_releases (p_after planned) = Inr p' \<and>
     pr_world (p_after planned) 2 \<le> pr_world p' 2"
proof -
  obtain s' where s': "exec (sample_env 130 [1]) (Partial_release 71 5 40) (after paid_in_parts)
      = Inr s'" and tok: "st_token (after paid_in_parts) = Some 9"
    by (simp add: after_def paid_in_parts_def two_locks_def eval_defs)
  obtain p' where p': "program_exec (sample_env 250 [3]) Trigger_releases (p_after planned) = Inr p'"
    using planned_triggers by (auto simp: only_state_def)
  obtain d where d: "pr_data (p_after planned) = Some d"
    by (simp add: p_after_def planned_def funded_def program_eval)
  have "st_world (after paid_in_parts) 3 \<le> st_world s' 3"
    using nobody_pays_without_consent [of "sample_env 130 [1]" 3 "Partial_release 71 5 40"
        "after paid_in_parts" s' 9] s' tok by simp
  moreover have "pr_world (p_after planned) 2 \<le> pr_world p' 2"
    using nobody_pays_without_consent [of "sample_env 250 [3]" 2 _ _ _ _ Trigger_releases
        "p_after planned" p' d] p' d by simp
  ultimately show ?thesis using s' p' by blast
qed

end
