(* ===== verification/Ecosystem.thy ===== *)
theory Ecosystem
  imports Consent ProgramLink
begin

text \<open>
  The contracts together: a core contract, a bounty escrow and a program escrow on one ledger
  of tokens. The governance calls of the escrows to the address of the core contract are
  answered by the core contract itself, those to other addresses by any contract. What the
  theories of the single contracts assume of their surroundings is proved here: to each
  escrow, the calls of the others are harmless changes of its outside world.
\<close>

section \<open>A deployment\<close>

record deployment =
  dp_core :: addr
  dp_bounty :: addr
  dp_program :: addr

text \<open>
  What the contract at address \<open>me\<close> sees of its host: the tokens of the environment \<open>e\<close> on the
  second part of the world, and at the core's address the entrypoints of grainlify-core on
  the first. An escrow can be linked to any other contract too: at every other address the
  governance calls are answered by whatever contract \<open>e\<close> has there, arbitrary code with its
  state in the second part of the world. When such a contract calls the core in its turn,
  this is a call of the core of its own.
\<close>

definition site :: "deployment \<Rightarrow> addr \<Rightarrow> 'l env \<Rightarrow> (core \<times> 'l) env" where
  "site D me e =
     \<lparr>timestamp = timestamp e, current_contract_address = me, authorized = authorized e,
      reauthorized = reauthorized e, wasm_uploaded = wasm_uploaded e,
      tk_transfer = (\<lambda>t f r a w. map_option (Pair (fst w)) (tk_transfer e t f r a (snd w))),
      tk_balance = (\<lambda>t x w. tk_balance e t x (snd w)),
      gv_get_ver = (\<lambda>g w.
        if g = dp_core D then Some (get_ver (fst w)) else gv_get_ver e g (snd w)),
      gv_get_version_numeric_encoded = (\<lambda>g w.
        if g = dp_core D then Some (get_version_numeric_encoded (fst w))
        else gv_get_version_numeric_encoded e g (snd w)),
      gv_is_upg_ok = (\<lambda>g h w.
        if g = dp_core D then Some (is_upg_ok e (fst w) h) else gv_is_upg_ok e g h (snd w)),
      gv_is_vetoed = (\<lambda>g p w.
        if g = dp_core D then Some (is_vetoed (fst w) p) else gv_is_vetoed e g p (snd w)),
      gv_execute_proposal = (\<lambda>g p w.
        if g = dp_core D
        then case execute_proposal e (fst w) p of
               Inl _ \<Rightarrow> (False, w) | Inr c \<Rightarrow> (True, c, snd w)
        else map_prod id (Pair (fst w)) (gv_execute_proposal e g p (snd w)))\<rparr>"

lemma site_simps [simp]:
  "timestamp (site D me e) = timestamp e"
  "current_contract_address (site D me e) = me"
  "authorized (site D me e) = authorized e"
  "wasm_uploaded (site D me e) = wasm_uploaded e"
  "tk_transfer (site D me e) t f r a w =
     map_option (Pair (fst w)) (tk_transfer e t f r a (snd w))"
  "tk_balance (site D me e) t x w = tk_balance e t x (snd w)"
  by (simp_all add: site_def)

lemma site_governance:
  "gv_is_upg_ok (site D me e) g h w =
     (if g = dp_core D then Some (is_upg_ok e (fst w) h) else gv_is_upg_ok e g h (snd w))"
  "gv_get_ver (site D me e) g w =
     (if g = dp_core D then Some (get_ver (fst w)) else gv_get_ver e g (snd w))"
  "gv_is_vetoed (site D me e) g p w =
     (if g = dp_core D then Some (is_vetoed (fst w) p) else gv_is_vetoed e g p (snd w))"
  "gv_execute_proposal (site D me e) g p w =
     (if g = dp_core D
      then case execute_proposal e (fst w) p of Inl _ \<Rightarrow> (False, w) | Inr c \<Rightarrow> (True, c, snd w)
      else map_prod id (Pair (fst w)) (gv_execute_proposal e g p (snd w)))"
  by (simp_all add: site_def)

lemma balance_site [simp]: "balance_of (site D me e) t x w = balance_of e t x (snd w)"
  by (simp add: balance_of_def)

section \<open>Calls and steps\<close>

text \<open>The escrows keep a copy of the world in their states; \<open>ec_world\<close> is the one they share.\<close>

record 'l eco =
  ec_world :: "core \<times> 'l"
  ec_bounty :: "(core \<times> 'l) state"
  ec_program :: "(core \<times> 'l) program"

definition bounty_view :: "'l eco \<Rightarrow> (core \<times> 'l) state" where
  "bounty_view k = (ec_bounty k)\<lparr>st_world := ec_world k\<rparr>"

definition program_view :: "'l eco \<Rightarrow> (core \<times> 'l) program" where
  "program_view k = (ec_program k)\<lparr>pr_world := ec_world k\<rparr>"

datatype eco_call = On_bounty call | On_program program_call | On_core core_call

fun eco_exec :: "deployment \<Rightarrow> 'l env \<Rightarrow> eco_call \<Rightarrow> 'l eco \<Rightarrow> 'l eco option" where
  "eco_exec D e (On_bounty c) k =
     (case exec (site D (dp_bounty D) e) c (bounty_view k) of
        Inl _ \<Rightarrow> None
      | Inr s \<Rightarrow> Some (k\<lparr>ec_world := st_world s, ec_bounty := s\<rparr>))"
| "eco_exec D e (On_program c) k =
     (case program_exec (site D (dp_program D) e) c (program_view k) of
        Inl _ \<Rightarrow> None
      | Inr s \<Rightarrow> Some (k\<lparr>ec_world := pr_world s, ec_program := s\<rparr>))"
| "eco_exec D e (On_core c) k =
     (case core_exec e (snd (ec_world k)) c (fst (ec_world k)) of
        Inl _ \<Rightarrow> None
      | Inr c' \<Rightarrow> Some (k\<lparr>ec_world := (c', snd (ec_world k))\<rparr>))"

text \<open>
  What is left to assume: the tokens keep to their interface and take from the sender only,
  other governance contracts take nothing of the escrows when they execute a proposal, and
  nobody signs for an escrow. \<open>P\<close> restricts the calls of the bounty escrow.
\<close>

definition sound_outside :: "deployment \<Rightarrow> 'l env \<Rightarrow> 'l env \<Rightarrow> bool" where
  "sound_outside D E e \<longleftrightarrow> tk_balance e = tk_balance E \<and> (\<forall>t. sep41 e t) \<and>
     takes_from_sender e \<and> (\<forall>t x w. 0 \<le> balance_of e t x w) \<and>
     gov_spares e (dp_bounty D) \<and> gov_spares e (dp_program D)"

datatype 'l eco_label = Eco_invoke "'l env" eco_call | Eco_outside 'l

inductive eco_step ::
    "deployment \<Rightarrow> 'l env \<Rightarrow> ((core \<times> 'l) state \<Rightarrow> call \<Rightarrow> bool)
      \<Rightarrow> 'l eco \<Rightarrow> 'l eco_label \<Rightarrow> 'l eco \<Rightarrow> bool"
  for D E P where
  eco_invoke: "sound_outside D E e \<Longrightarrow>
    \<not> authorized e (dp_bounty D) \<Longrightarrow> \<not> authorized e (dp_program D) \<Longrightarrow>
    (\<And>b. c = On_bounty b \<Longrightarrow> P (bounty_view k) b) \<Longrightarrow> eco_exec D e c k = Some k' \<Longrightarrow>
    eco_step D E P k (Eco_invoke e c) k'"
| eco_outside: "(\<And>t. balance_of E t (dp_bounty D) (snd (ec_world k))
      \<le> balance_of E t (dp_bounty D) l) \<Longrightarrow>
    (\<And>t. balance_of E t (dp_program D) (snd (ec_world k)) \<le> balance_of E t (dp_program D) l) \<Longrightarrow>
    eco_step D E P k (Eco_outside l) (k\<lparr>ec_world := (fst (ec_world k), l)\<rparr>)"

definition eco_initial :: "deployment \<Rightarrow> 'l eco \<Rightarrow> bool" where
  "eco_initial D k \<longleftrightarrow> dp_bounty D \<noteq> dp_program D \<and> fst (ec_world k) = initial_core \<and>
     ec_bounty k = initial_state (ec_world k) \<and> ec_program k = initial_program (ec_world k)"

abbreviation eco_reachable :: "deployment \<Rightarrow> 'l env \<Rightarrow> 'l eco \<Rightarrow> bool" where
  "eco_reachable D E \<equiv> reach (eco_initial D) (eco_step D E (\<lambda>_ _. True))"

abbreviation eco_clean :: "deployment \<Rightarrow> 'l env \<Rightarrow> 'l eco \<Rightarrow> bool" where
  "eco_clean D E \<equiv> reach (eco_initial D) (eco_step D E clean_call)"

section \<open>Reachability by calls\<close>

lemma reachable_call:
  "reachable E s \<Longrightarrow> valid_env E env \<Longrightarrow> exec env c s = Inr s' \<Longrightarrow> reachable E s'"
  by (erule reach_step [where step = "step E"]) (rule step.invoke)

lemma program_reachable_call:
  "program_reachable E s \<Longrightarrow> valid_env E env \<Longrightarrow> program_exec env c s = Inr s' \<Longrightarrow>
   program_reachable E s'"
  by (erule reach_step [where step = "program_step E"]) (rule program_step.pr_invoke)

lemma core_reachable_call:
  "core_reachable TYPE('l) s \<Longrightarrow> core_exec e (w :: 'l) c s = Inr s' \<Longrightarrow> core_reachable TYPE('l) s'"
  by (erule reach_step [where step = core_step]) (rule core_step.core_invoke)

section \<open>What a call does to the others\<close>

lemma site_sep41:
  assumes "sep41 e t"
  shows "sep41 (site D me e) t"
  using assms unfolding sep41_def by (auto simp del: split_paired_All)

lemma site_gov_spares:
  assumes "gov_spares e x"
  shows "gov_spares (site D me e) x"
  using assms by (auto simp: gov_spares_def site_governance split: sum.splits)

lemma site_takes_from_sender:
  "takes_from_sender e \<Longrightarrow> takes_from_sender (site D me e)"
  unfolding takes_from_sender_def by (auto simp del: split_paired_All)

lemma site_valid:
  assumes "sound_outside D E e" and "\<not> authorized e me"
    and "me = dp_bounty D \<or> me = dp_program D"
  shows "valid_env (site D me E) (site D me e)"
proof -
  have "tk_balance (site D me e) = tk_balance (site D me E)"
    using assms(1) by (simp add: fun_eq_iff sound_outside_def)
  moreover have "gov_spares e me" using assms(1,3) by (auto simp: sound_outside_def)
  from site_gov_spares [OF this, of D me] have "gov_harmless (site D me e) t" for t
    by (simp add: gov_harmless_def gov_spares_def)
  ultimately show ?thesis
    using assms(1,2) by (simp add: valid_env_def sound_outside_def site_sep41)
qed

lemma site_spares:
  assumes "entrusted (site D me e) tok w w'" and "sound_outside D E e" and "x \<noteq> me"
    and "\<not> authorized e x" and "x = dp_bounty D \<or> x = dp_program D"
  shows "balance_of E t x (snd w) \<le> balance_of E t x (snd w')"
proof -
  have "balance_of (site D me e) t x w \<le> balance_of (site D me e) t x w'"
    by (rule entrusted_spares [OF assms(1) _ site_gov_spares])
      (use assms(2-5) in \<open>auto simp: sound_outside_def site_sep41 site_takes_from_sender\<close>)
  moreover have "balance_of e t x l = balance_of E t x l" for l
    using assms(2) by (simp add: balance_of_def sound_outside_def)
  ultimately show ?thesis by simp
qed

text \<open>An escrow touches the core contract only by executing a proposal, a call of its own.\<close>

lemma entrusted_core:
  assumes "entrusted (site D me e) tok w w'"
    and "core_reachable TYPE('l) (fst (w :: core \<times> 'l))"
  shows "core_reachable TYPE('l) (fst w')"
  using assms
proof (induction rule: entrusted.induct)
  case (governed w w1 g p)
  show ?case
  proof (cases "g = dp_core D \<and> is_ok (execute_proposal e (fst w1) p)")
    case True
    then obtain c where c: "execute_proposal e (fst w1) p = Inr c"
      by (auto simp: is_ok_def split: sum.splits)
    then have "core_exec e (snd w1) (Execute_proposal p) (fst w1) = Inr c" by simp
    then have "core_reachable TYPE('l) c"
      by (rule core_reachable_call [OF governed.IH [OF governed.prems]])
    then show ?thesis using True c by (simp add: site_governance)
  next
    case False
    then show ?thesis using governed by (auto simp: site_governance is_ok_def split: sum.splits)
  qed
qed auto

section \<open>Every contract runs in its own system\<close>

lemma view_simps [simp]:
  "st_world (bounty_view k) = ec_world k" "pr_world (program_view k) = ec_world k"
  by (simp_all add: bounty_view_def program_view_def)

lemma program_outside:
  assumes "program_reachable (site D me E) p"
    and "\<And>t. balance_of E t me (snd (pr_world p)) \<le> balance_of E t me (snd w)"
  shows "program_reachable (site D me E) (p\<lparr>pr_world := w\<rparr>)"
  by (rule reach_step [OF assms(1) program_step.pr_outside])
    (use assms(2) in \<open>auto simp: pr_held_def split: option.split\<close>)

lemma held_outside:
  "(\<And>t. balance_of E t me (snd (st_world s)) \<le> balance_of E t me (snd w)) \<Longrightarrow>
   held (site D me E) s \<le> held (site D me E) (s\<lparr>st_world := w\<rparr>)"
  by (auto simp: held_def split: option.split)

lemma bounty_outside:
  assumes "reachable (site D me E) s"
    and "\<And>t. balance_of E t me (snd (st_world s)) \<le> balance_of E t me (snd w)"
  shows "reachable (site D me E) (s\<lparr>st_world := w\<rparr>)"
  using reach_step [OF assms(1) step.outside [OF held_outside]] assms(2) by blast

lemma bounty_outside_clean:
  assumes "clean_reach (site D me E) s"
    and "\<And>t. balance_of E t me (snd (st_world s)) \<le> balance_of E t me (snd w)"
  shows "clean_reach (site D me E) (s\<lparr>st_world := w\<rparr>)"
  using clean_outside [OF assms(1) held_outside] assms(2) by blast

text \<open>The world a call leaves, and the views of the others after it.\<close>

lemma view_upd [simp]:
  "bounty_view (k\<lparr>ec_world := w\<rparr>) = (bounty_view k)\<lparr>st_world := w\<rparr>"
  "program_view (k\<lparr>ec_world := w\<rparr>) = (program_view k)\<lparr>pr_world := w\<rparr>"
  "bounty_view (k\<lparr>ec_world := st_world s, ec_bounty := s\<rparr>) = s"
  "program_view (k\<lparr>ec_world := w, ec_bounty := s\<rparr>) = (program_view k)\<lparr>pr_world := w\<rparr>"
  "program_view (k\<lparr>ec_world := pr_world p, ec_program := p\<rparr>) = p"
  "bounty_view (k\<lparr>ec_world := w, ec_program := p\<rparr>) = (bounty_view k)\<lparr>st_world := w\<rparr>"
  by (simp_all add: bounty_view_def program_view_def)

definition in_own_systems :: "deployment \<Rightarrow> 'l env \<Rightarrow> 'l eco \<Rightarrow> bool" where
  "in_own_systems D E k \<longleftrightarrow> dp_bounty D \<noteq> dp_program D \<and>
     reachable (site D (dp_bounty D) E) (bounty_view k) \<and>
     program_reachable (site D (dp_program D) E) (program_view k) \<and>
     core_reachable TYPE('l) (fst (ec_world k))"

lemma in_own_systems_init: "eco_initial D k \<Longrightarrow> in_own_systems D E k"
  by (auto simp: eco_initial_def in_own_systems_def bounty_view_def program_view_def
      is_initial_def program_initial_def initial_state_def initial_program_def intro!: reach_init)

lemma bounty_call_own:
  assumes "exec (site D (dp_bounty D) e) c (bounty_view k) = Inr s" and "sound_outside D E e"
    and "\<not> authorized e (dp_bounty D)" and "\<not> authorized e (dp_program D)"
    and "in_own_systems D E k"
  shows "in_own_systems D E (k\<lparr>ec_world := st_world s, ec_bounty := s\<rparr>)"
proof -
  have ent: "entrusted (site D (dp_bounty D) e) (st_token (bounty_view k)) (ec_world k)
      (st_world s)"
    using bounty_call_entrusted [OF assms(1)] by simp
  have "reachable (site D (dp_bounty D) E) s"
    by (rule reachable_call [OF _ site_valid [OF assms(2,3)] assms(1)])
      (use assms(5) in \<open>simp_all add: in_own_systems_def\<close>)
  moreover have "program_reachable (site D (dp_program D) E)
      ((program_view k)\<lparr>pr_world := st_world s\<rparr>)"
    by (rule program_outside)
      (use assms(5) site_spares [OF ent assms(2) _ assms(4)] in \<open>auto simp: in_own_systems_def\<close>)
  ultimately show ?thesis
    using assms(5) entrusted_core [OF ent] by (simp add: in_own_systems_def)
qed

lemma program_call_own:
  assumes "program_exec (site D (dp_program D) e) c (program_view k) = Inr s"
    and "sound_outside D E e"
    and "\<not> authorized e (dp_bounty D)" and "\<not> authorized e (dp_program D)"
    and "in_own_systems D E k"
  shows "in_own_systems D E (k\<lparr>ec_world := pr_world s, ec_program := s\<rparr>)"
proof -
  have ent: "entrusted (site D (dp_program D) e) (program_token (program_view k)) (ec_world k)
      (pr_world s)"
    using program_call_entrusted [OF assms(1)] by simp
  have "program_reachable (site D (dp_program D) E) s"
    by (rule program_reachable_call [OF _ site_valid [OF assms(2,4)] assms(1)])
      (use assms(5) in \<open>simp_all add: in_own_systems_def\<close>)
  moreover have "reachable (site D (dp_bounty D) E) ((bounty_view k)\<lparr>st_world := pr_world s\<rparr>)"
    by (rule bounty_outside)
      (use assms(5) site_spares [OF ent assms(2) _ assms(3)] in \<open>auto simp: in_own_systems_def\<close>)
  ultimately show ?thesis
    using assms(5) entrusted_core [OF ent] by (simp add: in_own_systems_def)
qed

lemma core_call_own:
  assumes "core_exec e (snd (ec_world k)) c (fst (ec_world k)) = Inr c'"
    and "in_own_systems D (E :: 'l env) k"
  shows "in_own_systems D E (k\<lparr>ec_world := (c', snd (ec_world k))\<rparr>)"
  using assms(2) bounty_outside [of D "dp_bounty D" E "bounty_view k" "(c', snd (ec_world k))"]
    program_outside [of D "dp_program D" E "program_view k" "(c', snd (ec_world k))"]
    core_reachable_call [OF _ assms(1)]
  by (simp add: in_own_systems_def)

lemma outside_own:
  assumes "\<And>t. balance_of E t (dp_bounty D) (snd (ec_world k)) \<le> balance_of E t (dp_bounty D) l"
    and "\<And>t. balance_of E t (dp_program D) (snd (ec_world k)) \<le> balance_of E t (dp_program D) l"
    and "in_own_systems D E k"
  shows "in_own_systems D E (k\<lparr>ec_world := (fst (ec_world k), l)\<rparr>)"
  using assms bounty_outside [of D "dp_bounty D" E "bounty_view k" "(fst (ec_world k), l)"]
    program_outside [of D "dp_program D" E "program_view k" "(fst (ec_world k), l)"]
  by (simp add: in_own_systems_def)

lemma in_own_systems_step:
  assumes "eco_step D E P k l k'" and "in_own_systems D E k"
  shows "in_own_systems D E k'"
  using assms
proof (induction rule: eco_step.induct)
  case (eco_invoke e c k k')
  then show ?case
    by (cases c)
      (auto split: sum.splits dest: bounty_call_own program_call_own core_call_own)
next
  case (eco_outside k l)
  then show ?case by (intro outside_own)
qed

interpretation eco_inv: invariant_system "eco_initial D" "eco_step D E P" "in_own_systems D E"
  by unfold_locales (erule in_own_systems_init, erule (1) in_own_systems_step [rotated])

end
