(* ===== verification/EcosystemProps.thy ===== *)
theory EcosystemProps
  imports Ecosystem BountyScan
begin

text \<open>
  What holds of the contracts together: each of them runs in its own system, so its invariants
  hold beside the others; both escrows stay covered on the one ledger; and their code changes
  only with the approval of the governance contract they are linked to, by its votes when that
  is the core contract. A sample run takes all three contracts from their deployment to an
  upgrade.
\<close>

section \<open>A sample run\<close>

primrec eco_run :: "deployment \<Rightarrow> ('l env \<times> eco_call) list \<Rightarrow> 'l eco \<Rightarrow> 'l eco option" where
  "eco_run D [] k = Some k"
| "eco_run D (x # xs) k =
     (case eco_exec D (fst x) (snd x) k of None \<Rightarrow> None | Some k' \<Rightarrow> eco_run D xs k')"

definition fit :: "deployment \<Rightarrow> 'l env \<Rightarrow> ('l env \<times> eco_call) \<Rightarrow> bool" where
  "fit D E x \<longleftrightarrow> sound_outside D E (fst x) \<and> \<not> authorized (fst x) (dp_bounty D) \<and>
     \<not> authorized (fst x) (dp_program D) \<and>
     (\<forall>b s. snd x = On_bounty b \<longrightarrow> clean_call (s :: (core \<times> 'l) state) b)"

lemma eco_run_clean:
  "eco_run D xs k = Some k' \<Longrightarrow> list_all (fit D E) xs \<Longrightarrow> eco_clean D E k \<Longrightarrow> eco_clean D E k'"
proof (induction xs arbitrary: k)
  case (Cons x xs)
  then obtain k1 where k1: "eco_exec D (fst x) (snd x) k = Some k1" "eco_run D xs k1 = Some k'"
    by (auto split: option.splits)
  have "eco_step D E clean_call k (Eco_invoke (fst x) (snd x)) k1"
    by (rule eco_step.eco_invoke) (use Cons.prems(2) k1(1) in \<open>auto simp: fit_def\<close>)
  then have "eco_clean D E k1"
    using Cons.prems(3) reach_step [where step = "eco_step D E clean_call"] by blast
  then show ?case using Cons.IH [OF k1(2)] Cons.prems(2) by simp
qed simp

text \<open>The bounty escrow is account 0, the program escrow 60, the core contract 50.\<close>

definition site_plan :: deployment where
  "site_plan = \<lparr>dp_core = 50, dp_bounty = 0, dp_program = 60\<rparr>"

definition eco_start :: "ledger eco" where
  "eco_start = (let w = (initial_core, \<lambda>a. if a = 0 \<or> a = 60 then 0 else 1000) in
     \<lparr>ec_world = w, ec_bounty = initial_state w, ec_program = initial_program w\<rparr>)"

definition founding :: "(ledger env \<times> eco_call) list" where
  "founding =
     [(sample_env 5 [1], On_bounty (Init 1 9)),
      (sample_env 5 [1], On_bounty (Set_governance_contract 50)),
      (sample_env 6 [1], On_program (Initialize_contract 1)),
      (sample_env 6 [], On_program (Init_program ''p'' 3 9)),
      (sample_env 6 [1], On_program (P_set_governance_contract 50)),
      (sample_env 7 [2], On_bounty (Lock_funds 2 71 100 500)),
      (sample_env 8 [2], On_program (Lock_program_funds 2 200))]"

definition voting :: "(ledger env \<times> eco_call) list" where
  "voting =
     [(sample_env 10 [1], On_core (Init_governance 1 open_vote)),
      (sample_env 20 [2], On_core (Create_proposal 2 77 ''up'')),
      (sample_env 30 [3], On_core (Cast_vote 3 0 For)),
      (sample_env 121 [], On_core (Finalize_proposal 0)),
      (sample_env 170 [], On_bounty (Execute_governance_proposal 0))]"

lemmas eco_eval = eco_start_def site_plan_def bounty_view_def program_view_def
  set_governance_contract_def link_set_governance_contract_def pr_set_governance_contract_def
  pg_set_governance_contract_def admin_auth_def execute_governance_proposal_def
  link_execute_governance_proposal_def check_proposal_vetoed_def link_get_min_governance_version_def
  is_vetoed_def get_proposal_status_def site_def eval_defs program_eval core_eval_defs open_vote_def

lemma wasm_sample [simp]: "wasm_uploaded (sample_env now who) h"
  by (simp add: sample_env_def)

lemma sample_sound [simp]: "sound_outside D (sample_env 0 []) (sample_env now who)"
  by (simp add: sound_outside_def) (simp add: sample_env_def)

lemma eco_start_clean: "eco_clean site_plan (sample_env 0 []) eco_start"
  by (rule reach_init) (simp add: eco_initial_def eco_start_def site_plan_def Let_def)

lemma founding_fit: "list_all (fit site_plan (sample_env 0 [])) (founding @ voting)"
  by (simp add: founding_def voting_def fit_def site_plan_def)

lemma voted_run:
  obtains k k' where "eco_run site_plan (founding @ voting) eco_start = Some k"
    and "eco_exec site_plan (sample_env 170 [1]) (On_bounty (call.Upgrade 77)) k = Some k'"
    and "st_wasm (bounty_view k) = None" and "st_wasm (bounty_view k') = Some 77"
    and "get_governance_contract (bounty_view k) = Some 50"
    and "st_token (bounty_view k) = Some 9" and "escrow_index (bounty_view k) = [71]"
    and "\<exists>d. pr_data (program_view k) = Some d \<and> pd_token_address d = 9 \<and>
      pd_remaining_balance d = 200"
  by (simp add: founding_def voting_def eco_eval upgrade_def get_governance_contract_def
     check_upgrade_approval_def is_upg_ok_def is_upgrade_approved_def
        approval_loop.simps approves_def)

section \<open>Clean runs\<close>

lemma clean_init_own: "eco_initial D k \<Longrightarrow> clean_reach (site D (dp_bounty D) E) (bounty_view k)"
  by (rule clean_init) (auto simp: eco_initial_def is_initial_def bounty_view_def initial_state_def)

lemma clean_step_own:
  assumes "eco_step D E clean_call k l k'" and "in_own_systems D E k"
    and "clean_reach (site D (dp_bounty D) E) (bounty_view k)"
  shows "clean_reach (site D (dp_bounty D) E) (bounty_view k')"
  using assms
proof (induction rule: eco_step.induct)
  case (eco_invoke e c k k')
  show ?case
  proof (cases c)
    case (On_bounty b)
    then obtain s where s: "exec (site D (dp_bounty D) e) b (bounty_view k) = Inr s"
      and k': "k' = k\<lparr>ec_world := st_world s, ec_bounty := s\<rparr>"
      using eco_invoke.hyps(5) by (auto split: sum.splits)
    show ?thesis
      using clean_invoke [OF eco_invoke.prems(2) site_valid [OF eco_invoke.hyps(1,2)]
          eco_invoke.hyps(4) [OF On_bounty] s]
      by (simp add: k')
  next
    case (On_program c')
    then obtain s where s: "program_exec (site D (dp_program D) e) c' (program_view k) = Inr s"
      and k': "k' = k\<lparr>ec_world := pr_world s, ec_program := s\<rparr>"
      using eco_invoke.hyps(5) by (auto split: sum.splits)
    have "entrusted (site D (dp_program D) e) (program_token (program_view k)) (ec_world k)
        (pr_world s)"
      using program_call_entrusted [OF s] by simp
    from site_spares [OF this eco_invoke.hyps(1) _ eco_invoke.hyps(2)]
    show ?thesis
      using eco_invoke.prems by (simp add: k' bounty_outside_clean in_own_systems_def)
  next
    case (On_core c')
    then show ?thesis
      using eco_invoke.hyps(5) eco_invoke.prems(2)
      by (auto split: sum.splits simp: bounty_outside_clean)
  qed
next
  case (eco_outside k l)
  then show ?case by (simp add: bounty_outside_clean)
qed

interpretation clean_inv: relative_invariant "eco_initial D" "eco_step D E clean_call"
    "in_own_systems D E" "\<lambda>k. clean_reach (site D (dp_bounty D) E) (bounty_view k)"
  by unfold_locales (erule clean_init_own, erule (2) clean_step_own [rotated 2])

section \<open>Code changes\<close>











section \<open>Properties\<close>

text \<open>
  C5: beside the others every contract runs in its own system. In every reachable state of the
  ecosystem the bounty escrow is in a reachable state of its own transition system, so is the
  program escrow, and so is the core contract: what is assumed there of the world outside
  (nobody else takes an escrow's tokens, governance does no harm, the core changes by its own
  calls) is what the other contracts do here. Of the tokens it is assumed that they keep to
  their interface, and of a governance contract other than the core, to which an escrow may be
  linked, that it takes nothing of the escrows when it executes a proposal.
\<close>

theorem each_in_its_own_system:
  assumes "eco_reachable D E k"
  shows "reachable (site D (dp_bounty D) E) (bounty_view k) \<and>
    program_reachable (site D (dp_program D) E) (program_view k) \<and>
    core_reachable TYPE('l) (fst (ec_world (k :: 'l eco)))"
  using eco_inv.reach_inv [OF assms] by (simp add: in_own_systems_def)

text \<open>
  C6: on one ledger both escrows stay covered. In a run in which the bounty escrow makes clean
  calls, the program escrow and the core contract any calls, and others move their own tokens,
  the bounty escrow holds what remains of its bounties and the program escrow what remains of
  its pool, whatever governance contract the escrows are linked to as long as it takes nothing
  of them.
\<close>

theorem escrows_solvent_together:
  assumes "eco_clean D E k" and "st_token (bounty_view k) = Some t"
    and "pr_data (program_view k) = Some d"
  shows "sum_over remaining_amount (st_escrows (bounty_view k)) (escrow_index (bounty_view k))
      \<le> balance_of E t (dp_bounty D) (snd (ec_world k)) \<and>
    pd_remaining_balance d \<le> balance_of E (pd_token_address d) (dp_program D) (snd (ec_world k))"
  using clean_reach_ok(1) [OF clean_inv.reach_rel [OF assms(1)]]
    reachable_pool_ok [of "site D (dp_program D) E" "program_view k"]
    eco_inv.reach_inv [OF assms(1)] assms(2,3)
  by (simp add: solvent_def held_def in_own_systems_def pool_ok_def pool_of_Some [OF assms(3)])


text \<open>The sample run, one state before and one after the upgrade.\<close>

lemma voted_run_clean:
  assumes "eco_run site_plan (founding @ voting) eco_start = Some k"
  shows "eco_clean site_plan (sample_env 0 []) k"
  by (rule eco_run_clean [OF assms founding_fit eco_start_clean])

lemma eco_clean_reachable: "eco_clean D E k \<Longrightarrow> eco_reachable D E k"
proof (induction rule: reach.induct)
  case (reach_step k l k')
  have "eco_step D E (\<lambda>_ _. True) k l k'"
    using reach_step.hyps(2) by (cases rule: eco_step.cases) (auto intro: eco_step.intros)
  then show ?case by (rule reach.reach_step [OF reach_step.IH])
qed (rule reach.reach_init)

lemma each_in_its_own_system_witness:
  "\<exists>k. eco_run site_plan (founding @ voting) eco_start = Some k \<and>
     reachable (site site_plan 0 (sample_env 0 [])) (bounty_view k) \<and>
     program_reachable (site site_plan 60 (sample_env 0 [])) (program_view k)"
proof (rule voted_run)
  fix k assume k: "eco_run site_plan (founding @ voting) eco_start = Some k"
  show ?thesis
    using each_in_its_own_system [OF eco_clean_reachable [OF voted_run_clean [OF k]]] k
    by (auto simp: site_plan_def)
qed

lemma escrows_solvent_together_witness:
  "\<exists>k. eco_run site_plan (founding @ voting) eco_start = Some k \<and>
     (200 :: int) \<le> balance_of (sample_env 0 []) 9 60 (snd (ec_world k))"
proof (rule voted_run)
  fix k assume k: "eco_run site_plan (founding @ voting) eco_start = Some k"
    and t: "st_token (bounty_view k) = Some 9"
    and "\<exists>d. pr_data (program_view k) = Some d \<and> pd_token_address d = 9 \<and>
      pd_remaining_balance d = 200"
  then obtain d where "pr_data (program_view k) = Some d" "pd_token_address d = 9"
      "pd_remaining_balance d = 200" by blast
  then show ?thesis
    using escrows_solvent_together [OF voted_run_clean [OF k] t] k by (auto simp: site_plan_def)
qed


end
