(* ===== verification/Spec2Isabelle.thy ===== *)
theory Spec2Isabelle
  imports BountyGuards BountyFaults BountyScan ProgramLink EcosystemProps
begin

text \<open>
  Verification library for the Grainlify smart contracts on Soroban. The paths below are
  under src/, those of the bounty escrow under src/bounty_escrow/contracts/escrow/src/.

  The program. The bounty escrow contract holds token deposits for bounties: a depositor
  locks an amount with a deadline (\<open>lock_funds\<close>), the admin pays it out whole or in parts
  (\<open>release_funds\<close>, \<open>partial_release\<close>), lets the contributor claim it (\<open>authorize_claim\<close>,
  \<open>claim\<close>), or it goes back to the depositor (\<open>refund\<close>, \<open>sweep_expired_refunds\<close>). Around this
  core stand a rate limiter, a circuit breaker, pause flags, a multisig approval of large
  releases, per-bounty analytics, incremental counters, and a link to a governance contract.
  The core contract (src/grainlify-core/src) is that governance contract: proposals for code
  hashes are voted on and their approval is what the escrows ask for before an upgrade. Its
  own code is upgraded by a multisig or by a single admin behind a timelock; which of the
  three paths a contract uses is fixed at its initialisation. The program escrow contract
  (src/program-escrow/src) holds the prize pool of one program: sponsors lock funds
  (\<open>lock_program_funds\<close>), an authorised payout key pays winners singly or in a batch
  (\<open>single_payout\<close>, \<open>batch_payout\<close>) and plans release schedules, which a trigger pays when
  they are due or which are released one by one. It has its own copies of the breaker, the
  rate limiter and the governance link, and adds disputes, whitelists and a monitor.

  Theories and code.
  \<^item> Prelude: Rust's integer operations on explicit ranges (checked and saturating), the
    result type of an invocation (a contract error or a panic on the left), reachability.
  \<^item> Host: the invocation and the contracts that are called, as parameters (\<open>env\<close>), the
    documented behaviour of a SEP-41 token (\<open>sep41\<close>) and a concrete ledger for examples.
  \<^item> BountyTypes: structs, errors and events of lib.rs, events.rs and analytics.rs.
  \<^item> CircuitBreaker (error_recovery.rs), AntiAbuse (module \<open>anti_abuse\<close> of lib.rs),
    BountyAnalytics (analytics.rs), BountyGovernance (governance_integration.rs), Monitoring
    (module \<open>monitoring\<close> of lib.rs): the modules, each with its state and its invariant.
  \<^item> BountyState: the storage (\<open>DataKey\<close>) as the record \<open>state\<close>, counters, pause check, token
    transfer; BountyAdmin, BountyEscrow, BountyRefund, BountyBatch, BountyQueries: one
    definition per entrypoint of lib.rs, under its own name, with its checks in the order
    of the code. An entrypoint maps a state to a new state or to an error; an error leaves
    the state unchanged, as the host rolls a failed invocation back.
  \<^item> BountyLedger: the abstract specification, a book of escrows with its moves and its
    invariant \<open>book_ok\<close>; the statuses of an escrow are an instance of \<open>order\<close>, in which its
    life goes up. BountySystem: the contract as a transition system, \<open>exec\<close> of one \<open>call\<close>, and
    the simulation of every call by moves of the book.
  \<^item> BountyProps, BountyGuards, BountyFaults, BountyScan: the effects of the entrypoints, who
    may change what, which failures cannot happen, and the counters against the full scan.
  \<^item> BountyScenario: sample runs on the concrete ledger, used by the witnesses.
  \<^item> CoreTypes: types, events and storage of the core contract, one record that its modules
    share as the code's modules share the instance storage. Multisig (multisig.rs), Governance
    (governance.rs), GrainlifyCore (lib.rs): one definition per function, with its invariant.
    CoreSystem: the contract as a transition system with its invariant \<open>core_ok\<close>; CoreProps:
    its properties and sample runs.
  \<^item> CoreLink: a bounty escrow whose governance calls are answered by a core contract, through
    the interface \<open>governance_api\<close>; ProgramLink: the same for the program escrow.
  \<^item> ProgramTypes: structs, errors and events of the program escrow. ProgramBreaker
    (error_recovery.rs), with its refinement of the bounty escrow's breaker; ProgramModules:
    the rate limiter, governance_integration.rs and monitoring.rs.
  \<^item> ProgramState: the storage as the record \<open>program\<close> and the shared checks, with
    reentrancy_guard.rs; ProgramAdmin, ProgramConfig, ProgramPayout, ProgramSchedules,
    ProgramQueries: one definition per entrypoint of lib.rs, in the order of its parts. A
    prefix \<open>pr_\<close>, \<open>pg_\<close>, \<open>pm_\<close>, \<open>pa_\<close> or \<open>pb_\<close> marks a function whose name the other
    contracts have too.
  \<^item> ProgramEffects: what a call that returns has checked and changed. ProgramPool: the
    abstract specification, a pool of funds with its schedules and its invariant \<open>pool_ok\<close>.
    ProgramTrigger: the trigger's loop against a reference. ProgramSystem: the contract as a
    transition system and the simulation of every call by moves of the pool; ProgramGuards:
    frames and further invariants.
  \<^item> ProgramScenario: sample runs. ProgramProps, ProgramReleases, ProgramPayments,
    ProgramPolicies, ProgramRecords: the properties of the program escrow.
  \<^item> Consent: whose tokens a call of either escrow can move. Ecosystem: the three contracts as
    they are deployed together, on one ledger. At the address of the core contract the
    governance calls of both escrows are answered by it, at every other address by any
    contract whatever; a step is a call of one of the three or a move of other people's
    tokens. EcosystemProps: what holds of the three together, and a run that takes them
    from their deployment to an upgrade.

  Storage keys. A variant of a \<open>contracttype\<close> enum is stored under the vector of its name and
  arguments, without the name of the enum; two keys of different enums with the same variant
  in the same kind of storage are one cell. This makes the admin of the anti-abuse module of
  the bounty escrow the admin of the contract, and the two whitelists of the program escrow
  one map; the records have one field for each such pair.

  What the lemmas show. The simulation (\<open>exec_refines_book\<close>) carries the invariants: states
  are well formed, an escrow's life only goes forward, and runs of clean calls (none of
  which releases in full what was released in part before) keep the contract solvent and the
  counters equal to the full scan. The remaining theorems state the effect of each call,
  the access rules, and where the code departs from its purpose, some of it on sample runs.
  For the core contract they show that a multisig proposal is executed once and can always be
  executed, that the tallies are the votes and an approved hash had its quorum, that code
  changes only by the path that was claimed and after its timelock, and, across both
  contracts, that an escrow linked to a core contract is upgraded only to a hash that was
  voted for. For the program escrow the simulation (\<open>program_refines_pool\<close>) carries solvency, the bookkeeping of the
  schedules, each released once, and the completeness of the payout history in runs without
  direct releases; ProgramReleases shows what such a release does to it. Together the contracts
  do not disturb each other: each of them runs in its own transition system, so what is
  assumed there of the outside is met by the others; both escrows stay covered on the one
  ledger, nobody pays without having authorised the call, and the code of an escrow changes
  only when its admin upgrades it to a hash that the governance contract it is linked to
  approves. As long as this is the core contract, its voters have decided for the hash; but
  the admin of an escrow can link it to any other contract.

  Bounds. Integers have the ranges of their Rust types where the code can leave them; every
  loop is structural recursion or has a measure, so there is no fuel anywhere.

  Not modelled: time to live, except that in the program escrow extending that of a missing
  entry traps (\<open>bump_persistent_symbol_ttl\<close>); the split into instance and persistent storage;
  the events of failed invocations; the event FeeCollected and the struct PayoutApproval,
  which are never used; what the new code of a contract does after an upgrade: the systems
  go on with the code at hand. A call of the host traps as a whole and leaves the state as it was.
  The tests, scripts, SDK and deployment files are not contract code.
\<close>

section \<open>The contract as a refinement of the book\<close>

text \<open>
  C1: every call that returns, from any reachable state, is a sequence of moves of the
  abstract book of escrows, and of clean moves when the call is clean.
\<close>

theorem exec_refines_book:
  assumes "reachable E s" and "valid_env E env" and "exec env c s = Inr s'"
  shows "\<exists>ms. bsteps (book_of E s) ms (book_of E s') \<and> (clean_call s c \<longrightarrow> list_all clean ms)"
  using reachable_exec_moves [OF assms] by metis

lemma exec_refines_book_witness:
  "\<exists>s' ms. exec (sample_env 130 [1]) (Partial_release 71 5 40) (after paid_in_parts) = Inr s' \<and>
     bsteps (book_of sample (after paid_in_parts)) ms (book_of sample s') \<and> list_all clean ms"
proof -
  obtain s' where ok:
      "exec (sample_env 130 [1]) (Partial_release 71 5 40) (after paid_in_parts) = Inr s'"
    by (simp add: after_def paid_in_parts_def two_locks_def eval_defs)
  then show ?thesis
    using exec_refines_book [OF paid_in_parts_reachable _ ok] by auto
qed

text \<open>
  C3: in every state reached by clean calls the tokens the contract holds cover what remains
  of all its escrows.
\<close>

theorem clean_runs_solvent:
  assumes "clean_reach E s"
  shows "sum_over remaining_amount (st_escrows s) (escrow_index s) \<le> held E s"
  using clean_reach_ok(1) [OF assms] by (simp add: solvent_def)

lemma clean_runs_solvent_witness:
  "sum_over remaining_amount (st_escrows (after paid_in_parts)) (escrow_index (after paid_in_parts))
     \<le> held sample (after paid_in_parts)"
  by (rule clean_runs_solvent [OF paid_in_parts_clean])

text \<open>
  C9: in every state reached by clean calls the incremental counters are exactly what the
  full scan computes, which then neither overflows nor differs, provided that all amounts
  ever locked sum up within \<open>i128\<close> and the number of bounties fits \<open>u32\<close>.
\<close>

theorem counters_equal_full_scan:
  assumes "clean_reach E s" and "fits (book_of E s)"
  shows "get_aggregate_stats_full_scan s = Inr (get_aggregate_stats s)"
proof -
  obtain c where "get_aggregate_stats_full_scan s = Inr c"
    and c: "tallies c (book_sum locked_part (book_of E s)) (book_sum released_sum (book_of E s))
      (book_sum refund_sum (book_of E s)) (book_sum (one_if live) (book_of E s))
      (book_sum (one_if is_released) (book_of E s)) (book_sum (one_if is_refunded) (book_of E s))"
    using full_scan_tallies [OF clean_reach_reachable [OF assms(1)] assms(2)] by blast
  moreover have "counters_ok (book_of E s)" using clean_reach_ok(3) [OF assms] .
  then have "get_counters s = c"
    using tallies_unique [OF c] by (simp add: counters_ok_def)
  ultimately show ?thesis by (simp add: get_aggregate_stats_def)
qed

lemma paid_in_parts_fits: "fits (book_of sample (after paid_in_parts))"
  by (simp add: fits_def after_def paid_in_parts_def two_locks_def eval_defs)

lemma counters_equal_full_scan_witness:
  "get_aggregate_stats_full_scan (after paid_in_parts) = Inr (get_aggregate_stats (after paid_in_parts)) \<and>
   total_locked (get_aggregate_stats (after paid_in_parts)) = 140"
  using counters_equal_full_scan [OF paid_in_parts_clean paid_in_parts_fits]
  by (simp add: after_def paid_in_parts_def two_locks_def get_aggregate_stats_def eval_defs)

text \<open>
  The counts by status are exact on clean runs that fit: the full scan counts the indexed
  bounties with the status, and the counters give the same for released and refunded ones;
  for locked ones they count the partly refunded too.
\<close>

theorem status_counts_exact:
  assumes "clean_reach E s" and "fits (book_of E s)"
  shows "count_by_status_full_scan s st = Inr (count_of s (\<lambda>e. status e = st)) \<and>
    count_bounties_by_status s Locked =
      Inr (count_of s (\<lambda>e. status e = Locked) + count_of s (\<lambda>e. status e = PartiallyRefunded)) \<and>
    count_bounties_by_status s Released = Inr (count_of s (\<lambda>e. status e = Released)) \<and>
    count_bounties_by_status s Refunded = Inr (count_of s (\<lambda>e. status e = Refunded)) \<and>
    count_bounties_by_status s PartiallyRefunded =
      Inr (count_of s (\<lambda>e. status e = PartiallyRefunded))"
proof -
  have "length (escrow_index s) \<le> u32_max" using assms(2) by (simp add: fits_def)
  then show ?thesis
    using clean_counts [OF assms] count_live [of s]
    by (simp add: count_bounties_by_status_def full_scan_count)
qed

lemma status_counts_exact_witness:
  "count_bounties_by_status (after paid_in_parts) Locked =
     Inr (count_of (after paid_in_parts) (\<lambda>e. status e = Locked) +
          count_of (after paid_in_parts) (\<lambda>e. status e = PartiallyRefunded))"
  using status_counts_exact [OF paid_in_parts_clean paid_in_parts_fits] by blast

section \<open>Well-formed states and the life of an escrow\<close>

text \<open>
  C25: in every reachable state the escrow index lists each stored bounty once, the index of
  a depositor is his part of it, every escrow's amounts add up (nothing negative, what was
  released and refunded is what is missing from the amount, a released escrow is empty), and
  an open claim stands for exactly what remains of a locked escrow.
\<close>

theorem reachable_states_well_formed:
  assumes "reachable E s"
  shows "distinct (escrow_index s) \<and> set (escrow_index s) = dom (st_escrows s) \<and>
    (\<forall>a. depositor_index s a = filter (deposited_by (st_escrows s) a) (escrow_index s)) \<and>
    (\<forall>b e. st_escrows s b = Some e \<longrightarrow> escrow_ok e \<and>
       (\<forall>r \<in> set (refund_history e). 0 < rr_amount r)) \<and>
    (\<forall>b cl. st_claims s b = Some cl \<longrightarrow> (\<exists>e. st_escrows s b = Some e \<and>
       (if claimed cl then status e = Released
        else status e = Locked \<and> remaining_amount e = cl_amount cl)))"
  using reachable_book_ok [OF assms] reachable_dindex [OF assms] reachable_histories [OF assms]
  by (simp add: book_ok_def index_ok_def escrows_ok_def claims_ok_def histories_ok_def)

lemma reachable_states_well_formed_witness:
  "distinct (escrow_index (after paid_in_parts)) \<and>
   set (escrow_index (after paid_in_parts)) = dom (st_escrows (after paid_in_parts))"
  using reachable_states_well_formed [OF paid_in_parts_reachable] by blast

text \<open>
  C26: no call from a reachable state loses an escrow or rewrites its depositor, amount or
  deadline; what remains never grows, the status only moves forward, the refund history only
  gets longer, and a released or refunded escrow never changes again.
\<close>

theorem escrow_life_cycle:
  assumes "reachable E s" and "valid_env E env" and "exec env c s = Inr s'"
    and "st_escrows s b = Some e"
  shows "\<exists>e'. st_escrows s' b = Some e' \<and> evolves e e' \<and> (live e \<or> e' = e)"
proof -
  obtain ms where ms: "bsteps (book_of E s) ms (book_of E s')" "book_ok (book_of E s)"
    using reachable_exec_moves [OF assms(1-3)] by blast
  obtain e' where e': "st_escrows s' b = Some e'" "evolves e e'"
    using grows_steps [OF ms] assms(4) by (auto simp: grows_def)
  moreover have "e' = e" if "\<not> live e"
    using settled_frozen_steps [OF ms, of b e] assms(4) e'(1) that by simp
  ultimately show ?thesis by blast
qed

lemma escrow_life_cycle_witness:
  "\<exists>s' e e'. exec (sample_env 130 [1]) (Partial_release 71 5 40) (after paid_in_parts) = Inr s' \<and>
     st_escrows (after paid_in_parts) 71 = Some e \<and> st_escrows s' 71 = Some e' \<and> evolves e e'"
proof -
  obtain s' e where
      ok: "exec (sample_env 130 [1]) (Partial_release 71 5 40) (after paid_in_parts) = Inr s'"
    and e: "st_escrows (after paid_in_parts) 71 = Some e"
    by (simp add: after_def paid_in_parts_def two_locks_def eval_defs)
  then show ?thesis
    using escrow_life_cycle [OF paid_in_parts_reachable _ ok e] by auto
qed

section \<open>What breaks solvency\<close>

text \<open>
  C17: a release pays the original amount even after partial releases. In whatever reachable
  state it goes through, the margin of the contract (tokens held less everything that remains
  of the escrows) falls by exactly the part that had been paid out before. So after the
  release the contract cannot pay what remains of the other escrows, none of which the call
  has touched, if and only if the margin was smaller than that part; with no tokens to spare
  any earlier partial release is enough.
\<close>

theorem overpaying_release_drains_others:
  assumes "reachable E s" and "valid_env E env" and "release_funds env s b c = Inr s'"
    and "st_escrows s b = Some e" and "c \<noteq> current_contract_address E"
  shows "held E s' - sum_over remaining_amount (st_escrows s') (escrow_index s') =
      held E s - sum_over remaining_amount (st_escrows s) (escrow_index s)
        - (amount e - remaining_amount e) \<and>
    (\<forall>b'. b' \<noteq> b \<longrightarrow> st_escrows s' b' = st_escrows s b') \<and>
    (\<not> solvent (book_of E s') \<longleftrightarrow>
      held E s - sum_over remaining_amount (st_escrows s) (escrow_index s)
        < amount e - remaining_amount e)"
  using release_margin [OF assms] release_frame [OF assms(3,4)] by (auto simp: solvent_def)

text \<open>
  Bounties of 100 for two depositors, 60 of the first paid in part, then its release: the
  second still has 100 remaining, the contract holds 40.
\<close>

lemma overpaying_release_drains_others_witness:
  "\<exists>s'. release_funds (sample_env 130 [1]) (after paid_in_parts) 71 5 = Inr s' \<and>
     st_escrows s' 72 = st_escrows (after paid_in_parts) 72 \<and>
     held sample s' - sum_over remaining_amount (st_escrows s') (escrow_index s') = - 60 \<and>
     \<not> solvent (book_of sample s')"
proof -
  obtain s' e where ok: "release_funds (sample_env 130 [1]) (after paid_in_parts) 71 5 = Inr s'"
    and e: "st_escrows (after paid_in_parts) 71 = Some e" "amount e = 100"
      "remaining_amount e = 40"
    by (simp add: after_def paid_in_parts_def two_locks_def eval_defs)
  moreover have "held sample (after paid_in_parts) = 140"
      "sum_over remaining_amount (st_escrows (after paid_in_parts))
         (escrow_index (after paid_in_parts)) = 140"
    by (simp_all add: held_def after_def paid_in_parts_def two_locks_def eval_defs)
  ultimately show ?thesis
    using overpaying_release_drains_others [OF paid_in_parts_reachable _ ok e(1)] by simp
qed

text \<open>
  C24: the multisig threshold guards single releases only. Take any reachable state and a
  release that would go through with some other multisig settings and approvals. Then, with
  the settings and approvals as they are, the batch release of this bounty alone goes through
  and pays the same, while \<open>release_funds\<close> refuses it whenever the amount reaches the
  threshold and the approvals do not suffice.
\<close>

theorem batch_release_bypasses_multisig:
  assumes "reachable E s" and "st_escrows s b = Some e" and "in_i128 (amount e)"
    and "release_funds env (s\<lparr>st_multisig := cfg, st_release_approvals := apps\<rparr>) b c = Inr s1"
  shows "(\<exists>s2. batch_release_funds env s [\<lparr>ri_bounty_id = b, ri_contributor = c\<rparr>] = Inr (s2, 1) \<and>
      st_world s2 = st_world s1 \<and> st_escrows s2 = st_escrows s1 \<and>
      st_release_approvals s2 = st_release_approvals s) \<and>
    (threshold_amount (get_multisig_config s) \<le> amount e \<and>
      (\<forall>a. st_release_approvals s b = Some a \<longrightarrow>
         length (approvals a) < required_signatures (get_multisig_config s)) \<longrightarrow>
      release_funds env s b c = Inl (Contract ApprovalRequired))"
proof -
  obtain e' t w m where "release_ready env s b c e' t w m" and w: "st_world s1 = w"
    by (rule release_fundsE [OF assms(4)]) (auto simp: ready_multisig)
  moreover from this have "e' = e" using assms(2) by (simp add: release_ready_def)
  ultimately have ready: "release_ready env s b c e t w m" by simp
  have "get_state (st_breaker s) \<noteq> Open"
    using reachable_calm [OF assms(1)] by (simp add: calm_def)
  from batch_of_one [OF ready this assms(3)] unapproved_release [OF ready]
    release_frame [OF assms(4)] assms(2) w
  show ?thesis by auto
qed

lemma batch_release_bypasses_multisig_witness:
  "release_funds (sample_env 130 [1]) (after guarded) 71 5 = Inl (Contract ApprovalRequired) \<and>
   (\<exists>s2. batch_release_funds (sample_env 130 [1]) (after guarded)
      [\<lparr>ri_bounty_id = 71, ri_contributor = 5\<rparr>] = Inr (s2, 1) \<and> st_world s2 5 = 1100)"
proof -
  obtain e where e: "st_escrows (after guarded) 71 = Some e" "in_i128 (amount e)"
    by (simp add: after_def guarded_def two_locks_def eval_defs in_i128_def)
  obtain s1 where s1: "release_funds (sample_env 130 [1])
      ((after guarded)\<lparr>st_multisig := None, st_release_approvals := Map.empty\<rparr>) 71 5 = Inr s1"
    "st_world s1 5 = 1100"
    by (simp add: after_def guarded_def two_locks_def eval_defs)
  have "release_funds (sample_env 130 [1]) (after guarded) 71 5 = Inl (Contract ApprovalRequired)"
    by (simp add: after_def guarded_def two_locks_def eval_defs)
  then show ?thesis
    using batch_release_bypasses_multisig [OF guarded_reachable e s1(1)] s1(2) by auto
qed

text \<open>
  Money can be stranded. An approval of mode \<open>Full\<close> for 30 of 100, refunded, settles the
  bounty as refunded with 70 remaining; from that reachable state no call whatever changes
  the escrow again.
\<close>

theorem full_refund_of_part_strands_the_rest:
  "reachable sample (after stranded) \<and>
   (\<exists>e. st_escrows (after stranded) 71 = Some e \<and> status e = Refunded \<and>
      remaining_amount e = 70 \<and>
      (\<forall>env c s'. valid_env sample env \<longrightarrow> exec env c (after stranded) = Inr s' \<longrightarrow>
         st_escrows s' 71 = Some e))"
proof -
  obtain e where e: "st_escrows (after stranded) 71 = Some e" "status e = Refunded"
      "remaining_amount e = 70"
    by (simp add: after_def stranded_def two_locks_def eval_defs)
  have "st_escrows s' 71 = Some e"
    if "valid_env sample env" "exec env c (after stranded) = Inr s'" for env c s'
    using reachable_settled_frozen [OF stranded_reachable that e(1)] e(2) by (simp add: live_def)
  with e stranded_reachable show ?thesis by blast
qed

lemma full_refund_of_part_strands_the_rest_witness:
  "\<exists>s'. exec (sample_env 700 [1]) (Set_claim_window 9) (after stranded) = Inr s' \<and>
     st_escrows s' 71 = st_escrows (after stranded) 71"
proof -
  obtain s' where ok: "exec (sample_env 700 [1]) (Set_claim_window 9) (after stranded) = Inr s'"
    by (simp add: after_def stranded_def two_locks_def eval_defs)
  have "valid_env sample (sample_env 700 [1])" by simp
  with full_refund_of_part_strands_the_rest ok
  have "st_escrows s' 71 = st_escrows (after stranded) 71" by metis
  with ok show ?thesis by blast
qed

text \<open>
  The eligibility view is not a sufficient condition: with a pending claim it still
  announces a refund after the deadline, and the refund is rejected.
\<close>

theorem eligibility_ignores_pending_claims:
  "reachable sample (after claimable) \<and>
   get_refund_eligibility (sample_env 600 []) (after claimable) 71 = Inr (True, True, 100, None) \<and>
   refund (sample_env 600 []) (after claimable) 71 = Inl (Contract RefundNotApproved)"
  using claimable_reachable
  by (simp add: after_def claimable_def two_locks_def get_refund_eligibility_def eval_defs)

text \<open>
  The query for released volume does not return the funds of the released bounties: after
  a partial release of 60 no bounty is released and the full scan says 0, while the query,
  which reads the running total of all payments, says 60.
\<close>

theorem released_volume_counts_partial_payments:
  "reachable sample (after paid_in_parts) \<and>
   count_by_status_full_scan (after paid_in_parts) Released = Inr 0 \<and>
   volume_by_status_full_scan (after paid_in_parts) Released = 0 \<and>
   get_volume_by_status (after paid_in_parts) Released = 60"
  using paid_in_parts_reachable
  by (simp add: after_def paid_in_parts_def two_locks_def count_by_status_full_scan_def
      volume_by_status_full_scan_def get_volume_by_status_def add_u32_def eval_defs)

section \<open>Guards over all calls\<close>

text \<open>
  The reentrancy guard never leaks: it is down in every reachable state, so no call ever
  fails because a call before it left the guard up.
\<close>

theorem reentrancy_guard_never_leaks:
  assumes "reachable E s"
  shows "\<not> st_reentrancy_guard s \<and> exec env c s \<noteq> Inl (Panic Reentrancy_detected)"
  using reachable_calm [OF assms] exec_avoids [of s env c]
  by (auto simp: calm_def avoids_def)

lemma reentrancy_guard_never_leaks_witness:
  "\<not> st_reentrancy_guard (after paid_in_parts) \<and>
   exec (sample_env 130 [1]) (Release_funds 71 5) (after paid_in_parts)
     \<noteq> Inl (Panic Reentrancy_detected)"
  by (rule reentrancy_guard_never_leaks [OF paid_in_parts_reachable])

text \<open>
  The circuit breaker never opens. No entrypoint records a failure, so the breaker is
  closed in every reachable state and no call is ever refused with \<open>CircuitBreakerOpen\<close>.
\<close>

theorem circuit_breaker_never_opens:
  assumes "reachable E s"
  shows "bs_state (get_circuit_breaker_status s) = Closed \<and>
    exec env c s \<noteq> Inl (Contract CircuitBreakerOpen)"
  using reachable_calm [OF assms] exec_avoids [of s env c]
  by (auto simp: calm_def avoids_def get_circuit_breaker_status_def get_status_def)

lemma circuit_breaker_never_opens_witness:
  "bs_state (get_circuit_breaker_status (after paid_in_parts)) = Closed \<and>
   exec (sample_env 130 [1]) (Partial_release 71 5 41) (after paid_in_parts)
     \<noteq> Inl (Contract CircuitBreakerOpen)"
  by (rule circuit_breaker_never_opens [OF paid_in_parts_reachable])

text \<open>
  C37: tokens move only past a pause flag. Whatever call returns, if anything outside the
  contract's storage has changed, the call was one of the eight that are bound to a pause
  flag and that flag, and the global one, was down, or it executed a governance proposal.
\<close>

theorem tokens_move_only_unpaused:
  assumes "exec env c s = Inr s'" and "st_world s' \<noteq> st_world s"
  shows "(\<exists>p. c = Execute_governance_proposal p) \<or>
    (\<exists>opn. paused_op c = Some opn \<and> \<not> check_paused s opn \<and>
       \<not> global_paused (get_pause_flags s))"
proof (cases "paused_op c")
  case None
  then show ?thesis using unpaused_world assms by blast
next
  case (Some opn)
  then have "\<not> check_paused s opn" using paused_op_blocks assms(1) by blast
  then show ?thesis using Some by (auto simp: check_paused_def Let_def split: if_splits)
qed

lemma tokens_move_only_unpaused_witness:
  "\<exists>s'. exec (sample_env 130 [1]) (Release_funds 71 5) (after two_locks) = Inr s' \<and>
     \<not> global_paused (get_pause_flags (after two_locks))"
proof -
  obtain s' where ok: "exec (sample_env 130 [1]) (Release_funds 71 5) (after two_locks) = Inr s'"
    and "st_world s' 5 = 1100" "st_world (after two_locks) 5 = 1000"
    by (simp add: after_def two_locks_def eval_defs)
  then have "st_world s' \<noteq> st_world (after two_locks)" by (intro notI) simp
  from tokens_move_only_unpaused [OF ok this] ok show ?thesis by auto
qed

text \<open>
  Settings are in the hands of the administrators: a call that changes any of them was
  authorised by the stored admin, or it is the initialisation of a fresh contract authorised
  by the new admin, or the reset of the breaker authorised by the breaker's own admin.
\<close>

theorem settings_change_needs_admin:
  assumes "exec env c s = Inr s'" and "\<not> settings_same s s'"
  shows "(\<exists>a. st_admin s = Some a \<and> authorized env a) \<or>
    (\<exists>a t. c = Init a t \<and> st_admin s = None \<and> authorized env a) \<or>
    (\<exists>a. c = Reset_circuit a \<and> cb_admin (st_breaker s) = Some a \<and> authorized env a)"
  by (rule settings_change_auth [OF assms])

lemma settings_change_needs_admin_witness:
  "\<exists>s'. exec (sample_env 130 [1]) (Set_claim_window 9) (after two_locks) = Inr s' \<and>
     st_admin (after two_locks) = Some 1"
proof -
  obtain s' where ok: "exec (sample_env 130 [1]) (Set_claim_window 9) (after two_locks) = Inr s'"
    and "st_claim_window s' = Some 9" "st_claim_window (after two_locks) = None"
    by (simp add: after_def two_locks_def eval_defs)
  then have "\<not> settings_same (after two_locks) s'" by (simp add: settings_same_def)
  from settings_change_needs_admin [OF ok this] ok show ?thesis by auto
qed

text \<open>
  C22: The call that records an admin of the anti-abuse module hands over the whole contract.
  The admin and the token are set by the initialisation, which is refused the second time;
  after that the token never changes and the admin changes exactly by
  \<open>set_anti_abuse_admin\<close>, authorised by the current one, because the two storage keys
  coincide: the new address is the contract's admin from then on.
\<close>

theorem anti_abuse_admin_takes_over:
  assumes "st_admin s = Some a" and "exec env c s = Inr s'"
  shows "st_token s' = st_token s \<and> init env' s' a' t' = Inl (Contract AlreadyInitialized) \<and>
    st_admin s' = (case c of Set_anti_abuse_admin b \<Rightarrow> Some b | _ \<Rightarrow> Some a) \<and>
    (\<forall>b. c = Set_anti_abuse_admin b \<longrightarrow> authorized env a \<and> require_admin env' s' =
       (if authorized env' b then Inr b else Inl (Panic Auth_failed)))"
proof -
  have "st_token s' = st_token s \<and>
      st_admin s' = (case c of Set_anti_abuse_admin b \<Rightarrow> Some b | _ \<Rightarrow> Some a)"
  proof (cases "admin_call c")
    case True
    then show ?thesis
      using admin_call_token [OF _ assms(2)] assms(1) by (simp split: call.splits)
  next
    case False
    with assms(2) show ?thesis
      by (cases rule: exec_cases)
        (use False assms(1) in \<open>auto simp: settings_same_def split: call.splits\<close>)
  qed
  moreover have "authorized env a" if "c = Set_anti_abuse_admin b" for b
    using assms that by (auto simp: set_anti_abuse_admin_def require_admin_def res_simps)
  ultimately show ?thesis
    by (auto simp: init_def require_admin_def require_auth_def split: call.splits)
qed

lemma anti_abuse_admin_takes_over_witness:
  "\<exists>s'. exec (sample_env 130 [1]) (Set_anti_abuse_admin 7) (after two_locks) = Inr s' \<and>
     st_admin s' = Some 7 \<and> require_admin (sample_env 140 [7]) s' = Inr 7"
proof -
  obtain s' where ok: "exec (sample_env 130 [1]) (Set_anti_abuse_admin 7) (after two_locks) = Inr s'"
    and admin: "st_admin (after two_locks) = Some 1"
    by (simp add: after_def two_locks_def set_anti_abuse_admin_def aa_set_admin_def eval_defs)
  from anti_abuse_admin_takes_over [OF admin ok, of "sample_env 140 [7]"] ok show ?thesis by auto
qed

text \<open>
  No reachable configuration is out of range: fee rates lie between 0 and 50 percent,
  the amount policy is an interval, the multisig never asks for more signatures than it has
  signers, and the breaker's failure threshold is positive.
\<close>

theorem reachable_configurations_valid:
  assumes "reachable E s"
  shows "config_ok s"
  by (rule config_inv.reach_inv [OF assms])

lemma reachable_configurations_valid_witness: "config_ok (after guarded)"
  by (rule reachable_configurations_valid [OF guarded_reachable])

text \<open>
  The depositor index is a faithful shortcut: in every reachable state a filtered query
  with a depositor returns the same page, computed from his index, as the same filter run
  over the global index.
\<close>

theorem depositor_query_equals_full_query:
  assumes "reachable E s" and "has_depositor_filter f"
  shows "query_escrows s f offset limit =
    scan_loop s (filter_matches f) with_id offset (min limit MAX_QUERY_LIMIT)
      (escrow_index s) 0 0 []"
proof -
  have "filter (matches s (filter_matches f)) (depositor_index s (f_depositor f)) =
      filter (matches s (filter_matches f)) (escrow_index s)"
    unfolding reachable_dindex [OF assms(1)] filter_filter
    using assms(2)
    by (intro filter_cong)
      (auto simp: matches_def filter_matches_def deposited_by_def split: option.splits)
  then show ?thesis
    using assms(2) by (simp add: query_escrows_def scan_loop_start page_def)
qed

definition of_depositor :: "addr \<Rightarrow> escrow_query_filter" where
  "of_depositor a = \<lparr>has_status_filter = False, f_status = Locked, has_depositor_filter = True,
     f_depositor = a, min_amount = 0, max_amount = i128_max, min_deadline = 0,
     max_deadline = u64_max\<rparr>"

lemma depositor_query_equals_full_query_witness:
  "query_escrows (after paid_in_parts) (of_depositor 3) 0 10 =
     scan_loop (after paid_in_parts) (filter_matches (of_depositor 3)) with_id 0
       (min 10 MAX_QUERY_LIMIT) (escrow_index (after paid_in_parts)) 0 0 []"
  by (rule depositor_query_equals_full_query [OF paid_in_parts_reachable])
    (simp add: of_depositor_def)

text \<open>
  Disputes are reported exactly when they are resolved: a claim and a cancellation that
  return emit one \<open>DisputeResolved\<close> event each, and no other call emits any.
\<close>

theorem dispute_events_exact:
  assumes "exec env c s = Inr s'"
  shows "disputes s' = disputes s + (if resolves c then 1 else 0)"
  by (rule disputes_exec [OF assms])

lemma dispute_events_exact_witness:
  "\<exists>s'. exec (sample_env 180 [5]) (Claim 71) (after claimable) = Inr s' \<and>
     disputes s' = disputes (after claimable) + 1"
proof -
  obtain s' where ok: "exec (sample_env 180 [5]) (Claim 71) (after claimable) = Inr s'"
    by (simp add: after_def claimable_def two_locks_def eval_defs)
  from dispute_events_exact [OF this] ok show ?thesis by simp
qed

end
